theory Spec2Isabelle
  imports Main "HOL-Library.Word"
begin

unbundle bit_operations_syntax

section \<open>Status codes and machine types\<close>

text \<open>
  Modelled from the spec: \<^verbatim>\<open>apr_errno.h\<close> is not part of the sources under study, so the
  status taxonomy of the error-handling section is used: the named statuses, and a generic
  wrapper \<open>APR_OS_ERROR e\<close> carrying a non-zero native error code \<open>e\<close>
  (\<^verbatim>\<open>e + APR_OS_START_SYSERR\<close> in the C headers).
\<close>

datatype apr_status_t =
    APR_SUCCESS
  | APR_INCOMPLETE
  | APR_EBUSY
  | APR_TIMEUP
  | APR_EOF
  | APR_ENOTIMPL
  | APR_EBADPATH
  | APR_EPATHWILD
  | APR_ENAMETOOLONG
  | APR_EINVAL
  | APR_ENOPOOL
  | APR_ENOMEM
  | APR_ENOENT
  | APR_EEXIST
  | APR_EACCES
  | APR_EGENERAL
  | APR_OS_ERROR nat

text \<open>\<^verbatim>\<open>APR_FROM_OS_ERROR(e)\<close>: a zero native code is success.\<close>

definition APR_FROM_OS_ERROR :: "nat \<Rightarrow> apr_status_t" where
  "APR_FROM_OS_ERROR e = (if e = 0 then APR_SUCCESS else APR_OS_ERROR e)"

type_synonym DWORD = "32 word"
type_synonym apr_size_t = "64 word"
type_synonym apr_int32_t = "32 word"
type_synonym apr_off_t = "64 word"

section \<open>Socket transfer (network_io/win32/sendrecv.c)\<close>

text \<open>
  The Winsock calls are the external platform. Each call the code makes is appended to a
  trace, and the platform's answer is a function of the trace so far (whose last element is
  the call being answered), so an answer may depend on everything that happened before.
  Buffers are modelled by their lengths only.
\<close>

datatype net_call =
    Call_WSASend nat "DWORD list"
  | Call_WSARecv nat DWORD
  | Call_sendto nat "32 word"
  | Call_recvfrom nat "32 word"
  | Call_malloc nat
  | Call_WSAIoctl nat
  | Call_CreateEvent
  | Call_TransmitFile nat DWORD apr_off_t "(DWORD \<times> DWORD) option"
  | Call_WaitForSingleObject DWORD
  | Call_WSAGetOverlappedResult nat

text \<open>
  The answer to \<^verbatim>\<open>WSASend\<close>/\<^verbatim>\<open>WSARecv\<close>: the return value, what the call left in
  \<^verbatim>\<open>dwBytes\<close>, and the value \<^verbatim>\<open>WSAGetLastError()\<close> has afterwards.
  \<^verbatim>\<open>sendto\<close>/\<^verbatim>\<open>recvfrom\<close> answer with their \<^verbatim>\<open>int\<close> return value and the last error.
\<close>

record wsa_result =
  wsa_rv :: int
  wsa_bytes :: DWORD
  wsa_lasterror :: nat

record bsd_result =
  bsd_rv :: "32 word"
  bsd_lasterror :: nat

datatype wait_rv = WAIT_OBJECT_0 | WAIT_TIMEOUT | WAIT_ABANDONED | WAIT_FAILED

text \<open>
  The answer to one \<^verbatim>\<open>TransmitFile\<close> request and to the calls that may follow it:
  the \<^verbatim>\<open>BOOL\<close> result, the network error right after it, the result of the wait on the
  completion event, whether \<^verbatim>\<open>WSAGetOverlappedResult\<close> succeeded, the byte count it
  stored, and the error codes read after a failed overlapped-result or wait call.
\<close>

record tf_result =
  tf_rv :: bool
  tf_lasterror :: nat
  tf_wait :: wait_rv
  tf_ovl_ok :: bool
  tf_ovl_bytes :: DWORD
  tf_ovl_lasterror :: nat
  tf_wait_lasterror :: nat

record ioctl_result =
  io_rv :: int
  io_dw :: DWORD
  io_lasterror :: nat

record net_env =
  WSASend :: "net_call list \<Rightarrow> wsa_result"
  WSARecv :: "net_call list \<Rightarrow> wsa_result"
  sendto :: "net_call list \<Rightarrow> bsd_result"
  recvfrom :: "net_call list \<Rightarrow> bsd_result"
  malloc_ok :: "net_call list \<Rightarrow> bool"
  WSAIoctl :: "net_call list \<Rightarrow> ioctl_result"
  TransmitFile :: "net_call list \<Rightarrow> tf_result"

definition SOCKET_ERROR :: int where
  "SOCKET_ERROR = -1"

definition SOCK_STREAM :: int where
  "SOCK_STREAM = 1"

definition MAXDWORD :: apr_size_t where
  "MAXDWORD = 0xFFFFFFFF"


definition WSABUF_ON_STACK :: nat where
  "WSABUF_ON_STACK = 50"

definition apr_get_netos_error :: "nat \<Rightarrow> apr_status_t" where
  "apr_get_netos_error e = APR_FROM_OS_ERROR e"

record apr_socket_t =
  socketdes :: nat
  sock_type :: int
  timeout :: int
  timeout_ms :: int
  overlapped :: bool

text \<open>
  Each function returns the status, the value left in the in/out length, and the trace.
\<close>

definition apr_socket_send ::
  "net_env \<Rightarrow> net_call list \<Rightarrow> apr_socket_t \<Rightarrow> apr_size_t
     \<Rightarrow> apr_status_t \<times> apr_size_t \<times> net_call list" where
  "apr_socket_send env tr sock len =
     (let tr1 = tr @ [Call_WSASend (socketdes sock) [ucast len]];
          r = WSASend env tr1
      in if wsa_rv r = SOCKET_ERROR
         then (apr_get_netos_error (wsa_lasterror r), 0, tr1)
         else (APR_SUCCESS, ucast (wsa_bytes r), tr1))"

definition apr_socket_recv ::
  "net_env \<Rightarrow> net_call list \<Rightarrow> apr_socket_t \<Rightarrow> apr_size_t
     \<Rightarrow> apr_status_t \<times> apr_size_t \<times> net_call list" where
  "apr_socket_recv env tr sock len =
     (let tr1 = tr @ [Call_WSARecv (socketdes sock) (ucast len)];
          r = WSARecv env tr1
      in if wsa_rv r = SOCKET_ERROR
         then (apr_get_netos_error (wsa_lasterror r), 0, tr1)
         else (if wsa_bytes r = 0 then APR_EOF else APR_SUCCESS, ucast (wsa_bytes r), tr1))"

definition apr_socket_sendto ::
  "net_env \<Rightarrow> net_call list \<Rightarrow> apr_socket_t \<Rightarrow> apr_size_t
     \<Rightarrow> apr_status_t \<times> apr_size_t \<times> net_call list" where
  "apr_socket_sendto env tr sock len =
     (let tr1 = tr @ [Call_sendto (socketdes sock) (ucast len)];
          r = sendto env tr1
      in if sint (bsd_rv r) = SOCKET_ERROR
         then (apr_get_netos_error (bsd_lasterror r), 0, tr1)
         else (APR_SUCCESS, scast (bsd_rv r), tr1))"

definition apr_socket_recvfrom ::
  "net_env \<Rightarrow> net_call list \<Rightarrow> apr_socket_t \<Rightarrow> apr_size_t
     \<Rightarrow> apr_status_t \<times> apr_size_t \<times> net_call list" where
  "apr_socket_recvfrom env tr sock len =
     (let tr1 = tr @ [Call_recvfrom (socketdes sock) (ucast len)];
          r = recvfrom env tr1
      in if sint (bsd_rv r) = SOCKET_ERROR
         then (apr_get_netos_error (bsd_lasterror r), 0, tr1)
         else if sint (bsd_rv r) = 0 \<and> sock_type sock = SOCK_STREAM
         then (APR_EOF, scast (bsd_rv r), tr1)
         else (APR_SUCCESS, scast (bsd_rv r), tr1))"

text \<open>
  \<^verbatim>\<open>apr_socket_sendv\<close>: the vector is the list of its \<^verbatim>\<open>iov_len\<close> values and
  \<^verbatim>\<open>in_vec\<close> is its length. The first loop returns \<^verbatim>\<open>APR_EINVAL\<close> from inside the
  function, before \<^verbatim>\<open>*nbytes\<close> is written, so the caller's \<open>nbytes\<close> comes back unchanged.
\<close>

fun sendv_total :: "apr_size_t list \<Rightarrow> apr_size_t \<Rightarrow> apr_size_t option" where
  "sendv_total [] total_len = Some total_len"
| "sendv_total (iov_len # vec) total_len =
     (if iov_len > MAXDWORD - total_len then None
      else sendv_total vec (total_len + iov_len))"

definition apr_socket_sendv ::
  "net_env \<Rightarrow> net_call list \<Rightarrow> apr_socket_t \<Rightarrow> apr_size_t list \<Rightarrow> apr_size_t
     \<Rightarrow> apr_status_t \<times> apr_size_t \<times> net_call list" where
  "apr_socket_sendv env tr sock vec nbytes =
     (case sendv_total vec 0 of
        None \<Rightarrow> (APR_EINVAL, nbytes, tr)
      | Some total_len \<Rightarrow>
          let in_vec = length vec;
              tr1 = (if in_vec \<le> WSABUF_ON_STACK then tr else tr @ [Call_malloc in_vec])
          in if in_vec > WSABUF_ON_STACK \<and> \<not> malloc_ok env tr1
             then (APR_ENOMEM, nbytes, tr1)
             else
               let tr2 = tr1 @ [Call_WSASend (socketdes sock) (map ucast vec)];
                   r = WSASend env tr2;
                   rc = (if wsa_rv r = SOCKET_ERROR
                         then apr_get_netos_error (wsa_lasterror r) else APR_SUCCESS)
               in (rc, ucast (wsa_bytes r), tr2))"

definition is_send_call :: "net_call \<Rightarrow> bool" where
  "is_send_call c = (case c of Call_WSASend s bufs \<Rightarrow> True | _ \<Rightarrow> False)"

text \<open>Concrete platforms used to exercise the socket functions.\<close>

definition env_reset :: net_env where
  "env_reset =
     \<lparr> WSASend = (\<lambda>tr. \<lparr> wsa_rv = - 1, wsa_bytes = 0, wsa_lasterror = 10054 \<rparr>),
       WSARecv = (\<lambda>tr. \<lparr> wsa_rv = - 1, wsa_bytes = 0, wsa_lasterror = 10054 \<rparr>),
       sendto = (\<lambda>tr. \<lparr> bsd_rv = - 1, bsd_lasterror = 10054 \<rparr>),
       recvfrom = (\<lambda>tr. \<lparr> bsd_rv = - 1, bsd_lasterror = 10054 \<rparr>),
       malloc_ok = (\<lambda>tr. True),
       WSAIoctl = (\<lambda>tr. \<lparr> io_rv = - 1, io_dw = 0, io_lasterror = 10054 \<rparr>),
       TransmitFile = (\<lambda>tr. \<lparr> tf_rv = False, tf_lasterror = 10054, tf_wait = WAIT_FAILED,
          tf_ovl_ok = False, tf_ovl_bytes = 0, tf_ovl_lasterror = 10054,
          tf_wait_lasterror = 6 \<rparr>) \<rparr>"

definition env_closed :: net_env where
  "env_closed = env_reset \<lparr> WSARecv := (\<lambda>tr. \<lparr> wsa_rv = 0, wsa_bytes = 0, wsa_lasterror = 0 \<rparr>) \<rparr>"

definition sock_stream :: apr_socket_t where
  "sock_stream =
     \<lparr> socketdes = 3, sock_type = 1, timeout = - 1, timeout_ms = 0, overlapped = False \<rparr>"

section \<open>Process mutex (locks/win32/proc_mutex.c)\<close>

text \<open>
  Handles are numbers, \<open>0\<close> being \<^verbatim>\<open>NULL\<close>. Kernel and pool calls are traced as for
  sockets; \<^verbatim>\<open>res_name_from_filename\<close> is a pure function supplied by the platform.
\<close>

datatype apr_lockmech_e =
    APR_LOCK_FCNTL | APR_LOCK_FLOCK | APR_LOCK_SYSVSEM | APR_LOCK_PROC_PTHREAD
  | APR_LOCK_POSIXSEM | APR_LOCK_DEFAULT | APR_LOCK_DEFAULT_TIMED

record apr_proc_mutex_t =
  pm_pool :: nat
  pm_handle :: nat
  pm_fname :: "string option"

datatype mutex_call =
    Call_CreateMutexW "string option"
  | Call_OpenMutexW string
  | Call_CloseHandle nat
  | Call_pool_cleanup_register nat apr_proc_mutex_t
  | Call_pool_cleanup_kill nat apr_proc_mutex_t

record handle_result =
  hr_handle :: nat
  hr_lasterror :: nat

record bool_result =
  br_ok :: bool
  br_lasterror :: nat

record mutex_env =
  CreateMutexW :: "mutex_call list \<Rightarrow> handle_result"
  OpenMutexW :: "mutex_call list \<Rightarrow> handle_result"
  CloseHandle :: "mutex_call list \<Rightarrow> bool_result"
  res_name_from_filename :: "string \<Rightarrow> string"

definition apr_get_os_error :: "nat \<Rightarrow> apr_status_t" where
  "apr_get_os_error e = APR_FROM_OS_ERROR e"

text \<open>
  \<^verbatim>\<open>proc_mutex_cleanup\<close> reads \<^verbatim>\<open>mutex->handle\<close> and assigns to no field of the mutex,
  so only the status and the trace are returned.
\<close>

definition proc_mutex_cleanup ::
  "mutex_env \<Rightarrow> mutex_call list \<Rightarrow> apr_proc_mutex_t \<Rightarrow> apr_status_t \<times> mutex_call list" where
  "proc_mutex_cleanup env tr mutex =
     (if pm_handle mutex \<noteq> 0
      then let tr1 = tr @ [Call_CloseHandle (pm_handle mutex)];
               r = CloseHandle env tr1
           in if \<not> br_ok r then (apr_get_os_error (br_lasterror r), tr1)
              else (APR_SUCCESS, tr1)
      else (APR_SUCCESS, tr))"

text \<open>
  \<^verbatim>\<open>apr_proc_mutex_create\<close> and \<^verbatim>\<open>apr_proc_mutex_child_init\<close> write through the
  caller's \<^verbatim>\<open>apr_proc_mutex_t **mutex\<close>; the model takes the value the caller's pointer
  variable holds before the call (\<open>None\<close> for \<^verbatim>\<open>NULL\<close>) and returns the value it holds
  afterwards.
\<close>

definition apr_proc_mutex_create ::
  "mutex_env \<Rightarrow> mutex_call list \<Rightarrow> apr_proc_mutex_t option \<Rightarrow> string option
     \<Rightarrow> apr_lockmech_e \<Rightarrow> nat
     \<Rightarrow> apr_status_t \<times> apr_proc_mutex_t option \<times> mutex_call list" where
  "apr_proc_mutex_create env tr mutex fname mech pool =
     (if mech \<noteq> APR_LOCK_DEFAULT \<and> mech \<noteq> APR_LOCK_DEFAULT_TIMED
      then (APR_ENOTIMPL, mutex, tr)
      else
        let mutexkey = map_option (res_name_from_filename env) fname;
            tr1 = tr @ [Call_CreateMutexW mutexkey];
            r = CreateMutexW env tr1
        in if hr_handle r = 0 then (apr_get_os_error (hr_lasterror r), mutex, tr1)
           else
             let m = \<lparr> pm_pool = pool, pm_handle = hr_handle r, pm_fname = fname \<rparr>
             in (APR_SUCCESS, Some m, tr1 @ [Call_pool_cleanup_register pool m]))"

definition apr_proc_mutex_child_init ::
  "mutex_env \<Rightarrow> mutex_call list \<Rightarrow> apr_proc_mutex_t option \<Rightarrow> string option \<Rightarrow> nat
     \<Rightarrow> apr_status_t \<times> apr_proc_mutex_t option \<times> mutex_call list" where
  "apr_proc_mutex_child_init env tr mutex fname pool =
     (case fname of
        None \<Rightarrow> (APR_SUCCESS, mutex, tr)
      | Some f \<Rightarrow>
          let mutexkey = res_name_from_filename env f;
              tr1 = tr @ [Call_OpenMutexW mutexkey];
              r = OpenMutexW env tr1
          in if hr_handle r = 0 then (apr_get_os_error (hr_lasterror r), mutex, tr1)
             else
               let m = \<lparr> pm_pool = pool, pm_handle = hr_handle r, pm_fname = fname \<rparr>
               in (APR_SUCCESS, Some m, tr1 @ [Call_pool_cleanup_register pool m]))"

text \<open>
  \<^verbatim>\<open>apr_proc_mutex_destroy\<close> returns the status, the mutex structure as it is after
  the call (the function assigns to none of its fields), and the trace.
\<close>

definition apr_proc_mutex_destroy ::
  "mutex_env \<Rightarrow> mutex_call list \<Rightarrow> apr_proc_mutex_t
     \<Rightarrow> apr_status_t \<times> apr_proc_mutex_t \<times> mutex_call list" where
  "apr_proc_mutex_destroy env tr mutex =
     (let (stat, tr1) = proc_mutex_cleanup env tr mutex
      in if stat = APR_SUCCESS
         then (stat, mutex, tr1 @ [Call_pool_cleanup_kill (pm_pool mutex) mutex])
         else (stat, mutex, tr1))"

text \<open>
  A kernel in which a handle can be closed once: \<^verbatim>\<open>CloseHandle\<close> fails with
  \<^verbatim>\<open>ERROR_INVALID_HANDLE\<close> (6) when the same handle was closed earlier in the trace.
\<close>

definition kernel_env :: mutex_env where
  "kernel_env =
     \<lparr> CreateMutexW = (\<lambda>tr. \<lparr> hr_handle = 42, hr_lasterror = 0 \<rparr>),
       OpenMutexW = (\<lambda>tr. \<lparr> hr_handle = 42, hr_lasterror = 0 \<rparr>),
       CloseHandle = (\<lambda>tr. if tr \<noteq> [] \<and> last tr \<in> set (butlast tr)
                           then \<lparr> br_ok = False, br_lasterror = 6 \<rparr>
                           else \<lparr> br_ok = True, br_lasterror = 0 \<rparr>),
       res_name_from_filename = (\<lambda>f. f) \<rparr>"

definition mutex42 :: apr_proc_mutex_t where
  "mutex42 = \<lparr> pm_pool = 1, pm_handle = 42, pm_fname = None \<rparr>"

section \<open>Sending a file (network_io/win32/sendrecv.c)\<close>





















section \<open>File metadata and directories: platform interface\<close>

text \<open>
  Wide strings are lists of 16-bit units. The Win32 structures keep the fields the code
  reads. \<^verbatim>\<open>apr_stat\<close> overlays \<^verbatim>\<open>WIN32_FIND_DATAW\<close> and \<^verbatim>\<open>WIN32_FILE_ATTRIBUTE_DATA\<close>
  in a union whose common prefix is all that \<^verbatim>\<open>fillin_fileinfo\<close> reads unless
  \<^verbatim>\<open>finddata\<close> is set, so one record serves for both.
\<close>

type_synonym wstring = "16 word list"

record FILETIME =
  dwLowDateTime :: DWORD
  dwHighDateTime :: DWORD

record WIN32_FIND_DATAW =
  dwFileAttributes :: DWORD
  ftCreationTime :: FILETIME
  ftLastAccessTime :: FILETIME
  ftLastWriteTime :: FILETIME
  nFileSizeHigh :: DWORD
  nFileSizeLow :: DWORD
  dwReserved0 :: DWORD
  cFileName :: wstring

record BY_HANDLE_FILE_INFORMATION =
  bh_dwFileAttributes :: DWORD
  bh_ftCreationTime :: FILETIME
  bh_ftLastAccessTime :: FILETIME
  bh_ftLastWriteTime :: FILETIME
  bh_dwVolumeSerialNumber :: DWORD
  bh_nFileSizeHigh :: DWORD
  bh_nFileSizeLow :: DWORD
  bh_nNumberOfLinks :: DWORD
  bh_nFileIndexHigh :: DWORD
  bh_nFileIndexLow :: DWORD

datatype apr_filetype_e =
    APR_NOFILE | APR_REG | APR_DIR | APR_CHR | APR_BLK | APR_PIPE | APR_LNK | APR_SOCK
  | APR_UNKFILE

text \<open>
  \<^verbatim>\<open>apr_finfo_t\<close>. Pointers are numbers with \<open>0\<close> for \<^verbatim>\<open>NULL\<close>, strings are optional
  (\<open>None\<close> for \<^verbatim>\<open>NULL\<close>), times are the mathematical value of the signed 64-bit
  \<^verbatim>\<open>apr_time_t\<close>. \<open>finfo_zero\<close> is the structure after \<^verbatim>\<open>memset(finfo, '\0', ...)\<close>.
\<close>

record apr_finfo_t =
  fi_pool :: nat
  fi_valid :: apr_int32_t
  fi_protection :: "32 word"
  fi_filetype :: apr_filetype_e
  fi_user :: nat
  fi_group :: nat
  fi_inode :: "64 word"
  fi_device :: DWORD
  fi_nlink :: "32 word"
  fi_size :: apr_off_t
  fi_csize :: apr_off_t
  fi_atime :: int
  fi_mtime :: int
  fi_ctime :: int
  fi_fname :: "string option"
  fi_name :: "string option"
  fi_filehand :: nat

definition finfo_zero :: apr_finfo_t where
  "finfo_zero =
     \<lparr> fi_pool = 0, fi_valid = 0, fi_protection = 0, fi_filetype = APR_NOFILE, fi_user = 0,
       fi_group = 0, fi_inode = 0, fi_device = 0, fi_nlink = 0, fi_size = 0, fi_csize = 0,
       fi_atime = 0, fi_mtime = 0, fi_ctime = 0, fi_fname = None, fi_name = None,
       fi_filehand = 0 \<rparr>"

record apr_file_t =
  fl_pool :: nat
  fl_filehand :: nat
  fl_fname :: string
  fl_buffered :: bool

text \<open>
  \<^verbatim>\<open>more_finfo\<close> receives an untyped \<^verbatim>\<open>ufile\<close> and a selector \<^verbatim>\<open>whatfile\<close>; the two
  arrive together as one tagged value.
\<close>

datatype more_of = MORE_OF_HANDLE nat | MORE_OF_FSPEC string | MORE_OF_WFSPEC wstring

datatype trustee_type = TRUSTEE_IS_USER | TRUSTEE_IS_GROUP | TRUSTEE_IS_WELL_KNOWN_GROUP

datatype fs_call =
    Call_CreateDirectoryW wstring
  | Call_FindFirstFileExW wstring
  | Call_FindNextFileW
  | Call_FindClose
  | Call_GetFileAttributesExW wstring
  | Call_apr_file_open string "32 word"
  | Call_apr_file_close nat
  | Call_apr_file_flush nat
  | Call_GetFileSizeEx nat
  | Call_GetFileInformationByHandle nat
  | Call_GetFileType nat
  | Call_GetFullPathNameW wstring
  | Call_GetNamedSecurityInfoW wstring DWORD
  | Call_GetSecurityInfo nat DWORD
  | Call_GetEffectiveRightsFromAclW nat trustee_type nat
  | Call_AllocateAndInitializeSid
  | Call_GetFileInformationByHandleEx nat
  | Call_GetCompressedFileSizeW wstring

text \<open>
  Answers of the platform. A find handle is the list of entries it has still to deliver:
  \<^verbatim>\<open>FindFirstFileExW\<close> answers with the whole (finite) enumeration, an empty one standing
  for \<^verbatim>\<open>INVALID_HANDLE_VALUE\<close> with the given last error; \<^verbatim>\<open>FindNextFileW\<close> takes the
  next entry off the handle and fails with \<^verbatim>\<open>ERROR_NO_MORE_FILES\<close> when none is left.
\<close>

record find_result =
  ff_entries :: "WIN32_FIND_DATAW list"
  ff_lasterror :: nat

record attr_result =
  ga_ok :: bool
  ga_data :: WIN32_FIND_DATAW
  ga_lasterror :: nat

record open_result =
  op_status :: apr_status_t
  op_file :: apr_file_t

record size_result =
  gs_ok :: bool
  gs_QuadPart :: "64 word"
  gs_lasterror :: nat

record byhandle_result =
  gi_ok :: bool
  gi_info :: BY_HANDLE_FILE_INFORMATION
  gi_lasterror :: nat

record fullpath_result =
  fp_ret :: DWORD
  fp_tmpname :: wstring
  fp_tmpoff :: "nat option"

record security_result =
  se_rv :: DWORD
  se_user :: nat
  se_grp :: nat
  se_dacl :: nat

record rights_result =
  er_rv :: DWORD
  er_acc :: "32 word"

record sid_result =
  as_ok :: bool
  as_sid :: nat

record csize_result =
  cs_sizelo :: DWORD
  cs_sizehi :: DWORD
  cs_lasterror :: nat

record fs_env =
  IS_FNCHAR :: "char \<Rightarrow> bool"
  utf8_to_unicode_path :: "string \<Rightarrow> apr_status_t \<times> wstring"
  unicode_to_utf8_path :: "wstring \<Rightarrow> apr_status_t \<times> string"
  apr_filepath_merge :: "string \<Rightarrow> apr_status_t \<times> string"
  apr_os_level_nt :: bool
  APR_PATH_MAX :: nat
  CreateDirectoryW :: "fs_call list \<Rightarrow> bool_result"
  FindFirstFileExW :: "fs_call list \<Rightarrow> find_result"
  FindClose :: "fs_call list \<Rightarrow> bool_result"
  GetFileAttributesExW :: "fs_call list \<Rightarrow> attr_result"
  apr_file_open :: "fs_call list \<Rightarrow> open_result"
  apr_file_flush :: "fs_call list \<Rightarrow> apr_status_t"
  GetFileSizeEx :: "fs_call list \<Rightarrow> size_result"
  GetFileInformationByHandle :: "fs_call list \<Rightarrow> byhandle_result"
  GetFileType :: "fs_call list \<Rightarrow> DWORD"
  GetFullPathNameW :: "fs_call list \<Rightarrow> fullpath_result"
  GetSecurityInfo :: "fs_call list \<Rightarrow> security_result"
  GetEffectiveRightsFromAclW :: "fs_call list \<Rightarrow> rights_result"
  AllocateAndInitializeSid :: "fs_call list \<Rightarrow> sid_result"
  GetFileInformationByHandleEx :: "fs_call list \<Rightarrow> size_result"
  GetCompressedFileSizeW :: "fs_call list \<Rightarrow> csize_result"

text \<open>
  The state threaded through the file functions: the trace of platform calls and the
  file-scope variable \<^verbatim>\<open>worldid\<close> of filestat.c.
\<close>

record fs_state =
  calls :: "fs_call list"
  worldid :: nat

definition issue :: "fs_call \<Rightarrow> fs_state \<Rightarrow> fs_state" where
  "issue c st = st \<lparr> calls := calls st @ [c] \<rparr>"

text \<open>
  Modelled from the spec: the classification macros \<^verbatim>\<open>APR_STATUS_IS_ENOENT\<close>,
  \<^verbatim>\<open>APR_STATUS_IS_EEXIST\<close> and \<^verbatim>\<open>APR_STATUS_IS_EACCES\<close> of \<^verbatim>\<open>apr_errno.h\<close> are not
  part of the sources under study. They recognise the portable status and the native
  codes for "missing intermediate component" (file or path not found, open failed, no
  more files), "already exists" (file exists, already exists) and "insufficient
  permission" (access denied and the sharing and locking failures).
\<close>

definition APR_STATUS_IS_ENOENT :: "apr_status_t \<Rightarrow> bool" where
  "APR_STATUS_IS_ENOENT s =
     (s = APR_ENOENT \<or> s = APR_OS_ERROR 2 \<or> s = APR_OS_ERROR 3 \<or> s = APR_OS_ERROR 110
      \<or> s = APR_OS_ERROR 18)"

definition APR_STATUS_IS_EEXIST :: "apr_status_t \<Rightarrow> bool" where
  "APR_STATUS_IS_EEXIST s =
     (s = APR_EEXIST \<or> s = APR_OS_ERROR 80 \<or> s = APR_OS_ERROR 183)"

definition APR_STATUS_IS_EACCES :: "apr_status_t \<Rightarrow> bool" where
  "APR_STATUS_IS_EACCES s =
     (s = APR_EACCES \<or> s = APR_OS_ERROR 5 \<or> s = APR_OS_ERROR 82 \<or> s = APR_OS_ERROR 16
      \<or> s = APR_OS_ERROR 108 \<or> s = APR_OS_ERROR 83 \<or> s = APR_OS_ERROR 33
      \<or> s = APR_OS_ERROR 167 \<or> s = APR_OS_ERROR 158 \<or> s = APR_OS_ERROR 65
      \<or> s = APR_OS_ERROR 32)"

text \<open>
  The bit values of \<^verbatim>\<open>apr_file_info.h\<close> and \<^verbatim>\<open>apr_arch_file_io.h\<close> and of the Win32
  headers, which the sources use by name.
\<close>

definition APR_FINFO_LINK :: apr_int32_t where "APR_FINFO_LINK = 0x00000001"
definition APR_FINFO_MTIME :: apr_int32_t where "APR_FINFO_MTIME = 0x00000010"
definition APR_FINFO_CTIME :: apr_int32_t where "APR_FINFO_CTIME = 0x00000020"
definition APR_FINFO_ATIME :: apr_int32_t where "APR_FINFO_ATIME = 0x00000040"
definition APR_FINFO_SIZE :: apr_int32_t where "APR_FINFO_SIZE = 0x00000100"
definition APR_FINFO_CSIZE :: apr_int32_t where "APR_FINFO_CSIZE = 0x00000200"
definition APR_FINFO_DEV :: apr_int32_t where "APR_FINFO_DEV = 0x00001000"
definition APR_FINFO_INODE :: apr_int32_t where "APR_FINFO_INODE = 0x00002000"
definition APR_FINFO_NLINK :: apr_int32_t where "APR_FINFO_NLINK = 0x00004000"
definition APR_FINFO_TYPE :: apr_int32_t where "APR_FINFO_TYPE = 0x00008000"
definition APR_FINFO_USER :: apr_int32_t where "APR_FINFO_USER = 0x00010000"
definition APR_FINFO_GROUP :: apr_int32_t where "APR_FINFO_GROUP = 0x00020000"
definition APR_FINFO_UPROT :: apr_int32_t where "APR_FINFO_UPROT = 0x00100000"
definition APR_FINFO_GPROT :: apr_int32_t where "APR_FINFO_GPROT = 0x00200000"
definition APR_FINFO_WPROT :: apr_int32_t where "APR_FINFO_WPROT = 0x00400000"
definition APR_FINFO_NAME :: apr_int32_t where "APR_FINFO_NAME = 0x02000000"
definition APR_FINFO_MIN :: apr_int32_t where "APR_FINFO_MIN = 0x00008170"
definition APR_FINFO_IDENT :: apr_int32_t where "APR_FINFO_IDENT = 0x00003000"
definition APR_FINFO_OWNER :: apr_int32_t where "APR_FINFO_OWNER = 0x00030000"
definition APR_FINFO_PROT :: apr_int32_t where "APR_FINFO_PROT = 0x00700000"

definition APR_FPROT_WEXECUTE :: "32 word" where "APR_FPROT_WEXECUTE = 0x0001"
definition APR_FPROT_WWRITE :: "32 word" where "APR_FPROT_WWRITE = 0x0002"
definition APR_FPROT_WREAD :: "32 word" where "APR_FPROT_WREAD = 0x0004"
definition APR_FREADONLY :: "32 word" where "APR_FREADONLY = 0x10000000"

definition APR_OPENINFO :: "32 word" where "APR_OPENINFO = 0x00100000"
definition APR_OPENLINK :: "32 word" where "APR_OPENLINK = 0x00200000"
definition APR_READCONTROL :: "32 word" where "APR_READCONTROL = 0x00400000"

definition FILE_ATTRIBUTE_READONLY :: DWORD where "FILE_ATTRIBUTE_READONLY = 0x1"
definition FILE_ATTRIBUTE_DIRECTORY :: DWORD where "FILE_ATTRIBUTE_DIRECTORY = 0x10"
definition FILE_ATTRIBUTE_DEVICE :: DWORD where "FILE_ATTRIBUTE_DEVICE = 0x40"
definition FILE_ATTRIBUTE_REPARSE_POINT :: DWORD where "FILE_ATTRIBUTE_REPARSE_POINT = 0x400"
definition FILE_EXECUTE :: "32 word" where "FILE_EXECUTE = 0x20"
definition FILE_WRITE_DATA :: "32 word" where "FILE_WRITE_DATA = 0x2"
definition FILE_READ_DATA :: "32 word" where "FILE_READ_DATA = 0x1"
definition FILE_TYPE_CHAR :: DWORD where "FILE_TYPE_CHAR = 2"
definition FILE_TYPE_PIPE :: DWORD where "FILE_TYPE_PIPE = 3"
definition OWNER_SECURITY_INFORMATION :: DWORD where "OWNER_SECURITY_INFORMATION = 1"
definition GROUP_SECURITY_INFORMATION :: DWORD where "GROUP_SECURITY_INFORMATION = 2"
definition DACL_SECURITY_INFORMATION :: DWORD where "DACL_SECURITY_INFORMATION = 4"
definition INVALID_FILE_SIZE :: DWORD where "INVALID_FILE_SIZE = 0xFFFFFFFF"
definition ERROR_NO_MORE_FILES :: nat where "ERROR_NO_MORE_FILES = 18"

definition IsReparseTagNameSurrogate :: "DWORD \<Rightarrow> bool" where
  "IsReparseTagNameSurrogate tag = (tag AND 0x20000000 \<noteq> 0)"

definition apr_isalpha :: "char \<Rightarrow> bool" where
  "apr_isalpha c =
     ((of_char c :: nat) \<in> {65..90} \<or> (of_char c :: nat) \<in> {97..122})"

text \<open>
  \<^verbatim>\<open>FileTimeToAprTime\<close> of \<^verbatim>\<open>apr_arch_atime.h\<close>: the 64-bit tick count, divided by ten
  with C's truncating division, less the epoch difference in microseconds.
\<close>

definition FileTimeToAprTime :: "FILETIME \<Rightarrow> int" where
  "FileTimeToAprTime ft =
     (let v = sint (push_bit 32 (ucast (dwHighDateTime ft) :: 64 word)
                    OR (ucast (dwLowDateTime ft) :: 64 word))
      in sgn v * (\<bar>v\<bar> div 10) - 11644473600000000)"

section \<open>File metadata resolver (file_io/win32/filestat.c)\<close>

fun safe_name_scan :: "(char \<Rightarrow> bool) \<Rightarrow> string \<Rightarrow> apr_status_t \<Rightarrow> apr_status_t" where
  "safe_name_scan fnchar [] rv = rv"
| "safe_name_scan fnchar (c # name) rv =
     (if \<not> fnchar c \<and> c \<noteq> CHR 0x5C \<and> c \<noteq> CHR ''/''
      then (if c = CHR ''?'' \<or> c = CHR ''*''
            then safe_name_scan fnchar name APR_EPATHWILD
            else APR_EBADPATH)
      else safe_name_scan fnchar name rv)"

definition test_safe_name :: "fs_env \<Rightarrow> string \<Rightarrow> apr_status_t" where
  "test_safe_name env name =
     (let name1 = (case name of
                     c # d # rest \<Rightarrow> if apr_isalpha c \<and> d = CHR '':'' then rest else name
                   | _ \<Rightarrow> name)
      in safe_name_scan (IS_FNCHAR env) name1 APR_SUCCESS)"

definition prot_scope_world :: nat where "prot_scope_world = 0"
definition prot_scope_group :: nat where "prot_scope_group = 4"
definition prot_scope_user :: nat where "prot_scope_user = 8"

definition convert_prot :: "32 word \<Rightarrow> nat \<Rightarrow> 32 word" where
  "convert_prot acc scope =
     (let prot0 = (if acc AND FILE_EXECUTE \<noteq> 0 then APR_FPROT_WEXECUTE else 0);
          prot1 = (if acc AND FILE_WRITE_DATA \<noteq> 0 then prot0 OR APR_FPROT_WWRITE else prot0);
          prot2 = (if acc AND FILE_READ_DATA \<noteq> 0 then prot1 OR APR_FPROT_WREAD else prot1)
      in push_bit scope prot2)"

text \<open>
  One query of \<^verbatim>\<open>GetEffectiveRightsFromAclW\<close> as \<^verbatim>\<open>resolve_prot\<close> makes it for the
  user, the group and the world: on success the rights are converted for the scope,
  or-ed into \<^verbatim>\<open>protection\<close>, and the scope's bit is added to \<^verbatim>\<open>valid\<close>.
\<close>

definition effective_rights ::
  "fs_env \<Rightarrow> fs_state \<Rightarrow> apr_finfo_t \<Rightarrow> nat \<Rightarrow> trustee_type \<Rightarrow> nat \<Rightarrow> nat \<Rightarrow> apr_int32_t
     \<Rightarrow> apr_finfo_t \<times> fs_state" where
  "effective_rights env st finfo dacl ttype sid scope valid_bit =
     (let s = issue (Call_GetEffectiveRightsFromAclW dacl ttype sid) st;
          r = GetEffectiveRightsFromAclW env (calls s)
      in if er_rv r = 0
         then (finfo \<lparr> fi_protection := fi_protection finfo OR convert_prot (er_acc r) scope,
                       fi_valid := fi_valid finfo OR valid_bit \<rparr>, s)
         else (finfo, s))"

definition resolve_prot ::
  "fs_env \<Rightarrow> fs_state \<Rightarrow> apr_finfo_t \<Rightarrow> apr_int32_t \<Rightarrow> nat \<Rightarrow> apr_finfo_t \<times> fs_state" where
  "resolve_prot env st finfo wanted dacl =
     (let st1 = (if wanted AND APR_FINFO_WPROT \<noteq> 0 \<and> worldid st = 0
                 then let s = issue Call_AllocateAndInitializeSid st;
                          r = AllocateAndInitializeSid env (calls s)
                      in s \<lparr> worldid := (if as_ok r then as_sid r else 0) \<rparr>
                 else st);
          (finfo1, st2) =
            (if wanted AND APR_FINFO_UPROT \<noteq> 0 \<and> fi_valid finfo AND APR_FINFO_USER \<noteq> 0
             then effective_rights env st1 finfo dacl TRUSTEE_IS_USER (fi_user finfo)
                    prot_scope_user APR_FINFO_UPROT
             else (finfo, st1));
          (finfo2, st3) =
            (if wanted AND APR_FINFO_GPROT \<noteq> 0 \<and> fi_valid finfo1 AND APR_FINFO_GROUP \<noteq> 0
             then effective_rights env st2 finfo1 dacl TRUSTEE_IS_GROUP (fi_group finfo1)
                    prot_scope_group APR_FINFO_GPROT
             else (finfo1, st2))
      in if wanted AND APR_FINFO_WPROT \<noteq> 0 \<and> worldid st3 \<noteq> 0
         then effective_rights env st3 finfo2 dacl TRUSTEE_IS_WELL_KNOWN_GROUP (worldid st3)
                prot_scope_world APR_FINFO_WPROT
         else (finfo2, st3))"

definition guess_protection_bits ::
  "apr_finfo_t \<Rightarrow> apr_int32_t \<Rightarrow> apr_status_t \<times> apr_finfo_t" where
  "guess_protection_bits finfo wanted =
     (let p1 = (if fi_protection finfo AND APR_FREADONLY \<noteq> 0
                then fi_protection finfo OR (APR_FPROT_WREAD OR APR_FPROT_WEXECUTE)
                else fi_protection finfo
                       OR (APR_FPROT_WREAD OR APR_FPROT_WEXECUTE OR APR_FPROT_WWRITE));
          p2 = p1 OR (push_bit prot_scope_group p1 OR push_bit prot_scope_user p1);
          finfo1 = finfo \<lparr> fi_protection := p2,
                           fi_valid := fi_valid finfo
                             OR (APR_FINFO_UPROT OR APR_FINFO_GPROT OR APR_FINFO_WPROT) \<rparr>
      in (if wanted AND NOT (fi_valid finfo1) \<noteq> 0 then APR_INCOMPLETE else APR_SUCCESS,
          finfo1))"

definition reparse_point_is_link ::
  "fs_env \<Rightarrow> fs_state \<Rightarrow> DWORD \<Rightarrow> DWORD \<Rightarrow> bool \<Rightarrow> string \<Rightarrow> bool \<times> fs_state" where
  "reparse_point_is_link env st attrs reserved0 finddata fname =
     (if attrs AND FILE_ATTRIBUTE_REPARSE_POINT = 0 then (False, st)
      else if finddata then (IsReparseTagNameSurrogate reserved0, st)
      else if test_safe_name env fname \<noteq> APR_SUCCESS then (False, st)
      else
        let (crv, wfname) = utf8_to_unicode_path env fname
        in if crv \<noteq> APR_SUCCESS then (False, st)
           else
             let st1 = issue (Call_FindFirstFileExW wfname) st;
                 r = FindFirstFileExW env (calls st1)
             in case ff_entries r of
                  [] \<Rightarrow> (False, st1)
                | fd # rest \<Rightarrow>
                    (IsReparseTagNameSurrogate (dwReserved0 fd), issue Call_FindClose st1))"

text \<open>
  The name handed to \<^verbatim>\<open>GetNamedSecurityInfoW\<close>: a leading \<^verbatim>\<open>\\?\\<close> is skipped, and
  for \<^verbatim>\<open>\\?\UNC\\<close> the unit at index 6 is overwritten by a backslash and the name starts
  there.
\<close>

definition security_name :: "wstring \<Rightarrow> wstring" where
  "security_name wfile =
     (if take 4 wfile = [92, 92, 63, 92]
      then (if take 4 (drop 4 wfile) = [85, 78, 67, 92]
            then drop 6 (wfile [6 := 92])
            else drop 4 wfile)
      else wfile)"

text \<open>
  The pieces of the block of \<^verbatim>\<open>more_finfo\<close> that is guarded by
  \<^verbatim>\<open>wanted & (APR_FINFO_PROT | APR_FINFO_OWNER)\<close>: the security information asked for,
  the native call made for the kind of \<^verbatim>\<open>ufile\<close> (none for a \<^verbatim>\<open>whatfile\<close> that is
  neither a wide name nor a handle), and what is done with the owner, group and access
  list that came back (\<open>0\<close> for a null pointer). The registration of the descriptor's
  release with the pool is left out.
\<close>

definition security_information :: "apr_int32_t \<Rightarrow> DWORD" where
  "security_information wanted =
     (let sinf0 = (if wanted AND (APR_FINFO_USER OR APR_FINFO_UPROT) \<noteq> 0
                   then OWNER_SECURITY_INFORMATION else 0);
          sinf1 = (if wanted AND (APR_FINFO_GROUP OR APR_FINFO_GPROT) \<noteq> 0
                   then sinf0 OR GROUP_SECURITY_INFORMATION else sinf0)
      in if wanted AND APR_FINFO_PROT \<noteq> 0
         then sinf1 OR DACL_SECURITY_INFORMATION else sinf1)"

definition security_call :: "more_of \<Rightarrow> DWORD \<Rightarrow> fs_call option" where
  "security_call ufile sinf =
     (case ufile of
        MORE_OF_WFSPEC wfile \<Rightarrow> Some (Call_GetNamedSecurityInfoW (security_name wfile) sinf)
      | MORE_OF_HANDLE h \<Rightarrow> Some (Call_GetSecurityInfo h sinf)
      | MORE_OF_FSPEC f \<Rightarrow> None)"

definition security_apply ::
  "fs_env \<Rightarrow> fs_state \<Rightarrow> apr_finfo_t \<Rightarrow> apr_int32_t \<Rightarrow> nat \<Rightarrow> nat \<Rightarrow> nat
     \<Rightarrow> apr_finfo_t \<times> fs_state" where
  "security_apply env st finfo wanted user grp dacl =
     (let finfo1 = (if user \<noteq> 0
                    then finfo \<lparr> fi_user := user,
                                  fi_valid := fi_valid finfo OR APR_FINFO_USER \<rparr>
                    else finfo);
          finfo2 = (if grp \<noteq> 0
                    then finfo1 \<lparr> fi_group := grp,
                                   fi_valid := fi_valid finfo1 OR APR_FINFO_GROUP \<rparr>
                    else finfo1)
      in if dacl \<noteq> 0 then resolve_prot env st finfo2 wanted dacl
         else if wanted AND APR_FINFO_PROT \<noteq> 0
         then (snd (guess_protection_bits finfo2 wanted), st)
         else (finfo2, st))"

text \<open>
  The whole block; \<open>Inl\<close> is its early return with \<^verbatim>\<open>APR_INCOMPLETE\<close>. The out
  pointers stay null unless the field was asked for and the call succeeded.
\<close>

definition more_finfo_security ::
  "fs_env \<Rightarrow> fs_state \<Rightarrow> apr_finfo_t \<Rightarrow> more_of \<Rightarrow> apr_int32_t
     \<Rightarrow> apr_status_t + apr_finfo_t \<times> fs_state" where
  "more_finfo_security env st finfo ufile wanted =
     (if wanted AND (APR_FINFO_PROT OR APR_FINFO_OWNER) \<noteq> 0
      then
        (case security_call ufile (security_information wanted) of
           None \<Rightarrow> Inl APR_INCOMPLETE
         | Some c \<Rightarrow>
             let st1 = issue c st;
                 r = GetSecurityInfo env (calls st1);
                 ok = (se_rv r = 0);
                 user = (if ok \<and> wanted AND (APR_FINFO_USER OR APR_FINFO_UPROT) \<noteq> 0
                         then se_user r else 0);
                 grp = (if ok \<and> wanted AND (APR_FINFO_GROUP OR APR_FINFO_GPROT) \<noteq> 0
                        then se_grp r else 0);
                 dacl = (if ok \<and> wanted AND APR_FINFO_PROT \<noteq> 0 then se_dacl r else 0)
             in Inr (security_apply env st1 finfo wanted user grp dacl))
      else Inr (finfo, st))"

text \<open>
  The block of \<^verbatim>\<open>more_finfo\<close> guarded by
  \<^verbatim>\<open>(wanted & APR_FINFO_CSIZE) && (finfo->filetype == APR_REG)\<close>; \<open>Inl\<close> is the early
  return with \<^verbatim>\<open>APR_EGENERAL\<close>.
\<close>

definition more_finfo_csize ::
  "fs_env \<Rightarrow> fs_state \<Rightarrow> apr_finfo_t \<Rightarrow> more_of \<Rightarrow> apr_int32_t
     \<Rightarrow> apr_status_t + apr_finfo_t \<times> fs_state" where
  "more_finfo_csize env st finfo ufile wanted =
     (if wanted AND APR_FINFO_CSIZE \<noteq> 0 \<and> fi_filetype finfo = APR_REG
      then
        (case ufile of
           MORE_OF_HANDLE h \<Rightarrow>
             let st1 = issue (Call_GetFileInformationByHandleEx h) st;
                 r = GetFileInformationByHandleEx env (calls st1)
             in if gs_ok r
                then Inr (finfo \<lparr> fi_csize := gs_QuadPart r,
                                  fi_valid := fi_valid finfo OR APR_FINFO_CSIZE \<rparr>, st1)
                else Inr (finfo, st1)
         | MORE_OF_WFSPEC wfile \<Rightarrow>
             let st1 = issue (Call_GetCompressedFileSizeW wfile) st;
                 r = GetCompressedFileSizeW env (calls st1)
             in if cs_sizelo r \<noteq> INVALID_FILE_SIZE \<or> cs_lasterror r = 0
                then Inr (finfo \<lparr> fi_csize := ucast (cs_sizelo r)
                                              OR push_bit 32 (ucast (cs_sizehi r)),
                                  fi_valid := fi_valid finfo OR APR_FINFO_CSIZE \<rparr>, st1)
                else Inr (finfo, st1)
         | MORE_OF_FSPEC f \<Rightarrow> Inl APR_EGENERAL)
      else Inr (finfo, st))"

definition more_finfo ::
  "fs_env \<Rightarrow> fs_state \<Rightarrow> apr_finfo_t \<Rightarrow> more_of \<Rightarrow> apr_int32_t
     \<Rightarrow> apr_status_t \<times> apr_finfo_t \<times> fs_state" where
  "more_finfo env st finfo ufile wanted =
     (if \<not> apr_os_level_nt env
      then (fst (guess_protection_bits finfo wanted),
            snd (guess_protection_bits finfo wanted), st)
      else
        case more_finfo_security env st finfo ufile wanted of
          Inl e \<Rightarrow> (e, finfo, st)
        | Inr (finfo1, st1) \<Rightarrow>
            (case more_finfo_csize env st1 finfo1 ufile wanted of
               Inl e \<Rightarrow> (e, finfo1, st1)
             | Inr (finfo2, st2) \<Rightarrow>
                 (if wanted AND NOT (fi_valid finfo2) \<noteq> 0 then APR_INCOMPLETE
                  else APR_SUCCESS, finfo2, st2)))"

text \<open>
  \<^verbatim>\<open>fillin_fileinfo\<close> returns the warning flag, the structure it filled (it clears the
  caller's structure first, so the previous contents do not matter) and the state.
  The pointer adjustment by \<^verbatim>\<open>byhandle\<close> selects the size words of the structure passed.
\<close>

definition fillin_fileinfo ::
  "fs_env \<Rightarrow> fs_state \<Rightarrow> WIN32_FIND_DATAW \<Rightarrow> bool \<Rightarrow> bool \<Rightarrow> string \<Rightarrow> apr_int32_t
     \<Rightarrow> bool \<times> apr_finfo_t \<times> fs_state" where
  "fillin_fileinfo env st wininfo byhandle finddata fname wanted =
     (let fsize = (ucast (nFileSizeLow wininfo) :: 64 word)
                    OR push_bit 32 (ucast (nFileSizeHigh wininfo));
          finfo0 = finfo_zero \<lparr> fi_atime := FileTimeToAprTime (ftLastAccessTime wininfo),
                                fi_ctime := FileTimeToAprTime (ftCreationTime wininfo),
                                fi_mtime := FileTimeToAprTime (ftLastWriteTime wininfo),
                                fi_size := fsize \<rparr>;
          (islink, st1) = (if wanted AND APR_FINFO_LINK \<noteq> 0
                           then reparse_point_is_link env st (dwFileAttributes wininfo)
                                  (dwReserved0 wininfo) finddata fname
                           else (False, st));
          ftype = (if islink then APR_LNK
                   else if dwFileAttributes wininfo AND FILE_ATTRIBUTE_DIRECTORY \<noteq> 0 then APR_DIR
                   else if dwFileAttributes wininfo AND FILE_ATTRIBUTE_DEVICE \<noteq> 0 then APR_CHR
                   else APR_REG);
          warn = (\<not> islink
                  \<and> dwFileAttributes wininfo AND FILE_ATTRIBUTE_DIRECTORY = 0
                  \<and> dwFileAttributes wininfo AND FILE_ATTRIBUTE_DEVICE = 0
                  \<and> dwLowDateTime (ftLastWriteTime wininfo) = 0
                  \<and> dwHighDateTime (ftLastWriteTime wininfo) = 0
                  \<and> fsize = 0);
          finfo1 = finfo0 \<lparr> fi_filetype := ftype \<rparr>;
          finfo2 = (if dwFileAttributes wininfo AND FILE_ATTRIBUTE_READONLY \<noteq> 0
                    then finfo1 \<lparr> fi_protection := APR_FREADONLY \<rparr> else finfo1);
          finfo3 = finfo2 \<lparr> fi_valid := APR_FINFO_ATIME OR APR_FINFO_CTIME OR APR_FINFO_MTIME
                                          OR APR_FINFO_SIZE OR APR_FINFO_TYPE \<rparr>;
          finfo4 = (if \<not> byhandle \<or> wanted AND APR_FINFO_LINK \<noteq> 0
                    then finfo3 \<lparr> fi_valid := fi_valid finfo3 OR APR_FINFO_LINK \<rparr>
                    else finfo3)
      in (warn, finfo4, st1))"

text \<open>
  The three stretches of \<^verbatim>\<open>apr_file_info_get\<close> that build the structure from the
  answer of \<^verbatim>\<open>GetFileInformationByHandle\<close>: clearing it and filling in times, size,
  type, the private read-only flag and the minimal valid bits (given whether the reparse
  point was found to be a link); refining a regular file by the answer of
  \<^verbatim>\<open>GetFileType\<close>; and adding pool, name, inode, device and link count.
\<close>

definition handle_fill :: "BY_HANDLE_FILE_INFORMATION \<Rightarrow> bool \<Rightarrow> apr_int32_t \<Rightarrow> apr_finfo_t" where
  "handle_fill FileInfo islink wanted =
     (let finfo0 = finfo_zero
            \<lparr> fi_atime := FileTimeToAprTime (bh_ftLastAccessTime FileInfo),
              fi_ctime := FileTimeToAprTime (bh_ftCreationTime FileInfo),
              fi_mtime := FileTimeToAprTime (bh_ftLastWriteTime FileInfo),
              fi_size := (ucast (bh_nFileSizeLow FileInfo) :: 64 word)
                           OR push_bit 32 (ucast (bh_nFileSizeHigh FileInfo)) \<rparr>;
          ftype = (if islink then APR_LNK
                   else if bh_dwFileAttributes FileInfo AND FILE_ATTRIBUTE_DIRECTORY \<noteq> 0
                   then APR_DIR
                   else if bh_dwFileAttributes FileInfo AND FILE_ATTRIBUTE_DEVICE \<noteq> 0
                   then APR_CHR
                   else APR_REG);
          finfo1 = finfo0 \<lparr> fi_filetype := ftype \<rparr>;
          finfo2 = (if bh_dwFileAttributes FileInfo AND FILE_ATTRIBUTE_READONLY \<noteq> 0
                    then finfo1 \<lparr> fi_protection := APR_FREADONLY \<rparr> else finfo1);
          finfo3 = finfo2 \<lparr> fi_valid := APR_FINFO_ATIME OR APR_FINFO_CTIME
                       OR APR_FINFO_MTIME OR APR_FINFO_SIZE OR APR_FINFO_TYPE \<rparr>
      in if wanted AND APR_FINFO_LINK \<noteq> 0
         then finfo3 \<lparr> fi_valid := fi_valid finfo3 OR APR_FINFO_LINK \<rparr>
         else finfo3)"

definition handle_refine_type :: "apr_finfo_t \<Rightarrow> DWORD \<Rightarrow> apr_finfo_t" where
  "handle_refine_type finfo FileType =
     (if FileType \<noteq> 0
      then (if FileType = FILE_TYPE_CHAR then finfo \<lparr> fi_filetype := APR_CHR \<rparr>
            else if FileType = FILE_TYPE_PIPE then finfo \<lparr> fi_filetype := APR_PIPE \<rparr>
            else finfo)
      else finfo)"

definition handle_ident ::
  "apr_finfo_t \<Rightarrow> apr_file_t \<Rightarrow> BY_HANDLE_FILE_INFORMATION \<Rightarrow> apr_finfo_t" where
  "handle_ident finfo thefile FileInfo =
     finfo \<lparr> fi_pool := fl_pool thefile,
             fi_fname := Some (fl_fname thefile),
             fi_inode := (ucast (bh_nFileIndexLow FileInfo) :: 64 word)
                           OR push_bit 32 (ucast (bh_nFileIndexHigh FileInfo)),
             fi_device := bh_dwVolumeSerialNumber FileInfo,
             fi_nlink := bh_nNumberOfLinks FileInfo,
             fi_valid := fi_valid finfo OR (APR_FINFO_IDENT OR APR_FINFO_NLINK) \<rparr>"

text \<open>
  \<^verbatim>\<open>apr_file_info_get\<close>. On the size-only path the caller's structure is not cleared:
  only \<^verbatim>\<open>pool\<close>, \<^verbatim>\<open>fname\<close>, \<^verbatim>\<open>size\<close> and \<^verbatim>\<open>valid\<close> are assigned.
\<close>

definition apr_file_info_get ::
  "fs_env \<Rightarrow> fs_state \<Rightarrow> apr_finfo_t \<Rightarrow> apr_int32_t \<Rightarrow> apr_file_t
     \<Rightarrow> apr_status_t \<times> apr_finfo_t \<times> fs_state" where
  "apr_file_info_get env st finfo wanted thefile =
     (let st0 = (if fl_buffered thefile
                 then issue (Call_apr_file_flush (fl_filehand thefile)) st else st);
          frv = (if fl_buffered thefile then apr_file_flush env (calls st0) else APR_SUCCESS)
      in if frv \<noteq> APR_SUCCESS then (frv, finfo, st0)
         else if wanted = APR_FINFO_SIZE
         then
           let st1 = issue (Call_GetFileSizeEx (fl_filehand thefile)) st0;
               r = GetFileSizeEx env (calls st1)
           in if \<not> gs_ok r then (apr_get_os_error (gs_lasterror r), finfo, st1)
              else (APR_SUCCESS,
                    finfo \<lparr> fi_pool := fl_pool thefile, fi_fname := Some (fl_fname thefile),
                            fi_size := gs_QuadPart r, fi_valid := APR_FINFO_SIZE \<rparr>, st1)
         else
           let st1 = issue (Call_GetFileInformationByHandle (fl_filehand thefile)) st0;
               r = GetFileInformationByHandle env (calls st1)
           in if \<not> gi_ok r then (apr_get_os_error (gi_lasterror r), finfo, st1)
              else
                let FileInfo = gi_info r;
                    lk = (if wanted AND APR_FINFO_LINK \<noteq> 0
                          then reparse_point_is_link env st1 (bh_dwFileAttributes FileInfo)
                                 0 False (fl_fname thefile)
                          else (False, st1));
                    finfo4 = handle_fill FileInfo (fst lk) wanted;
                    st3 = (if fi_filetype finfo4 = APR_REG
                           then issue (Call_GetFileType (fl_filehand thefile)) (snd lk)
                           else snd lk);
                    finfo5 = (if fi_filetype finfo4 = APR_REG
                              then handle_refine_type finfo4 (GetFileType env (calls st3))
                              else finfo4);
                    finfo6 = handle_ident finfo5 thefile FileInfo;
                    wanted1 = wanted AND NOT (fi_valid finfo6)
                in if wanted1 AND NOT APR_FINFO_NAME \<noteq> 0
                   then more_finfo env st3 finfo6 (MORE_OF_HANDLE (fl_filehand thefile)) wanted1
                   else (APR_SUCCESS, finfo6, st3))"

text \<open>
  \<^verbatim>\<open>resolve_ident\<close>. The three statements it runs on a file it managed to open
  (query by handle, clear \<^verbatim>\<open>finfo->filehand\<close>, close) come first; then the choice of
  the open, with the retry without \<^verbatim>\<open>APR_READCONTROL\<close> after an access failure; then
  the function itself, which adds the link bit to a successful or incomplete answer.
\<close>

definition info_and_close ::
  "fs_env \<Rightarrow> fs_state \<Rightarrow> apr_finfo_t \<Rightarrow> apr_int32_t \<Rightarrow> apr_file_t
     \<Rightarrow> apr_status_t \<times> apr_finfo_t \<times> fs_state" where
  "info_and_close env st finfo wanted thefile =
     (let g = apr_file_info_get env st finfo wanted thefile
      in (fst g, (fst (snd g)) \<lparr> fi_filehand := 0 \<rparr>,
          issue (Call_apr_file_close (fl_filehand thefile)) (snd (snd g))))"

definition resolve_ident_query ::
  "fs_env \<Rightarrow> fs_state \<Rightarrow> apr_finfo_t \<Rightarrow> string \<Rightarrow> apr_int32_t
     \<Rightarrow> apr_status_t \<times> apr_finfo_t \<times> fs_state" where
  "resolve_ident_query env st finfo fname wanted =
     (let linkflag = (if wanted AND APR_FINFO_LINK \<noteq> 0 then APR_OPENLINK else 0);
          ctlflag = (if wanted AND (APR_FINFO_PROT OR APR_FINFO_OWNER) \<noteq> 0
                     then APR_READCONTROL else 0);
          st1 = issue (Call_apr_file_open fname (APR_OPENINFO OR linkflag OR ctlflag)) st;
          o1 = apr_file_open env (calls st1)
      in if op_status o1 = APR_SUCCESS
         then info_and_close env st1 finfo wanted (op_file o1)
         else if APR_STATUS_IS_EACCES (op_status o1)
                 \<and> wanted AND (APR_FINFO_PROT OR APR_FINFO_OWNER) \<noteq> 0
         then let st1b = issue (Call_apr_file_open fname (APR_OPENINFO OR linkflag)) st1;
                  o2 = apr_file_open env (calls st1b)
              in if op_status o2 = APR_SUCCESS
                 then info_and_close env st1b finfo
                        (wanted AND NOT (APR_FINFO_PROT OR APR_FINFO_OWNER)) (op_file o2)
                 else (op_status o2, finfo, st1b)
         else (op_status o1, finfo, st1))"

definition resolve_ident ::
  "fs_env \<Rightarrow> fs_state \<Rightarrow> apr_finfo_t \<Rightarrow> string \<Rightarrow> apr_int32_t
     \<Rightarrow> apr_status_t \<times> apr_finfo_t \<times> fs_state" where
  "resolve_ident env st finfo fname wanted =
     (let q = resolve_ident_query env st finfo fname wanted
      in if fst q \<noteq> APR_SUCCESS \<and> fst q \<noteq> APR_INCOMPLETE then q
         else if wanted AND APR_FINFO_LINK \<noteq> 0
         then (fst q, (fst (snd q)) \<lparr> fi_valid := fi_valid (fst (snd q)) OR APR_FINFO_LINK \<rparr>,
               snd (snd q))
         else q)"

text \<open>
  The device probe of \<^verbatim>\<open>apr_stat\<close>, run when \<^verbatim>\<open>fillin_fileinfo\<close> raised its warning:
  the full path is asked for, and a path \<^verbatim>\<open>\\.\name\<close> without further separator makes
  the file a character device; if the full path cannot be had, the type bit is withdrawn.
\<close>

definition stat_device_probe ::
  "fs_env \<Rightarrow> fs_state \<Rightarrow> apr_finfo_t \<Rightarrow> wstring \<Rightarrow> apr_finfo_t \<times> fs_state" where
  "stat_device_probe env st finfo wfname =
     (let st1 = issue (Call_GetFullPathNameW wfname) st;
          r = GetFullPathNameW env (calls st1)
      in if fp_ret r \<noteq> 0
         then (if take 4 (fp_tmpname r) = [92, 92, 46, 92]
               then (case fp_tmpoff r of
                       Some off \<Rightarrow>
                         if off = 4 then (finfo \<lparr> fi_filetype := APR_CHR \<rparr>, st1)
                         else (finfo, st1)
                     | None \<Rightarrow>
                         if list_all (\<lambda>c. c \<noteq> 92 \<and> c \<noteq> 47) (drop 4 (fp_tmpname r))
                         then (finfo \<lparr> fi_filetype := APR_CHR \<rparr>, st1)
                         else (finfo, st1))
               else (finfo, st1))
         else (finfo \<lparr> fi_valid := fi_valid finfo AND NOT APR_FINFO_TYPE \<rparr>, st1))"

text \<open>
  The middle of \<^verbatim>\<open>apr_stat\<close>: the attribute query by name, or, when the name is wanted,
  the guarded find. \<open>Inl\<close> is an early return; otherwise the data found, the
  \<^verbatim>\<open>finddata\<close> flag and the true file name (if any) are handed on.
\<close>

definition stat_by_name ::
  "fs_env \<Rightarrow> fs_state \<Rightarrow> string \<Rightarrow> wstring \<Rightarrow> apr_int32_t
     \<Rightarrow> apr_status_t \<times> fs_state + WIN32_FIND_DATAW \<times> bool \<times> string option \<times> fs_state" where
  "stat_by_name env st fname wfname wanted =
     (if wanted AND APR_FINFO_NAME = 0
      then let st1 = issue (Call_GetFileAttributesExW wfname) st;
               r = GetFileAttributesExW env (calls st1)
           in if \<not> ga_ok r then Inl (apr_get_os_error (ga_lasterror r), st1)
              else Inr (ga_data r, False, None, st1)
      else if test_safe_name env fname \<noteq> APR_SUCCESS then Inl (test_safe_name env fname, st)
      else
        let st1 = issue (Call_FindFirstFileExW wfname) st;
            r = FindFirstFileExW env (calls st1)
        in case ff_entries r of
             [] \<Rightarrow> Inl (apr_get_os_error (ff_lasterror r), st1)
           | fd # rest \<Rightarrow>
               let st2 = issue Call_FindClose st1;
                   (crv, tmpname) = unicode_to_utf8_path env (cFileName fd)
               in if crv \<noteq> APR_SUCCESS then Inl (APR_ENAMETOOLONG, st2)
                  else Inr (fd, True, Some tmpname, st2))"

text \<open>
  The body of \<^verbatim>\<open>if (ident_rv != APR_INCOMPLETE)\<close> in \<^verbatim>\<open>apr_stat\<close>: fill the
  structure from the data found, probe for a device if warned, set the pool.
\<close>

definition stat_fill ::
  "fs_env \<Rightarrow> fs_state \<Rightarrow> WIN32_FIND_DATAW \<Rightarrow> bool \<Rightarrow> string \<Rightarrow> wstring \<Rightarrow> apr_int32_t \<Rightarrow> nat
     \<Rightarrow> apr_finfo_t \<times> fs_state" where
  "stat_fill env st FileInfo finddata fname wfname wanted pool =
     (let fl = fillin_fileinfo env st FileInfo False finddata fname wanted;
          pr = (if fst fl then stat_device_probe env (snd (snd fl)) (fst (snd fl)) wfname
                else (fst (snd fl), snd (snd fl)))
      in ((fst pr) \<lparr> fi_pool := pool \<rparr>, snd pr))"

text \<open>
  The end of \<^verbatim>\<open>apr_stat\<close>: store the true name if one was retrieved, and ask
  \<^verbatim>\<open>more_finfo\<close> for whatever is still wanted.
\<close>

definition stat_finish ::
  "fs_env \<Rightarrow> fs_state \<Rightarrow> apr_finfo_t \<Rightarrow> string option \<Rightarrow> wstring \<Rightarrow> apr_int32_t
     \<Rightarrow> apr_status_t \<times> apr_finfo_t \<times> fs_state" where
  "stat_finish env st finfo filename wfname wanted =
     (let finfo3 = (case filename of
                      Some n \<Rightarrow> finfo \<lparr> fi_name := Some n,
                                         fi_valid := fi_valid finfo OR APR_FINFO_NAME \<rparr>
                    | None \<Rightarrow> finfo);
          wanted2 = wanted AND NOT (fi_valid finfo3)
      in if wanted2 \<noteq> 0
         then more_finfo env st finfo3 (MORE_OF_WFSPEC wfname) wanted2
         else (APR_SUCCESS, finfo3, st))"

text \<open>
  \<^verbatim>\<open>apr_stat\<close>. \<open>by_ident\<close> is the condition under which the by-handle
  query is attempted; \<^verbatim>\<open>ident_rv\<close> keeps its initial value \<^verbatim>\<open>0\<close>, that is
  \<^verbatim>\<open>APR_SUCCESS\<close>, when it is not.
\<close>

definition by_ident :: "apr_int32_t \<Rightarrow> bool" where
  "by_ident wanted =
     (wanted AND (APR_FINFO_IDENT OR APR_FINFO_NLINK) \<noteq> 0
      \<or> NOT wanted AND APR_FINFO_LINK \<noteq> 0)"

definition apr_stat ::
  "fs_env \<Rightarrow> fs_state \<Rightarrow> apr_finfo_t \<Rightarrow> string \<Rightarrow> apr_int32_t \<Rightarrow> nat
     \<Rightarrow> apr_status_t \<times> apr_finfo_t \<times> fs_state" where
  "apr_stat env st finfo fname wanted pool =
     (if length fname \<ge> APR_PATH_MAX env then (APR_ENAMETOOLONG, finfo, st)
      else
        let ri = (if by_ident wanted then resolve_ident env st finfo fname wanted
                  else (APR_SUCCESS, finfo, st));
            ident_rv = fst ri; finfo1 = fst (snd ri); st1 = snd (snd ri)
        in if by_ident wanted \<and> ident_rv = APR_SUCCESS then ri
           else
             let wanted1 = (if by_ident wanted \<and> ident_rv = APR_INCOMPLETE
                            then wanted AND NOT (fi_valid finfo1) else wanted);
                 cv = utf8_to_unicode_path env fname
             in if fst cv \<noteq> APR_SUCCESS then (fst cv, finfo1, st1)
                else
                  case stat_by_name env st1 fname (snd cv) wanted1 of
                    Inl (e, st2) \<Rightarrow> (e, finfo1, st2)
                  | Inr (FileInfo, finddata, filename, st2) \<Rightarrow>
                      let p = (if ident_rv \<noteq> APR_INCOMPLETE
                               then stat_fill env st2 FileInfo finddata fname (snd cv)
                                      wanted1 pool
                               else (finfo1, st2))
                      in stat_finish env (snd p) (fst p) filename (snd cv) wanted1)"

section \<open>Directories (file_io/win32/dir.c)\<close>

text \<open>
  \<^verbatim>\<open>apr_dir_t\<close>. \<open>dirhand = None\<close> is \<^verbatim>\<open>INVALID_HANDLE_VALUE\<close>; an open handle is the
  list of entries the search will still deliver.
\<close>

record apr_dir_t =
  d_pool :: nat
  dirhand :: "WIN32_FIND_DATAW list option"
  rootlen :: nat
  dirname :: string
  d_name :: string
  entry :: WIN32_FIND_DATAW
  bof :: bool

definition filetime_zero :: FILETIME where
  "filetime_zero = \<lparr> dwLowDateTime = 0, dwHighDateTime = 0 \<rparr>"

definition entry_zero :: WIN32_FIND_DATAW where
  "entry_zero =
     \<lparr> dwFileAttributes = 0, ftCreationTime = filetime_zero,
       ftLastAccessTime = filetime_zero, ftLastWriteTime = filetime_zero,
       nFileSizeHigh = 0, nFileSizeLow = 0, dwReserved0 = 0, cFileName = [] \<rparr>"

definition dir_cleanup ::
  "fs_env \<Rightarrow> fs_state \<Rightarrow> apr_dir_t \<Rightarrow> apr_status_t \<times> apr_dir_t \<times> fs_state" where
  "dir_cleanup env st dir =
     (if dirhand dir \<noteq> None
      then let st1 = issue Call_FindClose st;
               r = FindClose env (calls st1)
           in if \<not> br_ok r then (apr_get_os_error (br_lasterror r), dir, st1)
              else (APR_SUCCESS, dir \<lparr> dirhand := None \<rparr>, st1)
      else (APR_SUCCESS, dir \<lparr> dirhand := None \<rparr>, st))"

text \<open>
  The loop of \<^verbatim>\<open>apr_dir_read\<close> that passes over names whose length added to the root
  length reaches \<^verbatim>\<open>APR_PATH_MAX\<close>. It returns the entry it stopped at (\<open>None\<close> when
  \<^verbatim>\<open>FindNextFileW\<close> failed, which here means the enumeration is exhausted), the entry
  last stored in \<^verbatim>\<open>thedir->entry\<close>, the remaining handle and the state.
\<close>

fun dir_skip_loop ::
  "nat \<Rightarrow> nat \<Rightarrow> WIN32_FIND_DATAW \<Rightarrow> WIN32_FIND_DATAW list \<Rightarrow> fs_state
     \<Rightarrow> bool \<times> WIN32_FIND_DATAW \<times> WIN32_FIND_DATAW list \<times> fs_state" where
  "dir_skip_loop pmax rlen ent [] st =
     (if rlen \<noteq> 0 \<and> rlen + length (cFileName ent) \<ge> pmax
      then (False, ent, [], issue Call_FindNextFileW st)
      else (True, ent, [], st))"
| "dir_skip_loop pmax rlen ent (nxt # rest) st =
     (if rlen \<noteq> 0 \<and> rlen + length (cFileName ent) \<ge> pmax
      then dir_skip_loop pmax rlen nxt rest (issue Call_FindNextFileW st)
      else (True, ent, nxt # rest, st))"

text \<open>
  The pieces of \<^verbatim>\<open>apr_dir_read\<close>. First the step that makes an entry current: the
  prefetched one when \<^verbatim>\<open>bof\<close> is set, else the next one from \<^verbatim>\<open>FindNextFileW\<close>.
  It returns whether there is an entry, the entry in \<^verbatim>\<open>thedir->entry\<close>, the handle
  and the state.
\<close>

definition dir_advance ::
  "apr_dir_t \<Rightarrow> WIN32_FIND_DATAW list \<Rightarrow> fs_state
     \<Rightarrow> bool \<times> WIN32_FIND_DATAW \<times> WIN32_FIND_DATAW list \<times> fs_state" where
  "dir_advance thedir h st =
     (if bof thedir then (True, entry thedir, h, st)
      else (case h of
              [] \<Rightarrow> (False, entry thedir, h, issue Call_FindNextFileW st)
            | e # rest \<Rightarrow> (True, e, rest, issue Call_FindNextFileW st)))"

text \<open>
  Then the part that reports the current entry: the name is decoded, the structure is
  filled from the find data, and \<^verbatim>\<open>more_finfo\<close> is asked for what is still wanted.
  The caller's \<^verbatim>\<open>finfo\<close> pointer is \<open>None\<close> for \<^verbatim>\<open>NULL\<close>, and the result is
  \<open>None\<close> where the C code would write through a null \<^verbatim>\<open>finfo\<close>.
\<close>

definition dir_report ::
  "fs_env \<Rightarrow> fs_state \<Rightarrow> apr_finfo_t option \<Rightarrow> apr_int32_t \<Rightarrow> apr_dir_t
     \<Rightarrow> (apr_status_t \<times> apr_finfo_t option \<times> apr_dir_t \<times> fs_state) option" where
  "dir_report env st finfo wanted thedir =
     (let cn = unicode_to_utf8_path env (cFileName (entry thedir))
      in if fst cn \<noteq> APR_SUCCESS then Some (fst cn, finfo, thedir, st)
         else
           (case finfo of
              None \<Rightarrow> None
            | Some old \<Rightarrow>
                let fl = fillin_fileinfo env st (entry thedir) False True (snd cn) wanted;
                    f2 = (fst (snd fl)) \<lparr> fi_pool := d_pool thedir,
                              fi_valid := fi_valid (fst (snd fl)) OR APR_FINFO_NAME,
                              fi_name := Some (snd cn) \<rparr>;
                    thedir2 = thedir \<lparr> d_name := snd cn \<rparr>;
                    wanted1 = wanted AND NOT (fi_valid f2)
                in if wanted1 \<noteq> 0
                   then
                     let cd = utf8_to_unicode_path env (dirname thedir)
                     in if fst cd \<noteq> APR_SUCCESS
                        then Some (fst cd, Some f2, thedir2, snd (snd fl))
                        else
                          let m = more_finfo env (snd (snd fl)) f2
                                    (MORE_OF_WFSPEC (snd cd @ cFileName (entry thedir)))
                                    wanted1
                          in Some (fst m, Some (fst (snd m)), thedir2, snd (snd m))
                   else Some (APR_SUCCESS, Some f2, thedir2, snd (snd fl))))"

text \<open>
  \<^verbatim>\<open>apr_dir_read\<close>: with an invalid handle the search is opened and nothing is
  reported; otherwise an entry is made current, over-long names are passed over, and
  the entry reached is reported.
\<close>

definition apr_dir_read ::
  "fs_env \<Rightarrow> fs_state \<Rightarrow> apr_finfo_t option \<Rightarrow> apr_int32_t \<Rightarrow> apr_dir_t
     \<Rightarrow> (apr_status_t \<times> apr_finfo_t option \<times> apr_dir_t \<times> fs_state) option" where
  "apr_dir_read env st finfo wanted thedir =
     (case dirhand thedir of
        None \<Rightarrow>
          let cd = utf8_to_unicode_path env (dirname thedir)
          in if fst cd \<noteq> APR_SUCCESS then Some (fst cd, finfo, thedir, st)
             else
               let st1 = issue (Call_FindFirstFileExW (snd cd @ [42])) st;
                   r = FindFirstFileExW env (calls st1)
               in (case ff_entries r of
                     [] \<Rightarrow> Some (apr_get_os_error (ff_lasterror r), finfo, thedir, st1)
                   | e # rest \<Rightarrow>
                       Some (APR_SUCCESS, finfo,
                             thedir \<lparr> dirhand := Some rest, entry := e, bof := True \<rparr>, st1))
      | Some h \<Rightarrow>
          let a = dir_advance thedir h st;
              thedir0 = thedir \<lparr> dirhand := Some (fst (snd (snd a))), entry := fst (snd a),
                                 bof := False \<rparr>
          in if \<not> fst a
             then Some (apr_get_os_error ERROR_NO_MORE_FILES, finfo, thedir0, snd (snd (snd a)))
             else
               let k = dir_skip_loop (APR_PATH_MAX env) (rootlen thedir) (fst (snd a))
                         (fst (snd (snd a))) (snd (snd (snd a)));
                   thedir1 = thedir0 \<lparr> dirhand := Some (fst (snd (snd k))),
                                       entry := fst (snd k) \<rparr>
               in if \<not> fst k
                  then Some (apr_get_os_error ERROR_NO_MORE_FILES, finfo, thedir1,
                             snd (snd (snd k)))
                  else dir_report env (snd (snd (snd k))) finfo wanted thedir1)"

text \<open>
  \<^verbatim>\<open>apr_dir_open\<close> returns the status and the value stored in \<^verbatim>\<open>*new\<close>
  (\<open>None\<close> for \<^verbatim>\<open>NULL\<close>). The registration with the pool is left out.
\<close>

definition apr_dir_open ::
  "fs_env \<Rightarrow> fs_state \<Rightarrow> string \<Rightarrow> nat
     \<Rightarrow> (apr_status_t \<times> apr_dir_t option \<times> fs_state) option" where
  "apr_dir_open env st dname pool =
     (let dname1 = (if dname \<noteq> [] \<and> last dname \<noteq> CHR ''/'' then dname @ ''/'' else dname);
          new = \<lparr> d_pool = pool, dirhand = None, rootlen = length dname1, dirname = dname1,
                  d_name = [], entry = entry_zero, bof = False \<rparr>
      in case apr_dir_read env st None 0 new of
           None \<Rightarrow> None
         | Some (rv, f, d, st1) \<Rightarrow>
             if rv \<noteq> APR_SUCCESS
             then Some (rv, None, snd (snd (dir_cleanup env st1 d)))
             else Some (rv, Some d, st1))"

definition apr_dir_close ::
  "fs_env \<Rightarrow> fs_state \<Rightarrow> apr_dir_t \<Rightarrow> apr_status_t \<times> apr_dir_t \<times> fs_state" where
  "apr_dir_close env st dir = dir_cleanup env st dir"

definition apr_dir_rewind ::
  "fs_env \<Rightarrow> fs_state \<Rightarrow> apr_dir_t \<Rightarrow> (apr_status_t \<times> apr_dir_t \<times> fs_state) option" where
  "apr_dir_rewind env st dir =
     (let (rv, d1, st1) = dir_cleanup env st dir
      in if rv = APR_SUCCESS
         then (case apr_dir_read env st1 None 0 d1 of
                 None \<Rightarrow> None
               | Some (rv2, f, d2, st2) \<Rightarrow> Some (rv2, d2, st2))
         else Some (rv, d1, st1))"

text \<open>
  Reading a directory to its end, as a caller does: up to \<open>n\<close> calls of
  \<^verbatim>\<open>apr_dir_read\<close> with a finfo, stopping at the first call that returns neither
  success nor \<^verbatim>\<open>APR_INCOMPLETE\<close>; the structures reported are collected in order.
\<close>

fun dir_read_all ::
  "fs_env \<Rightarrow> nat \<Rightarrow> fs_state \<Rightarrow> apr_int32_t \<Rightarrow> apr_dir_t \<Rightarrow> apr_finfo_t list option" where
  "dir_read_all env 0 st wanted thedir = Some []"
| "dir_read_all env (Suc n) st wanted thedir =
     (case apr_dir_read env st (Some finfo_zero) wanted thedir of
        None \<Rightarrow> None
      | Some (rv, f, d, st1) \<Rightarrow>
          if rv = APR_SUCCESS \<or> rv = APR_INCOMPLETE
          then (case dir_read_all env n st1 wanted d of
                  None \<Rightarrow> None
                | Some found \<Rightarrow> Some (case f of Some fi \<Rightarrow> fi # found | None \<Rightarrow> found))
          else Some [])"

definition dir_enumerate ::
  "fs_env \<Rightarrow> fs_state \<Rightarrow> string \<Rightarrow> nat \<Rightarrow> apr_int32_t \<Rightarrow> nat \<Rightarrow> apr_finfo_t list option" where
  "dir_enumerate env st dname pool wanted n =
     (case apr_dir_open env st dname pool of
        None \<Rightarrow> None
      | Some (rv, None, st1) \<Rightarrow> Some []
      | Some (rv, Some d, st1) \<Rightarrow> dir_read_all env n st1 wanted d)"

fun strrchr :: "string \<Rightarrow> char \<Rightarrow> nat option" where
  "strrchr [] c = None"
| "strrchr (x # xs) c =
     (case strrchr xs c of
        Some i \<Rightarrow> Some (Suc i)
      | None \<Rightarrow> if x = c then Some 0 else None)"

lemma strrchr_less: "strrchr s c = Some i \<Longrightarrow> i < length s"
  by (induction s arbitrary: i) (auto split: option.splits if_splits)

definition apr_dir_make :: "fs_env \<Rightarrow> fs_state \<Rightarrow> string \<Rightarrow> apr_status_t \<times> fs_state" where
  "apr_dir_make env st path =
     (let (rv, wpath) = utf8_to_unicode_path env path
      in if rv \<noteq> APR_SUCCESS then (rv, st)
         else
           let st1 = issue (Call_CreateDirectoryW wpath) st;
               r = CreateDirectoryW env (calls st1)
           in if \<not> br_ok r then (apr_get_os_error (br_lasterror r), st1)
              else (APR_SUCCESS, st1))"

text \<open>
  \<^verbatim>\<open>dir_make_parent\<close> cuts the path at its last backslash for the duration of the
  call; the calls it makes see the part before it.
\<close>

function dir_make_parent :: "fs_env \<Rightarrow> fs_state \<Rightarrow> string \<Rightarrow> apr_status_t \<times> fs_state" where
  "dir_make_parent env st path =
     (case strrchr path (CHR 0x5C) of
        None \<Rightarrow> (APR_ENOENT, st)
      | Some i \<Rightarrow>
          if APR_STATUS_IS_ENOENT (fst (apr_dir_make env st (take i path)))
          then
            let r2 = dir_make_parent env (snd (apr_dir_make env st (take i path))) (take i path)
            in if fst r2 = APR_SUCCESS \<or> APR_STATUS_IS_EEXIST (fst r2)
               then apr_dir_make env (snd r2) (take i path)
               else r2
          else apr_dir_make env st (take i path))"
  by pat_completeness auto
termination
  by (relation "measure (\<lambda>(env, st, path). length path)") (auto dest: strrchr_less)

declare dir_make_parent.simps [simp del]

definition apr_dir_make_recursive ::
  "fs_env \<Rightarrow> fs_state \<Rightarrow> string \<Rightarrow> apr_status_t \<times> fs_state" where
  "apr_dir_make_recursive env st path =
     (let (rv, st1) = apr_dir_make env st path
      in if APR_STATUS_IS_ENOENT rv
         then
           let (mrv, dir) = apr_filepath_merge env path
           in if mrv \<noteq> APR_SUCCESS then (mrv, st1)
              else
                let (rv2, st2) = dir_make_parent env st1 dir
                in if rv2 = APR_SUCCESS \<or> APR_STATUS_IS_EEXIST rv2
                   then let (rv3, st3) = apr_dir_make env st2 dir
                        in if APR_STATUS_IS_EEXIST rv3 then (APR_SUCCESS, st3) else (rv3, st3)
                   else (rv2, st2)
         else if APR_STATUS_IS_EEXIST rv then (APR_SUCCESS, st1)
         else (rv, st1))"

section \<open>A small simulated platform for the file functions\<close>

text \<open>
  A concrete platform on which the file functions can be run. Names are ASCII, the
  forward slash becomes a backslash in wide paths, and directory creation follows a
  filesystem that starts empty: a directory can be created once, below an existing
  parent.
\<close>

definition sim_wide :: "string \<Rightarrow> wstring" where
  "sim_wide s = map (\<lambda>c. if c = CHR ''/'' then 92 else of_char c) s"

definition sim_narrow :: "wstring \<Rightarrow> string" where
  "sim_narrow w = map (\<lambda>u. char_of (unat u)) w"

definition sim_parent :: "wstring \<Rightarrow> wstring" where
  "sim_parent w = rev (tl (dropWhile (\<lambda>u. u \<noteq> 92) (rev w)))"

definition sim_mkdir_step :: "fs_call \<Rightarrow> wstring list \<Rightarrow> wstring list" where
  "sim_mkdir_step c ds =
     (case c of
        Call_CreateDirectoryW w \<Rightarrow>
          if w \<notin> set ds \<and> (92 \<notin> set w \<or> sim_parent w \<in> set ds) then w # ds else ds
      | _ \<Rightarrow> ds)"

definition sim_mkdir :: "fs_call list \<Rightarrow> bool_result" where
  "sim_mkdir tr =
     (case rev tr of
        Call_CreateDirectoryW w # earlier \<Rightarrow>
          let ds = fold sim_mkdir_step (rev earlier) []
          in if w \<in> set ds then \<lparr> br_ok = False, br_lasterror = 183 \<rparr>
             else if 92 \<in> set w \<and> sim_parent w \<notin> set ds
             then \<lparr> br_ok = False, br_lasterror = 3 \<rparr>
             else \<lparr> br_ok = True, br_lasterror = 0 \<rparr>
      | _ \<Rightarrow> \<lparr> br_ok = False, br_lasterror = 87 \<rparr>)"

definition sim_entry :: "string \<Rightarrow> DWORD \<Rightarrow> WIN32_FIND_DATAW" where
  "sim_entry n attrs =
     entry_zero \<lparr> dwFileAttributes := attrs, nFileSizeLow := 10, cFileName := sim_wide n \<rparr>"

definition sim_listing :: "WIN32_FIND_DATAW list" where
  "sim_listing =
     [sim_entry ''.'' 0x10, sim_entry ''..'' 0x10, sim_entry ''a.txt'' 0x1,
      sim_entry ''a_name_that_is_too_long.txt'' 0, sim_entry ''b.txt'' 0]"

definition sim_byhandle :: BY_HANDLE_FILE_INFORMATION where
  "sim_byhandle =
     \<lparr> bh_dwFileAttributes = 0x1, bh_ftCreationTime = filetime_zero,
       bh_ftLastAccessTime = filetime_zero, bh_ftLastWriteTime = filetime_zero,
       bh_dwVolumeSerialNumber = 77, bh_nFileSizeHigh = 0, bh_nFileSizeLow = 10,
       bh_nNumberOfLinks = 1, bh_nFileIndexHigh = 0, bh_nFileIndexLow = 5 \<rparr>"

definition sim_open :: "fs_call list \<Rightarrow> open_result" where
  "sim_open tr =
     (case rev tr of
        Call_apr_file_open n fl # earlier \<Rightarrow>
          \<lparr> op_status = APR_SUCCESS,
            op_file = \<lparr> fl_pool = 1, fl_filehand = 7, fl_fname = n, fl_buffered = False \<rparr> \<rparr>
      | _ \<Rightarrow>
          \<lparr> op_status = APR_EINVAL,
            op_file = \<lparr> fl_pool = 0, fl_filehand = 0, fl_fname = [], fl_buffered = False \<rparr> \<rparr>)"

definition fs_sim :: fs_env where
  "fs_sim =
     \<lparr> IS_FNCHAR = (\<lambda>c. c \<notin> set ''*?:<>|'' \<and> c \<noteq> CHR 0x5C \<and> c \<noteq> CHR ''/''),
       utf8_to_unicode_path = (\<lambda>s. (APR_SUCCESS, sim_wide s)),
       unicode_to_utf8_path = (\<lambda>w. (APR_SUCCESS, sim_narrow w)),
       apr_filepath_merge =
         (\<lambda>s. (APR_SUCCESS, map (\<lambda>c. if c = CHR ''/'' then CHR 0x5C else c) s)),
       apr_os_level_nt = True,
       APR_PATH_MAX = 16,
       CreateDirectoryW = sim_mkdir,
       FindFirstFileExW = (\<lambda>tr. \<lparr> ff_entries = sim_listing, ff_lasterror = 0 \<rparr>),
       FindClose = (\<lambda>tr. \<lparr> br_ok = True, br_lasterror = 0 \<rparr>),
       GetFileAttributesExW =
         (\<lambda>tr. \<lparr> ga_ok = True, ga_data = sim_entry ''a.txt'' 0x1, ga_lasterror = 0 \<rparr>),
       apr_file_open = sim_open,
       apr_file_flush = (\<lambda>tr. APR_SUCCESS),
       GetFileSizeEx = (\<lambda>tr. \<lparr> gs_ok = True, gs_QuadPart = 10, gs_lasterror = 0 \<rparr>),
       GetFileInformationByHandle =
         (\<lambda>tr. \<lparr> gi_ok = True, gi_info = sim_byhandle, gi_lasterror = 0 \<rparr>),
       GetFileType = (\<lambda>tr. 1),
       GetFullPathNameW = (\<lambda>tr. \<lparr> fp_ret = 0, fp_tmpname = [], fp_tmpoff = None \<rparr>),
       GetSecurityInfo = (\<lambda>tr. \<lparr> se_rv = 5, se_user = 0, se_grp = 0, se_dacl = 0 \<rparr>),
       GetEffectiveRightsFromAclW = (\<lambda>tr. \<lparr> er_rv = 5, er_acc = 0 \<rparr>),
       AllocateAndInitializeSid = (\<lambda>tr. \<lparr> as_ok = False, as_sid = 0 \<rparr>),
       GetFileInformationByHandleEx =
         (\<lambda>tr. \<lparr> gs_ok = True, gs_QuadPart = 4096, gs_lasterror = 0 \<rparr>),
       GetCompressedFileSizeW =
         (\<lambda>tr. \<lparr> cs_sizelo = 4096, cs_sizehi = 0, cs_lasterror = 0 \<rparr>) \<rparr>"

text \<open>
  A directory of the simulated platform part-way through its enumeration: the entry
  \<^verbatim>\<open>a.txt\<close> has been read, an over-long name and \<^verbatim>\<open>b.txt\<close> are still to come.
\<close>

definition sim_dir :: apr_dir_t where
  "sim_dir =
     \<lparr> d_pool = 0,
       dirhand = Some [sim_entry ''a_name_that_is_too_long.txt'' 0, sim_entry ''b.txt'' 0],
       rootlen = 2, dirname = ''d/'', d_name = ''a.txt'', entry = sim_entry ''a.txt'' 0x1,
       bof = False \<rparr>"

text \<open>
  The file object the simulated platform hands out for \<^verbatim>\<open>a.txt\<close>.
\<close>

definition sim_file :: apr_file_t where
  "sim_file = op_file (sim_open [Call_apr_file_open ''a.txt'' 0])"

definition st_init :: fs_state where
  "st_init = \<lparr> calls = [], worldid = 0 \<rparr>"

text \<open>
  The status \<^verbatim>\<open>apr_dir_make\<close> derives from an answer of \<^verbatim>\<open>CreateDirectoryW\<close>.
\<close>

definition mk_status :: "bool_result \<Rightarrow> apr_status_t" where
  "mk_status r = (if \<not> br_ok r then apr_get_os_error (br_lasterror r) else APR_SUCCESS)"

text \<open>
  A platform on which another process creates the leaf directory between the two
  attempts of the caller: the first creation finds no parent, the second call (for the
  parent) succeeds, every later one finds the directory in place.
\<close>

definition race_env :: fs_env where
  "race_env =
     fs_sim \<lparr> CreateDirectoryW :=
       (\<lambda>tr. if length tr = 1 then \<lparr> br_ok = False, br_lasterror = 3 \<rparr>
              else if length tr = 2 then \<lparr> br_ok = True, br_lasterror = 0 \<rparr>
              else \<lparr> br_ok = False, br_lasterror = 183 \<rparr>) \<rparr>"

section \<open>Vocabulary of the metadata and directory properties\<close>

text \<open>
  The find calls in a trace; a path with a wildcard character; a valid mask that covers
  a set of bits.
\<close>

definition is_find_call :: "fs_call \<Rightarrow> bool" where
  "is_find_call c = (case c of Call_FindFirstFileExW w \<Rightarrow> True | _ \<Rightarrow> False)"

definition finds :: "fs_state \<Rightarrow> fs_call list" where
  "finds st = filter is_find_call (calls st)"

definition has_wildcard :: "string \<Rightarrow> bool" where
  "has_wildcard name = (CHR ''*'' \<in> set name \<or> CHR ''?'' \<in> set name)"

definition covers :: "apr_int32_t \<Rightarrow> apr_int32_t \<Rightarrow> bool" where
  "covers v m = (v AND m = m)"

text \<open>
  What the platform's collaborators are taken to guarantee: a file object records the name
  it was opened with; a native query that fails leaves a non-zero error code; opening and
  flushing a file never answer with \<^verbatim>\<open>APR_INCOMPLETE\<close>, the status reserved for
  partially answered metadata queries.
\<close>

definition opens_keep_name :: "fs_env \<Rightarrow> bool" where
  "opens_keep_name env =
     (\<forall>tr n fl. fl_fname (op_file (apr_file_open env (tr @ [Call_apr_file_open n fl]))) = n)"

definition failures_have_codes :: "fs_env \<Rightarrow> bool" where
  "failures_have_codes env =
     (\<forall>tr. (\<not> gi_ok (GetFileInformationByHandle env tr)
              \<longrightarrow> gi_lasterror (GetFileInformationByHandle env tr) \<noteq> 0) \<and>
           (\<not> gs_ok (GetFileSizeEx env tr) \<longrightarrow> gs_lasterror (GetFileSizeEx env tr) \<noteq> 0) \<and>
           (\<not> ga_ok (GetFileAttributesExW env tr)
              \<longrightarrow> ga_lasterror (GetFileAttributesExW env tr) \<noteq> 0) \<and>
           (ff_entries (FindFirstFileExW env tr) = []
              \<longrightarrow> ff_lasterror (FindFirstFileExW env tr) \<noteq> 0) \<and>
           op_status (apr_file_open env tr) \<noteq> APR_INCOMPLETE \<and>
           apr_file_flush env tr \<noteq> APR_INCOMPLETE)"

text \<open>
  A field whose bit is clear in \<^verbatim>\<open>valid\<close> holds the zero that \<^verbatim>\<open>memset\<close> left in it.
  For the protection word this is said per scope (user, group, world); the private
  read-only flag \<^verbatim>\<open>APR_FREADONLY\<close> lies outside the three scopes and is not covered by
  any bit. The file type is treated apart.
\<close>

definition unset_fields_clear :: "apr_finfo_t \<Rightarrow> bool" where
  "unset_fields_clear f =
     ((fi_valid f AND APR_FINFO_MTIME = 0 \<longrightarrow> fi_mtime f = 0) \<and>
      (fi_valid f AND APR_FINFO_CTIME = 0 \<longrightarrow> fi_ctime f = 0) \<and>
      (fi_valid f AND APR_FINFO_ATIME = 0 \<longrightarrow> fi_atime f = 0) \<and>
      (fi_valid f AND APR_FINFO_SIZE = 0 \<longrightarrow> fi_size f = 0) \<and>
      (fi_valid f AND APR_FINFO_CSIZE = 0 \<longrightarrow> fi_csize f = 0) \<and>
      (fi_valid f AND APR_FINFO_DEV = 0 \<longrightarrow> fi_device f = 0) \<and>
      (fi_valid f AND APR_FINFO_INODE = 0 \<longrightarrow> fi_inode f = 0) \<and>
      (fi_valid f AND APR_FINFO_NLINK = 0 \<longrightarrow> fi_nlink f = 0) \<and>
      (fi_valid f AND APR_FINFO_USER = 0 \<longrightarrow> fi_user f = 0) \<and>
      (fi_valid f AND APR_FINFO_GROUP = 0 \<longrightarrow> fi_group f = 0) \<and>
      (fi_valid f AND APR_FINFO_UPROT = 0 \<longrightarrow> fi_protection f AND 0x700 = 0) \<and>
      (fi_valid f AND APR_FINFO_GPROT = 0 \<longrightarrow> fi_protection f AND 0x070 = 0) \<and>
      (fi_valid f AND APR_FINFO_WPROT = 0 \<longrightarrow> fi_protection f AND 0x007 = 0) \<and>
      (fi_valid f AND APR_FINFO_NAME = 0 \<longrightarrow> fi_name f = None))"

definition type_clear :: "apr_finfo_t \<Rightarrow> bool" where
  "type_clear f = (fi_valid f AND APR_FINFO_TYPE = 0 \<longrightarrow> fi_filetype f = APR_NOFILE)"

text \<open>
  What a complete answer by handle looks like, and the requests for which
  \<^verbatim>\<open>apr_stat\<close> may hand \<^verbatim>\<open>apr_file_info_get\<close> a request for exactly the size
  (directly, or after stripping the protection and owner bits for the retry).
\<close>

definition answered_by_handle :: "apr_finfo_t \<Rightarrow> bool" where
  "answered_by_handle f =
     (covers (fi_valid f) (APR_FINFO_MIN OR APR_FINFO_IDENT OR APR_FINFO_NLINK) \<and>
      unset_fields_clear f \<and> type_clear f)"

definition size_only :: "apr_int32_t \<Rightarrow> bool" where
  "size_only wanted =
     (wanted = APR_FINFO_SIZE
      \<or> wanted AND NOT (APR_FINFO_PROT OR APR_FINFO_OWNER) = APR_FINFO_SIZE)"

text \<open>
  How \<^verbatim>\<open>more_finfo\<close> may change a structure: bits are only added to \<^verbatim>\<open>valid\<close>, the
  name bit is not among them, the fields filled earlier stay, and cleared fields stay
  cleared unless their bit is added.
\<close>

definition more_step :: "apr_finfo_t \<Rightarrow> apr_finfo_t \<Rightarrow> bool" where
  "more_step f f' =
     (fi_valid f' AND fi_valid f = fi_valid f \<and>
      fi_valid f' AND APR_FINFO_NAME = fi_valid f AND APR_FINFO_NAME \<and>
      fi_pool f' = fi_pool f \<and> fi_filetype f' = fi_filetype f \<and>
      fi_name f' = fi_name f \<and> fi_fname f' = fi_fname f \<and>
      fi_filehand f' = fi_filehand f \<and>
      (unset_fields_clear f \<longrightarrow> unset_fields_clear f'))"

text \<open>
  For directory enumeration: the name stored for an opened directory (a slash is
  appended unless one is there), the test the skipping loop of \<^verbatim>\<open>apr_dir_read\<close>
  applies to an entry, read as "the entry is passed over", and the entries an open
  directory has still to deliver (the prefetched one first).
\<close>

definition opened_root :: "string \<Rightarrow> string" where
  "opened_root dname = (if dname \<noteq> [] \<and> last dname \<noteq> CHR ''/'' then dname @ ''/'' else dname)"

definition passed_over :: "fs_env \<Rightarrow> nat \<Rightarrow> WIN32_FIND_DATAW \<Rightarrow> bool" where
  "passed_over env rlen e = (rlen \<noteq> 0 \<and> rlen + length (cFileName e) \<ge> APR_PATH_MAX env)"

definition pending_entries :: "apr_dir_t \<Rightarrow> WIN32_FIND_DATAW list" where
  "pending_entries d =
     (case dirhand d of None \<Rightarrow> [] | Some h \<Rightarrow> if bof d then entry d # h else h)"

definition reported_name :: "fs_env \<Rightarrow> WIN32_FIND_DATAW \<Rightarrow> string option" where
  "reported_name env e = Some (snd (unicode_to_utf8_path env (cFileName e)))"

section \<open>Properties of the single-buffer transfers\<close>

text \<open>
  C10. When the native transfer call reports \<^verbatim>\<open>SOCKET_ERROR\<close>, each of
  \<^verbatim>\<open>apr_socket_send\<close>, \<^verbatim>\<open>apr_socket_recv\<close>, \<^verbatim>\<open>apr_socket_sendto\<close> and
  \<^verbatim>\<open>apr_socket_recvfrom\<close> returns the translated network error with the in/out length
  set to zero, whatever length the caller passed in; and whenever one of them returns a
  status other than success the length it reports is zero.
\<close>

theorem transfer_error_zeroes_length:
  "(wsa_rv (WSASend env (tr @ [Call_WSASend (socketdes sock) [ucast len]])) = SOCKET_ERROR \<longrightarrow>
      fst (apr_socket_send env tr sock len) =
        apr_get_netos_error
          (wsa_lasterror (WSASend env (tr @ [Call_WSASend (socketdes sock) [ucast len]]))) \<and>
      fst (snd (apr_socket_send env tr sock len)) = 0) \<and>
   (wsa_rv (WSARecv env (tr @ [Call_WSARecv (socketdes sock) (ucast len)])) = SOCKET_ERROR \<longrightarrow>
      fst (apr_socket_recv env tr sock len) =
        apr_get_netos_error
          (wsa_lasterror (WSARecv env (tr @ [Call_WSARecv (socketdes sock) (ucast len)]))) \<and>
      fst (snd (apr_socket_recv env tr sock len)) = 0) \<and>
   (sint (bsd_rv (sendto env (tr @ [Call_sendto (socketdes sock) (ucast len)]))) = SOCKET_ERROR \<longrightarrow>
      fst (apr_socket_sendto env tr sock len) =
        apr_get_netos_error
          (bsd_lasterror (sendto env (tr @ [Call_sendto (socketdes sock) (ucast len)]))) \<and>
      fst (snd (apr_socket_sendto env tr sock len)) = 0) \<and>
   (sint (bsd_rv (recvfrom env (tr @ [Call_recvfrom (socketdes sock) (ucast len)]))) = SOCKET_ERROR \<longrightarrow>
      fst (apr_socket_recvfrom env tr sock len) =
        apr_get_netos_error
          (bsd_lasterror (recvfrom env (tr @ [Call_recvfrom (socketdes sock) (ucast len)]))) \<and>
      fst (snd (apr_socket_recvfrom env tr sock len)) = 0) \<and>
   (fst (apr_socket_send env tr sock len) \<noteq> APR_SUCCESS \<longrightarrow>
      fst (snd (apr_socket_send env tr sock len)) = 0) \<and>
   (fst (apr_socket_recv env tr sock len) \<noteq> APR_SUCCESS \<longrightarrow>
      fst (snd (apr_socket_recv env tr sock len)) = 0) \<and>
   (fst (apr_socket_sendto env tr sock len) \<noteq> APR_SUCCESS \<longrightarrow>
      fst (snd (apr_socket_sendto env tr sock len)) = 0) \<and>
   (fst (apr_socket_recvfrom env tr sock len) \<noteq> APR_SUCCESS \<longrightarrow>
      fst (snd (apr_socket_recvfrom env tr sock len)) = 0)"
  by (simp add: apr_socket_send_def apr_socket_recv_def apr_socket_sendto_def
        apr_socket_recvfrom_def Let_def signed_eq_0_iff)

theorem transfer_error_zeroes_length_witness:
  "wsa_rv (WSASend env_reset ([] @ [Call_WSASend (socketdes sock_stream) [ucast (5 :: apr_size_t)]]))
     = SOCKET_ERROR \<and>
   wsa_rv (WSARecv env_reset ([] @ [Call_WSARecv (socketdes sock_stream) (ucast (5 :: apr_size_t))]))
     = SOCKET_ERROR \<and>
   sint (bsd_rv (sendto env_reset ([] @ [Call_sendto (socketdes sock_stream) (ucast (5 :: apr_size_t))])))
     = SOCKET_ERROR \<and>
   sint (bsd_rv (recvfrom env_reset ([] @ [Call_recvfrom (socketdes sock_stream) (ucast (5 :: apr_size_t))])))
     = SOCKET_ERROR \<and>
   fst (apr_socket_send env_reset [] sock_stream 5) = APR_OS_ERROR 10054 \<and>
   fst (snd (apr_socket_send env_reset [] sock_stream 5)) = 0 \<and>
   fst (apr_socket_recv env_reset [] sock_stream 5) = APR_OS_ERROR 10054 \<and>
   fst (snd (apr_socket_recv env_reset [] sock_stream 5)) = 0 \<and>
   fst (apr_socket_sendto env_reset [] sock_stream 5) = APR_OS_ERROR 10054 \<and>
   fst (snd (apr_socket_sendto env_reset [] sock_stream 5)) = 0 \<and>
   fst (apr_socket_recvfrom env_reset [] sock_stream 5) = APR_OS_ERROR 10054 \<and>
   fst (snd (apr_socket_recvfrom env_reset [] sock_stream 5)) = 0"
  using transfer_error_zeroes_length [of env_reset "[]" sock_stream 5]
  by (simp add: env_reset_def sock_stream_def SOCKET_ERROR_def apr_get_netos_error_def
        APR_FROM_OS_ERROR_def)

text \<open>
  C8. When \<^verbatim>\<open>WSARecv\<close> succeeds and stores a byte count of zero, \<^verbatim>\<open>apr_socket_recv\<close>
  returns \<^verbatim>\<open>APR_EOF\<close> with length zero, and that status is not the success status.
  The function does not look at the socket type, so this holds for stream sockets in
  particular.
\<close>

theorem recv_zero_bytes_is_eof:
  "wsa_rv (WSARecv env (tr @ [Call_WSARecv (socketdes sock) (ucast len)])) \<noteq> SOCKET_ERROR \<Longrightarrow>
   wsa_bytes (WSARecv env (tr @ [Call_WSARecv (socketdes sock) (ucast len)])) = 0 \<Longrightarrow>
     apr_socket_recv env tr sock len =
       (APR_EOF, 0, tr @ [Call_WSARecv (socketdes sock) (ucast len)]) \<and>
     APR_EOF \<noteq> APR_SUCCESS"
  by (simp add: apr_socket_recv_def Let_def)

theorem recv_zero_bytes_is_eof_witness:
  "wsa_rv (WSARecv env_closed ([] @ [Call_WSARecv (socketdes sock_stream) (ucast (100 :: apr_size_t))]))
     \<noteq> SOCKET_ERROR \<and>
   wsa_bytes (WSARecv env_closed ([] @ [Call_WSARecv (socketdes sock_stream) (ucast (100 :: apr_size_t))]))
     = 0 \<and>
   sock_type sock_stream = SOCK_STREAM \<and>
   apr_socket_recv env_closed [] sock_stream 100 = (APR_EOF, 0, [Call_WSARecv 3 100])"
  using recv_zero_bytes_is_eof [of env_closed "[]" sock_stream 100]
  by (simp add: env_closed_def env_reset_def sock_stream_def SOCKET_ERROR_def SOCK_STREAM_def)

section \<open>Properties of the vectored send\<close>

lemma unat_MAXDWORD: "unat MAXDWORD = 4294967295"
  by (simp add: MAXDWORD_def)

lemma sendv_total_None:
  "unat t \<le> 4294967295 \<Longrightarrow> 4294967295 < unat t + sum_list (map unat vec)
     \<Longrightarrow> sendv_total vec t = None"
proof (induction vec arbitrary: t)
  case Nil
  then show ?case by simp
next
  case (Cons iov vec)
  have tle: "t \<le> MAXDWORD"
    using Cons.prems(1) by (simp add: word_le_nat_alt unat_MAXDWORD)
  have sub: "unat (MAXDWORD - t) = 4294967295 - unat t"
    using tle by (simp add: unat_sub unat_MAXDWORD)
  show ?case
  proof (cases "iov > MAXDWORD - t")
    case True
    then show ?thesis by simp
  next
    case False
    then have le: "unat iov \<le> 4294967295 - unat t"
      using sub by (simp add: word_less_nat_alt not_less)
    then have add: "unat (t + iov) = unat t + unat iov"
      using Cons.prems(1) by (simp add: unat_add_lem [THEN iffD1])
    have "sendv_total vec (t + iov) = None"
      using Cons.prems le add by (intro Cons.IH) auto
    with False show ?thesis by simp
  qed
qed

lemma sendv_total_Some:
  "unat t \<le> 4294967295 \<Longrightarrow> sendv_total vec t = Some tot
     \<Longrightarrow> unat tot = unat t + sum_list (map unat vec) \<and> unat tot \<le> 4294967295"
proof (induction vec arbitrary: t)
  case Nil
  then show ?case by simp
next
  case (Cons iov vec)
  have tle: "t \<le> MAXDWORD"
    using Cons.prems(1) by (simp add: word_le_nat_alt unat_MAXDWORD)
  have sub: "unat (MAXDWORD - t) = 4294967295 - unat t"
    using tle by (simp add: unat_sub unat_MAXDWORD)
  from Cons.prems(2) have nb: "\<not> iov > MAXDWORD - t"
    and rest: "sendv_total vec (t + iov) = Some tot"
    by (auto split: if_splits)
  from nb have le: "unat iov \<le> 4294967295 - unat t"
    using sub by (simp add: word_less_nat_alt not_less)
  then have add: "unat (t + iov) = unat t + unat iov"
    using Cons.prems(1) by (simp add: unat_add_lem [THEN iffD1])
  have "unat tot = unat (t + iov) + sum_list (map unat vec) \<and> unat tot \<le> 4294967295"
    using le add Cons.prems(1) rest by (intro Cons.IH) auto
  then show ?case using add by simp
qed

text \<open>
  C7. When the byte counts of the buffer vector add up to more than \<^verbatim>\<open>MAXDWORD\<close>,
  \<^verbatim>\<open>apr_socket_sendv\<close> returns \<^verbatim>\<open>APR_EINVAL\<close> and the trace of native calls is
  unchanged: no \<^verbatim>\<open>WSASend\<close> (and no allocation) is issued, so nothing is transferred
  and nothing is truncated. The caller's \<^verbatim>\<open>*nbytes\<close> is not written on this path.
\<close>

theorem sendv_overflow_rejected:
  "unat MAXDWORD < sum_list (map unat vec) \<Longrightarrow>
     apr_socket_sendv env tr sock vec nbytes = (APR_EINVAL, nbytes, tr)"
  using sendv_total_None [of 0 vec]
  by (simp add: apr_socket_sendv_def unat_MAXDWORD)

theorem sendv_overflow_rejected_witness:
  "unat MAXDWORD < sum_list (map unat [0xFFFFFFFF, 1 :: apr_size_t]) \<and>
   apr_socket_sendv env_closed [] sock_stream [0xFFFFFFFF, 1] 77 = (APR_EINVAL, 77, [])"
  using sendv_overflow_rejected [of "[0xFFFFFFFF, 1]" env_closed "[]" sock_stream 77]
  by (simp add: unat_MAXDWORD)

section \<open>Properties of the process mutex\<close>

text \<open>
  C9. Called with a null name, \<^verbatim>\<open>apr_proc_mutex_child_init\<close> returns success, makes
  no kernel or pool call, and leaves the caller's mutex pointer exactly as it was.
\<close>

theorem child_init_unnamed_is_noop:
  "apr_proc_mutex_child_init env tr mutex None pool = (APR_SUCCESS, mutex, tr)"
  by (simp add: apr_proc_mutex_child_init_def)

text \<open>
  C4 (the code departs from the claim). A first destroy of a mutex with handle 42 succeeds:
  it closes the handle and cancels the pool cleanup, but the structure still holds handle
  42 afterwards. A second destroy therefore issues a second \<^verbatim>\<open>CloseHandle 42\<close>, which
  the kernel answers with \<^verbatim>\<open>ERROR_INVALID_HANDLE\<close>, and the call returns that error.
\<close>

theorem destroy_twice_closes_twice:
  "apr_proc_mutex_destroy kernel_env [] mutex42 =
     (APR_SUCCESS, mutex42, [Call_CloseHandle 42, Call_pool_cleanup_kill 1 mutex42]) \<and>
   pm_handle (fst (snd (apr_proc_mutex_destroy kernel_env [] mutex42))) = 42 \<and>
   apr_proc_mutex_destroy kernel_env
       [Call_CloseHandle 42, Call_pool_cleanup_kill 1 mutex42] mutex42 =
     (APR_OS_ERROR 6, mutex42,
      [Call_CloseHandle 42, Call_pool_cleanup_kill 1 mutex42, Call_CloseHandle 42])"
  by (simp add: apr_proc_mutex_destroy_def proc_mutex_cleanup_def kernel_env_def mutex42_def
        apr_get_os_error_def APR_FROM_OS_ERROR_def Let_def)

section \<open>Properties of recursive directory creation\<close>

lemma enoent_not_eexist: "APR_STATUS_IS_ENOENT s \<Longrightarrow> \<not> APR_STATUS_IS_EEXIST s"
  by (auto simp: APR_STATUS_IS_ENOENT_def APR_STATUS_IS_EEXIST_def)

lemma enoent_not_success: "APR_STATUS_IS_ENOENT s \<Longrightarrow> s \<noteq> APR_SUCCESS"
  by (auto simp: APR_STATUS_IS_ENOENT_def)

lemma eexist_not_success: "APR_STATUS_IS_EEXIST s \<Longrightarrow> s \<noteq> APR_SUCCESS"
  by (auto simp: APR_STATUS_IS_EEXIST_def)

lemma apr_dir_make_conv_fail:
  "utf8_to_unicode_path env p = (crv, w) \<Longrightarrow> crv \<noteq> APR_SUCCESS \<Longrightarrow>
     apr_dir_make env st p = (crv, st)"
  by (simp add: apr_dir_make_def)

lemma apr_dir_make_conv_ok:
  "utf8_to_unicode_path env p = (APR_SUCCESS, w) \<Longrightarrow>
     apr_dir_make env st p =
       (mk_status (CreateDirectoryW env (calls st @ [Call_CreateDirectoryW w])),
        issue (Call_CreateDirectoryW w) st)"
  by (simp add: apr_dir_make_def mk_status_def issue_def Let_def)

lemma whole_path_exists:
  "APR_STATUS_IS_EEXIST (fst (apr_dir_make env st path)) \<Longrightarrow>
     fst (apr_dir_make_recursive env st path) = APR_SUCCESS"
  by (auto simp: apr_dir_make_recursive_def Let_def split: prod.splits dest: enoent_not_eexist)

lemma final_step_exists:
  "APR_STATUS_IS_ENOENT (fst (apr_dir_make env st path)) \<Longrightarrow>
   apr_filepath_merge env path = (APR_SUCCESS, dir) \<Longrightarrow>
   dir_make_parent env (snd (apr_dir_make env st path)) dir = (rv2, st2) \<Longrightarrow>
   rv2 = APR_SUCCESS \<or> APR_STATUS_IS_EEXIST rv2 \<Longrightarrow>
   APR_STATUS_IS_EEXIST (fst (apr_dir_make env st2 dir)) \<Longrightarrow>
     fst (apr_dir_make_recursive env st path) = APR_SUCCESS"
  by (auto simp: apr_dir_make_recursive_def Let_def split: prod.splits)

lemma second_call_succeeds:
  assumes persist: "\<And>tr w.
      mk_status (CreateDirectoryW env (tr @ [Call_CreateDirectoryW w])) = APR_SUCCESS
      \<or> APR_STATUS_IS_EEXIST (mk_status (CreateDirectoryW env (tr @ [Call_CreateDirectoryW w])))
      \<Longrightarrow> APR_STATUS_IS_EEXIST
            (mk_status (CreateDirectoryW env
               (tr @ [Call_CreateDirectoryW w, Call_CreateDirectoryW w])))"
    and merge: "\<And>dir. apr_filepath_merge env path = (APR_SUCCESS, dir)
      \<Longrightarrow> utf8_to_unicode_path env dir = utf8_to_unicode_path env path"
    and first: "fst (apr_dir_make_recursive env st path) = APR_SUCCESS"
  shows "fst (apr_dir_make_recursive env (snd (apr_dir_make_recursive env st path)) path)
           = APR_SUCCESS"
proof -
  obtain crv w where conv: "utf8_to_unicode_path env path = (crv, w)"
    by (cases "utf8_to_unicode_path env path")
  obtain mrv dir where mg: "apr_filepath_merge env path = (mrv, dir)"
    by (cases "apr_filepath_merge env path")
  show ?thesis
  proof (cases "crv = APR_SUCCESS")
    case False
    then have mk: "\<And>s. apr_dir_make env s path = (crv, s)"
      using conv by (simp add: apr_dir_make_conv_fail)
    show ?thesis
    proof (cases "APR_STATUS_IS_ENOENT crv")
      case True
      have "fst (apr_dir_make_recursive env st path) \<noteq> APR_SUCCESS"
      proof (cases "mrv = APR_SUCCESS")
        case ms: True
        then have "utf8_to_unicode_path env dir = (crv, w)"
          using merge mg conv by simp
        then have "\<And>s. apr_dir_make env s dir = (crv, s)"
          using False by (simp add: apr_dir_make_conv_fail)
        then show ?thesis
          using True mk mg ms enoent_not_eexist [OF True] enoent_not_success [OF True]
          by (auto simp: apr_dir_make_recursive_def Let_def split: prod.splits
                dest: eexist_not_success)
      next
        case mf: False
        then show ?thesis
          using True mk mg by (simp add: apr_dir_make_recursive_def Let_def)
      qed
      with first show ?thesis by simp
    next
      case ne: False
      have R: "\<And>s. apr_dir_make_recursive env s path =
                 (if APR_STATUS_IS_EEXIST crv then APR_SUCCESS else crv, s)"
        using ne mk by (simp add: apr_dir_make_recursive_def Let_def)
      with first show ?thesis by (simp split: if_splits)
    qed
  next
    case True
    let ?mk = "Call_CreateDirectoryW w"
    have mk: "\<And>s. apr_dir_make env s path =
                (mk_status (CreateDirectoryW env (calls s @ [?mk])), issue ?mk s)"
      using conv True by (simp add: apr_dir_make_conv_ok)
    let ?rv = "mk_status (CreateDirectoryW env (calls st @ [?mk]))"
    have again: "\<And>s. APR_STATUS_IS_EEXIST (mk_status (CreateDirectoryW env (calls s @ [?mk])))
        \<Longrightarrow> fst (apr_dir_make_recursive env s path) = APR_SUCCESS"
      using mk by (intro whole_path_exists) simp
    show ?thesis
    proof (cases "APR_STATUS_IS_ENOENT ?rv")
      case ne: False
      from ne first mk have ok: "?rv = APR_SUCCESS \<or> APR_STATUS_IS_EEXIST ?rv"
        by (auto simp: apr_dir_make_recursive_def Let_def split: if_splits)
      have st': "snd (apr_dir_make_recursive env st path) = issue ?mk st"
        using ne mk by (auto simp: apr_dir_make_recursive_def Let_def)
      have "APR_STATUS_IS_EEXIST
              (mk_status (CreateDirectoryW env (calls (issue ?mk st) @ [?mk])))"
        using persist [OF ok] by (simp add: issue_def)
      then show ?thesis using again st' by simp
    next
      case en: True
      obtain rv2 st2 where dmp: "dir_make_parent env (issue ?mk st) dir = (rv2, st2)"
        by (cases "dir_make_parent env (issue ?mk st) dir")
      from first en mk mg have ms: "mrv = APR_SUCCESS"
        by (auto simp: apr_dir_make_recursive_def Let_def split: if_splits)
      then have cd: "utf8_to_unicode_path env dir = (APR_SUCCESS, w)"
        using merge mg conv True by simp
      have mkd: "\<And>s. apr_dir_make env s dir =
                (mk_status (CreateDirectoryW env (calls s @ [?mk])), issue ?mk s)"
        using cd by (simp add: apr_dir_make_conv_ok)
      from first en mk mg ms dmp have ok2: "rv2 = APR_SUCCESS \<or> APR_STATUS_IS_EEXIST rv2"
        by (auto simp: apr_dir_make_recursive_def Let_def split: if_splits)
      let ?rv3 = "mk_status (CreateDirectoryW env (calls st2 @ [?mk]))"
      have R: "apr_dir_make_recursive env st path =
                 (if APR_STATUS_IS_EEXIST ?rv3 then APR_SUCCESS else ?rv3, issue ?mk st2)"
        using en mk mg ms dmp ok2 mkd
        by (auto simp: apr_dir_make_recursive_def Let_def)
      with first have ok3: "?rv3 = APR_SUCCESS \<or> APR_STATUS_IS_EEXIST ?rv3"
        by (auto split: if_splits)
      have "APR_STATUS_IS_EEXIST
              (mk_status (CreateDirectoryW env (calls (issue ?mk st2) @ [?mk])))"
        using persist [OF ok3] by (simp add: issue_def)
      then show ?thesis using again R by simp
    qed
  qed
qed

text \<open>
  C5. \<^verbatim>\<open>apr_dir_make_recursive\<close> returns success when the attempt on the whole path
  reports already-exists, and when, after the parents were made, the final attempt on the
  leaf reports already-exists (the race with another creator). It is idempotent: on a
  platform where a creation attempt that reported success or already-exists is followed by
  already-exists on the next attempt for the same name, and where merging the path does not
  change the native name, a call that succeeded is followed by a second successful call.
\<close>

theorem mkdir_recursive_idempotent:
  "(APR_STATUS_IS_EEXIST (fst (apr_dir_make env st path)) \<longrightarrow>
      fst (apr_dir_make_recursive env st path) = APR_SUCCESS) \<and>
   (APR_STATUS_IS_ENOENT (fst (apr_dir_make env st path)) \<and>
    apr_filepath_merge env path = (APR_SUCCESS, dir) \<and>
    (fst (dir_make_parent env (snd (apr_dir_make env st path)) dir) = APR_SUCCESS
     \<or> APR_STATUS_IS_EEXIST (fst (dir_make_parent env (snd (apr_dir_make env st path)) dir))) \<and>
    APR_STATUS_IS_EEXIST
      (fst (apr_dir_make env
              (snd (dir_make_parent env (snd (apr_dir_make env st path)) dir)) dir)) \<longrightarrow>
      fst (apr_dir_make_recursive env st path) = APR_SUCCESS) \<and>
   ((\<forall>tr w.
       mk_status (CreateDirectoryW env (tr @ [Call_CreateDirectoryW w])) = APR_SUCCESS
       \<or> APR_STATUS_IS_EEXIST (mk_status (CreateDirectoryW env (tr @ [Call_CreateDirectoryW w])))
       \<longrightarrow> APR_STATUS_IS_EEXIST
             (mk_status (CreateDirectoryW env
                (tr @ [Call_CreateDirectoryW w, Call_CreateDirectoryW w])))) \<and>
    (\<forall>d. apr_filepath_merge env path = (APR_SUCCESS, d)
       \<longrightarrow> utf8_to_unicode_path env d = utf8_to_unicode_path env path) \<and>
    fst (apr_dir_make_recursive env st path) = APR_SUCCESS \<longrightarrow>
      fst (apr_dir_make_recursive env (snd (apr_dir_make_recursive env st path)) path)
        = APR_SUCCESS)"
proof (intro conjI impI)
  assume "APR_STATUS_IS_EEXIST (fst (apr_dir_make env st path))"
  then show "fst (apr_dir_make_recursive env st path) = APR_SUCCESS"
    by (rule whole_path_exists)
next
  assume a: "APR_STATUS_IS_ENOENT (fst (apr_dir_make env st path)) \<and>
    apr_filepath_merge env path = (APR_SUCCESS, dir) \<and>
    (fst (dir_make_parent env (snd (apr_dir_make env st path)) dir) = APR_SUCCESS
     \<or> APR_STATUS_IS_EEXIST (fst (dir_make_parent env (snd (apr_dir_make env st path)) dir))) \<and>
    APR_STATUS_IS_EEXIST
      (fst (apr_dir_make env
              (snd (dir_make_parent env (snd (apr_dir_make env st path)) dir)) dir))"
  show "fst (apr_dir_make_recursive env st path) = APR_SUCCESS"
    using a final_step_exists [of env st path dir
        "fst (dir_make_parent env (snd (apr_dir_make env st path)) dir)"
        "snd (dir_make_parent env (snd (apr_dir_make env st path)) dir)"]
    by simp
next
  assume a: "(\<forall>tr w.
       mk_status (CreateDirectoryW env (tr @ [Call_CreateDirectoryW w])) = APR_SUCCESS
       \<or> APR_STATUS_IS_EEXIST (mk_status (CreateDirectoryW env (tr @ [Call_CreateDirectoryW w])))
       \<longrightarrow> APR_STATUS_IS_EEXIST
             (mk_status (CreateDirectoryW env
                (tr @ [Call_CreateDirectoryW w, Call_CreateDirectoryW w])))) \<and>
    (\<forall>d. apr_filepath_merge env path = (APR_SUCCESS, d)
       \<longrightarrow> utf8_to_unicode_path env d = utf8_to_unicode_path env path) \<and>
    fst (apr_dir_make_recursive env st path) = APR_SUCCESS"
  show "fst (apr_dir_make_recursive env (snd (apr_dir_make_recursive env st path)) path)
          = APR_SUCCESS"
    by (rule second_call_succeeds) (use a in blast)+
qed

lemma sim_mkdir_persists:
  "mk_status (sim_mkdir (tr @ [Call_CreateDirectoryW w])) = APR_SUCCESS
   \<or> APR_STATUS_IS_EEXIST (mk_status (sim_mkdir (tr @ [Call_CreateDirectoryW w])))
   \<Longrightarrow> APR_STATUS_IS_EEXIST
         (mk_status (sim_mkdir (tr @ [Call_CreateDirectoryW w, Call_CreateDirectoryW w])))"
  by (auto simp: sim_mkdir_def sim_mkdir_step_def mk_status_def apr_get_os_error_def
        APR_FROM_OS_ERROR_def APR_STATUS_IS_EEXIST_def Let_def split: if_splits)

lemma sim_merge_same:
  "utf8_to_unicode_path fs_sim (snd (apr_filepath_merge fs_sim p)) = utf8_to_unicode_path fs_sim p"
  by (simp add: fs_sim_def sim_wide_def)

lemma race_first_run:
  "APR_STATUS_IS_ENOENT (fst (apr_dir_make race_env st_init ''a/b'')) \<and>
   apr_filepath_merge race_env ''a/b'' = (APR_SUCCESS, [CHR ''a'', CHR 0x5C, CHR ''b'']) \<and>
   fst (dir_make_parent race_env (snd (apr_dir_make race_env st_init ''a/b''))
          [CHR ''a'', CHR 0x5C, CHR ''b'']) = APR_SUCCESS \<and>
   APR_STATUS_IS_EEXIST
     (fst (apr_dir_make race_env
             (snd (dir_make_parent race_env (snd (apr_dir_make race_env st_init ''a/b''))
                     [CHR ''a'', CHR 0x5C, CHR ''b'']))
             [CHR ''a'', CHR 0x5C, CHR ''b'']))"
  by code_simp

lemma sim_first_run:
  "fst (apr_dir_make_recursive fs_sim st_init ''a/b'') = APR_SUCCESS \<and>
   calls (snd (apr_dir_make_recursive fs_sim st_init ''a/b'')) =
     [Call_CreateDirectoryW [97, 92, 98], Call_CreateDirectoryW [97],
      Call_CreateDirectoryW [97, 92, 98]] \<and>
   APR_STATUS_IS_EEXIST
     (fst (apr_dir_make fs_sim (snd (apr_dir_make_recursive fs_sim st_init ''a/b'')) ''a/b''))"
  by code_simp

theorem mkdir_recursive_idempotent_witness:
  "fst (apr_dir_make_recursive fs_sim st_init ''a/b'') = APR_SUCCESS \<and>
   calls (snd (apr_dir_make_recursive fs_sim st_init ''a/b'')) =
     [Call_CreateDirectoryW [97, 92, 98], Call_CreateDirectoryW [97],
      Call_CreateDirectoryW [97, 92, 98]] \<and>
   fst (apr_dir_make_recursive fs_sim
          (snd (apr_dir_make_recursive fs_sim st_init ''a/b'')) ''a/b'') = APR_SUCCESS \<and>
   APR_STATUS_IS_EEXIST
     (fst (apr_dir_make race_env
             (snd (dir_make_parent race_env (snd (apr_dir_make race_env st_init ''a/b''))
                     [CHR ''a'', CHR 0x5C, CHR ''b'']))
             [CHR ''a'', CHR 0x5C, CHR ''b''])) \<and>
   fst (apr_dir_make_recursive race_env st_init ''a/b'') = APR_SUCCESS"
proof -
  have p: "\<forall>tr w.
       mk_status (CreateDirectoryW fs_sim (tr @ [Call_CreateDirectoryW w])) = APR_SUCCESS
       \<or> APR_STATUS_IS_EEXIST
            (mk_status (CreateDirectoryW fs_sim (tr @ [Call_CreateDirectoryW w])))
       \<longrightarrow> APR_STATUS_IS_EEXIST
             (mk_status (CreateDirectoryW fs_sim
                (tr @ [Call_CreateDirectoryW w, Call_CreateDirectoryW w])))"
    using sim_mkdir_persists by (simp add: fs_sim_def)
  have m: "\<forall>d. apr_filepath_merge fs_sim ''a/b'' = (APR_SUCCESS, d)
       \<longrightarrow> utf8_to_unicode_path fs_sim d = utf8_to_unicode_path fs_sim ''a/b''"
    using sim_merge_same [of "''a/b''"] by auto
  have second: "fst (apr_dir_make_recursive fs_sim
          (snd (apr_dir_make_recursive fs_sim st_init ''a/b'')) ''a/b'') = APR_SUCCESS"
    using mkdir_recursive_idempotent [of fs_sim st_init "''a/b''"] p m sim_first_run
    by blast
  have race: "fst (apr_dir_make_recursive race_env st_init ''a/b'') = APR_SUCCESS"
    using mkdir_recursive_idempotent
            [of race_env st_init "''a/b''" "[CHR ''a'', CHR 0x5C, CHR ''b'']"]
          race_first_run
    by blast
  show ?thesis using second race sim_first_run race_first_run by simp
qed

section \<open>Properties of the metadata resolver\<close>

lemma or_and_zero: "((v OR c) AND b = 0) = (v AND b = 0 \<and> c AND b = (0::'a::len word))"
  by (auto simp: bit_eq_iff bit_simps)

lemma or_self_covers: "(v OR c) AND v = (v::'a::len word)"
  by (auto simp: bit_eq_iff bit_simps)

lemma or_keeps: "c AND a = 0 \<Longrightarrow> (v OR c) AND a = v AND (a::'a::len word)"
  by (auto simp: bit_eq_iff bit_simps)

lemma grows_covers: "v' AND v = v \<Longrightarrow> v AND m = m \<Longrightarrow> v' AND m = (m::'a::len word)"
  by (metis and.assoc)

lemmas finfo_bits = APR_FINFO_LINK_def APR_FINFO_MTIME_def APR_FINFO_CTIME_def
  APR_FINFO_ATIME_def APR_FINFO_SIZE_def APR_FINFO_CSIZE_def APR_FINFO_DEV_def
  APR_FINFO_INODE_def APR_FINFO_NLINK_def APR_FINFO_TYPE_def APR_FINFO_USER_def
  APR_FINFO_GROUP_def APR_FINFO_UPROT_def APR_FINFO_GPROT_def APR_FINFO_WPROT_def
  APR_FINFO_NAME_def APR_FINFO_MIN_def APR_FINFO_IDENT_def APR_FINFO_OWNER_def
  APR_FINFO_PROT_def

lemma more_step_refl: "more_step f f"
  by (simp add: more_step_def)

lemma more_step_trans: "more_step f g \<Longrightarrow> more_step g h \<Longrightarrow> more_step f h"
  unfolding more_step_def by (metis and.assoc)

lemma guess_step: "more_step f (snd (guess_protection_bits f w))"
  by (simp add: more_step_def guess_protection_bits_def Let_def unset_fields_clear_def
        or_and_zero or_keeps finfo_bits or_self_covers)

lemma set_user_step:
  "more_step f (f \<lparr> fi_user := u, fi_valid := fi_valid f OR APR_FINFO_USER \<rparr>)"
  by (simp add: more_step_def unset_fields_clear_def
        or_and_zero or_keeps finfo_bits or_self_covers)

lemma set_group_step:
  "more_step f (f \<lparr> fi_group := u, fi_valid := fi_valid f OR APR_FINFO_GROUP \<rparr>)"
  by (simp add: more_step_def unset_fields_clear_def
        or_and_zero or_keeps finfo_bits or_self_covers)

lemma set_csize_step:
  "more_step f (f \<lparr> fi_csize := u, fi_valid := fi_valid f OR APR_FINFO_CSIZE \<rparr>)"
  by (simp add: more_step_def unset_fields_clear_def
        or_and_zero or_keeps finfo_bits or_self_covers)

lemma convert_prot_scopes:
  "convert_prot acc prot_scope_user AND 0x070 = 0"
  "convert_prot acc prot_scope_user AND 0x007 = 0"
  "convert_prot acc prot_scope_group AND 0x700 = 0"
  "convert_prot acc prot_scope_group AND 0x007 = 0"
  "convert_prot acc prot_scope_world AND 0x700 = 0"
  "convert_prot acc prot_scope_world AND 0x070 = 0"
  by (simp_all add: convert_prot_def prot_scope_user_def prot_scope_group_def
       prot_scope_world_def Let_def APR_FPROT_WEXECUTE_def APR_FPROT_WWRITE_def
       APR_FPROT_WREAD_def)

lemma rights_user_step:
  "more_step f (fst (effective_rights env st f d t sid prot_scope_user APR_FINFO_UPROT))"
  by (simp add: effective_rights_def Let_def more_step_def unset_fields_clear_def
        convert_prot_scopes or_and_zero or_keeps finfo_bits or_self_covers)

lemma rights_group_step:
  "more_step f (fst (effective_rights env st f d t sid prot_scope_group APR_FINFO_GPROT))"
  by (simp add: effective_rights_def Let_def more_step_def unset_fields_clear_def
        convert_prot_scopes or_and_zero or_keeps finfo_bits or_self_covers)

lemma rights_world_step:
  "more_step f (fst (effective_rights env st f d t sid prot_scope_world APR_FINFO_WPROT))"
  by (simp add: effective_rights_def Let_def more_step_def unset_fields_clear_def
        convert_prot_scopes or_and_zero or_keeps finfo_bits or_self_covers)

lemma rights_cond_step:
  "more_step f (fst (if c then effective_rights env st f d t sid prot_scope_user APR_FINFO_UPROT
                     else (f, st')))"
  "more_step f (fst (if c then effective_rights env st f d t sid prot_scope_group APR_FINFO_GPROT
                     else (f, st')))"
  "more_step f (fst (if c then effective_rights env st f d t sid prot_scope_world APR_FINFO_WPROT
                     else (f, st')))"
  by (simp_all add: rights_user_step rights_group_step rights_world_step more_step_refl)

lemma finds_issue [simp]: "\<not> is_find_call c \<Longrightarrow> finds (issue c st) = finds st"
  by (simp add: finds_def issue_def)

lemma finds_worldid [simp]: "finds (st \<lparr> worldid := x \<rparr>) = finds st"
  by (simp add: finds_def)

lemma not_find [simp]:
  "\<not> is_find_call Call_AllocateAndInitializeSid"
  "\<not> is_find_call (Call_GetEffectiveRightsFromAclW a b c)"
  "\<not> is_find_call (Call_GetNamedSecurityInfoW w d)"
  "\<not> is_find_call (Call_GetSecurityInfo h d)"
  "\<not> is_find_call (Call_GetFileInformationByHandleEx h)"
  "\<not> is_find_call (Call_GetCompressedFileSizeW w)"
  "\<not> is_find_call (Call_apr_file_flush h)"
  "\<not> is_find_call (Call_GetFileSizeEx h)"
  "\<not> is_find_call (Call_GetFileInformationByHandle h)"
  "\<not> is_find_call (Call_GetFileType h)"
  "\<not> is_find_call (Call_apr_file_open n fl)"
  "\<not> is_find_call (Call_apr_file_close h)"
  "\<not> is_find_call (Call_GetFullPathNameW w)"
  "\<not> is_find_call (Call_GetFileAttributesExW w)"
  "\<not> is_find_call Call_FindClose"
  "\<not> is_find_call Call_FindNextFileW"
  by (simp_all add: is_find_call_def)

lemma rights_finds [simp]:
  "finds (snd (effective_rights env st f d t sid sc b)) = finds st"
  by (simp add: effective_rights_def Let_def)

lemma resolve_prot_props:
  "more_step f (fst (resolve_prot env st f w d)) \<and>
   finds (snd (resolve_prot env st f w d)) = finds st"
proof -
  define st1 where "st1 = (if w AND APR_FINFO_WPROT \<noteq> 0 \<and> worldid st = 0
                 then let s = issue Call_AllocateAndInitializeSid st;
                          r = AllocateAndInitializeSid env (calls s)
                      in s \<lparr> worldid := (if as_ok r then as_sid r else 0) \<rparr>
                 else st)"
  define r1 where "r1 = (if w AND APR_FINFO_UPROT \<noteq> 0 \<and> fi_valid f AND APR_FINFO_USER \<noteq> 0
             then effective_rights env st1 f d TRUSTEE_IS_USER (fi_user f)
                    prot_scope_user APR_FINFO_UPROT
             else (f, st1))"
  define r2 where "r2 = (if w AND APR_FINFO_GPROT \<noteq> 0 \<and> fi_valid (fst r1) AND APR_FINFO_GROUP \<noteq> 0
             then effective_rights env (snd r1) (fst r1) d TRUSTEE_IS_GROUP (fi_group (fst r1))
                    prot_scope_group APR_FINFO_GPROT
             else (fst r1, snd r1))"
  define r3 where "r3 = (if w AND APR_FINFO_WPROT \<noteq> 0 \<and> worldid (snd r2) \<noteq> 0
         then effective_rights env (snd r2) (fst r2) d TRUSTEE_IS_WELL_KNOWN_GROUP
                (worldid (snd r2)) prot_scope_world APR_FINFO_WPROT
         else (fst r2, snd r2))"
  have eq: "resolve_prot env st f w d = r3"
    by (simp add: resolve_prot_def r3_def r2_def r1_def st1_def Let_def split: prod.splits)
  have m1: "more_step f (fst r1)" unfolding r1_def by (rule rights_cond_step)
  have m2: "more_step (fst r1) (fst r2)" unfolding r2_def by (rule rights_cond_step)
  have m3: "more_step (fst r2) (fst r3)" unfolding r3_def by (rule rights_cond_step)
  have f0: "finds st1 = finds st" by (simp add: st1_def Let_def)
  have f1: "finds (snd r1) = finds st1" by (simp add: r1_def)
  have f2: "finds (snd r2) = finds (snd r1)" by (simp add: r2_def)
  have f3: "finds (snd r3) = finds (snd r2)" by (simp add: r3_def)
  show ?thesis unfolding eq using m1 m2 m3 f0 f1 f2 f3 by (auto intro: more_step_trans)
qed

lemma security_apply_props:
  "more_step f (fst (security_apply env st f w us gr da)) \<and>
   finds (snd (security_apply env st f w us gr da)) = finds st"
proof -
  define f1 where "f1 = (if us \<noteq> 0
                    then f \<lparr> fi_user := us, fi_valid := fi_valid f OR APR_FINFO_USER \<rparr>
                    else f)"
  define f2 where "f2 = (if gr \<noteq> 0
                    then f1 \<lparr> fi_group := gr, fi_valid := fi_valid f1 OR APR_FINFO_GROUP \<rparr>
                    else f1)"
  have m1: "more_step f f1" by (simp add: f1_def set_user_step more_step_refl)
  have m2: "more_step f1 f2" by (simp add: f2_def set_group_step more_step_refl)
  have m12: "more_step f f2" using m1 m2 by (rule more_step_trans)
  have eq: "security_apply env st f w us gr da =
      (if da \<noteq> 0 then resolve_prot env st f2 w da
       else if w AND APR_FINFO_PROT \<noteq> 0 then (snd (guess_protection_bits f2 w), st)
       else (f2, st))"
    by (simp add: security_apply_def f1_def f2_def Let_def)
  show ?thesis
    unfolding eq
    using m12 resolve_prot_props [of f2 env st w da] guess_step [of f2 w]
    by (auto intro: more_step_trans)
qed

lemma security_props:
  assumes "more_finfo_security env st f u w = Inr (f', st')"
  shows "more_step f f' \<and> finds st' = finds st"
proof (cases "w AND (APR_FINFO_PROT OR APR_FINFO_OWNER) \<noteq> 0")
  case False
  then show ?thesis using assms by (simp add: more_finfo_security_def more_step_refl)
next
  case True
  then obtain c where c: "security_call u (security_information w) = Some c"
    using assms by (auto simp: more_finfo_security_def split: option.splits)
  have nf: "\<not> is_find_call c"
    using c by (cases u) (auto simp: security_call_def)
  have "\<exists>us gr da. security_apply env (issue c st) f w us gr da = (f', st')"
    using assms True c by (auto simp: more_finfo_security_def Let_def)
  then obtain us gr da where "(f', st') = security_apply env (issue c st) f w us gr da"
    by metis
  then show ?thesis
    using security_apply_props [of f env "issue c st" w us gr da] nf
    by (metis finds_issue fst_conv snd_conv)
qed

lemma csize_props:
  assumes "more_finfo_csize env st f u w = Inr (f', st')"
  shows "more_step f f' \<and> finds st' = finds st"
  using assms set_csize_step [of f] more_step_refl [of f]
  by (cases u) (auto simp: more_finfo_csize_def Let_def split: if_splits)

lemma more_finfo_props:
  "more_step f (fst (snd (more_finfo env st f u w))) \<and>
   finds (snd (snd (more_finfo env st f u w))) = finds st"
proof (cases "apr_os_level_nt env")
  case False
  then show ?thesis by (simp add: more_finfo_def guess_step)
next
  case nt: True
  show ?thesis
  proof (cases "more_finfo_security env st f u w")
    case (Inl e)
    then show ?thesis using nt by (simp add: more_finfo_def more_step_refl)
  next
    case (Inr p)
    obtain f1 st1 where p: "p = (f1, st1)" by (cases p)
    note s1 = security_props [OF Inr [unfolded p]]
    show ?thesis
    proof (cases "more_finfo_csize env st1 f1 u w")
      case (Inl e)
      then show ?thesis using nt Inr p s1 by (simp add: more_finfo_def)
    next
      case r2: (Inr q)
      obtain f2 st2 where q: "q = (f2, st2)" by (cases q)
      note s2 = csize_props [OF r2 [unfolded q]]
      show ?thesis
        using nt Inr p r2 q s1 s2 by (auto simp: more_finfo_def intro: more_step_trans)
    qed
  qed
qed

lemma more_finfo_status:
  assumes "\<forall>n. u \<noteq> MORE_OF_FSPEC n"
  shows "fst (more_finfo env st f u w) = APR_SUCCESS \<or> fst (more_finfo env st f u w) = APR_INCOMPLETE"
proof -
  have a: "\<And>s g. \<exists>p. more_finfo_security env s g u w = Inr p"
    using assms by (cases u) (auto simp: more_finfo_security_def security_call_def Let_def)
  have b: "\<And>s g. \<exists>p. more_finfo_csize env s g u w = Inr p"
    using assms by (cases u) (auto simp: more_finfo_csize_def Let_def)
  obtain f1 s1 where 1: "more_finfo_security env st f u w = Inr (f1, s1)"
    using a by (metis prod.collapse)
  obtain f2 s2 where 2: "more_finfo_csize env s1 f1 u w = Inr (f2, s2)"
    using b by (metis prod.collapse)
  show ?thesis
    using 1 2 by (simp add: more_finfo_def guess_protection_bits_def Let_def)
qed

lemma grows_zero: "v' AND v = v \<Longrightarrow> v' AND b = 0 \<Longrightarrow> v AND b = (0::'a::len word)"
  by (metis and.assoc and.commute and_zero_eq)

lemma more_finfo_covers:
  assumes "covers (fi_valid f) m"
  shows "covers (fi_valid (fst (snd (more_finfo env st f u w)))) m"
proof -
  have "fi_valid (fst (snd (more_finfo env st f u w))) AND fi_valid f = fi_valid f"
    using more_finfo_props [of f env st u w] by (simp add: more_step_def)
  then show ?thesis using assms unfolding covers_def by (rule grows_covers)
qed

lemma more_finfo_ufc:
  "unset_fields_clear f \<Longrightarrow> unset_fields_clear (fst (snd (more_finfo env st f u w)))"
  using more_finfo_props [of f env st u w] by (simp add: more_step_def)

lemma more_finfo_type_clear:
  assumes "type_clear f"
  shows "type_clear (fst (snd (more_finfo env st f u w)))"
proof -
  have g: "fi_valid (fst (snd (more_finfo env st f u w))) AND fi_valid f = fi_valid f"
    and t: "fi_filetype (fst (snd (more_finfo env st f u w))) = fi_filetype f"
    using more_finfo_props [of f env st u w] by (simp_all add: more_step_def)
  show ?thesis
    using assms t grows_zero [OF g] by (auto simp: type_clear_def)
qed

lemma more_finfo_name_bit:
  "fi_valid (fst (snd (more_finfo env st f u w))) AND APR_FINFO_NAME = fi_valid f AND APR_FINFO_NAME"
  using more_finfo_props [of f env st u w] by (simp add: more_step_def)

lemma reparse_finddata:
  "reparse_point_is_link env st a r True fname = 
     (a AND FILE_ATTRIBUTE_REPARSE_POINT \<noteq> 0 \<and> IsReparseTagNameSurrogate r, st)"
  by (simp add: reparse_point_is_link_def)

lemma reparse_unsafe:
  "test_safe_name env fname \<noteq> APR_SUCCESS \<Longrightarrow>
     reparse_point_is_link env st a r fd fname =
       (fd \<and> a AND FILE_ATTRIBUTE_REPARSE_POINT \<noteq> 0 \<and> IsReparseTagNameSurrogate r, st)"
  by (simp add: reparse_point_is_link_def)

lemma fillin_unsafe:
  "test_safe_name env fname \<noteq> APR_SUCCESS \<Longrightarrow>
     snd (snd (fillin_fileinfo env st wi bh fd fname w)) = st"
  by (simp add: fillin_fileinfo_def Let_def reparse_unsafe split: prod.splits)

lemma fillin_finddata:
  "snd (snd (fillin_fileinfo env st wi bh True fname w)) = st"
  by (simp add: fillin_fileinfo_def Let_def reparse_finddata split: prod.splits)

lemma fillin_props:
  "covers (fi_valid (fst (snd (fillin_fileinfo env st wi bh fd fname w)))) APR_FINFO_MIN \<and>
   (\<not> bh \<longrightarrow> covers (fi_valid (fst (snd (fillin_fileinfo env st wi bh fd fname w)))) APR_FINFO_LINK) \<and>
   unset_fields_clear (fst (snd (fillin_fileinfo env st wi bh fd fname w))) \<and>
   type_clear (fst (snd (fillin_fileinfo env st wi bh fd fname w))) \<and>
   fi_valid (fst (snd (fillin_fileinfo env st wi bh fd fname w))) AND APR_FINFO_NAME = 0"
  by (simp add: fillin_fileinfo_def Let_def covers_def unset_fields_clear_def type_clear_def
        finfo_zero_def finfo_bits or_and_zero APR_FREADONLY_def split: prod.splits)

lemma os_error_status:
  "apr_get_os_error e \<noteq> APR_INCOMPLETE" "e \<noteq> 0 \<Longrightarrow> apr_get_os_error e \<noteq> APR_SUCCESS"
  by (simp_all add: apr_get_os_error_def APR_FROM_OS_ERROR_def)

lemma or_both_covers: "v AND m = m \<Longrightarrow> (v OR c) AND (m OR c) = m OR (c::'a::len word)"
  by (auto simp: bit_eq_iff bit_simps)

lemma failure_codes:
  assumes "failures_have_codes env"
  shows "\<not> gi_ok (GetFileInformationByHandle env tr) \<Longrightarrow>
           apr_get_os_error (gi_lasterror (GetFileInformationByHandle env tr)) \<noteq> APR_SUCCESS"
    and "\<not> gs_ok (GetFileSizeEx env tr) \<Longrightarrow>
           apr_get_os_error (gs_lasterror (GetFileSizeEx env tr)) \<noteq> APR_SUCCESS"
    and "\<not> ga_ok (GetFileAttributesExW env tr) \<Longrightarrow>
           apr_get_os_error (ga_lasterror (GetFileAttributesExW env tr)) \<noteq> APR_SUCCESS"
    and "ff_entries (FindFirstFileExW env tr) = [] \<Longrightarrow>
           apr_get_os_error (ff_lasterror (FindFirstFileExW env tr)) \<noteq> APR_SUCCESS"
    and "op_status (apr_file_open env tr) \<noteq> APR_INCOMPLETE"
    and "apr_file_flush env tr \<noteq> APR_INCOMPLETE"
  using assms unfolding failures_have_codes_def
  by (simp_all add: os_error_status)

lemma handle_fill_props:
  "covers (fi_valid (handle_fill FI lk w)) APR_FINFO_MIN \<and>
   unset_fields_clear (handle_fill FI lk w) \<and>
   fi_valid (handle_fill FI lk w) AND APR_FINFO_TYPE \<noteq> 0 \<and>
   fi_valid (handle_fill FI lk w) AND APR_FINFO_NAME = 0"
  by (simp add: handle_fill_def Let_def covers_def unset_fields_clear_def
        finfo_zero_def finfo_bits or_and_zero APR_FREADONLY_def)

lemma handle_refine_props:
  "fi_valid (handle_refine_type f ft) = fi_valid f \<and>
   (unset_fields_clear f \<longrightarrow> unset_fields_clear (handle_refine_type f ft))"
  by (simp add: handle_refine_type_def unset_fields_clear_def)

lemma handle_ident_props:
  assumes "covers (fi_valid f) APR_FINFO_MIN" "unset_fields_clear f"
    "fi_valid f AND APR_FINFO_TYPE \<noteq> 0" "fi_valid f AND APR_FINFO_NAME = 0"
  shows "covers (fi_valid (handle_ident f tf FI))
           (APR_FINFO_MIN OR APR_FINFO_IDENT OR APR_FINFO_NLINK) \<and>
         unset_fields_clear (handle_ident f tf FI) \<and>
         type_clear (handle_ident f tf FI) \<and>
         fi_valid (handle_ident f tf FI) AND APR_FINFO_NAME = 0"
proof -
  have c: "covers (fi_valid (handle_ident f tf FI))
           (APR_FINFO_MIN OR APR_FINFO_IDENT OR APR_FINFO_NLINK)"
    using assms(1) by (simp add: covers_def handle_ident_def or_both_covers)
  have u: "unset_fields_clear (handle_ident f tf FI)"
    using assms(2)
    by (simp add: handle_ident_def unset_fields_clear_def or_and_zero finfo_bits)
  have t: "type_clear (handle_ident f tf FI)"
    using assms(3) by (simp add: handle_ident_def type_clear_def or_and_zero)
  have n: "fi_valid (handle_ident f tf FI) AND APR_FINFO_NAME = 0"
    using assms(4) by (simp add: handle_ident_def or_and_zero finfo_bits)
  show ?thesis using c u t n by simp
qed

lemma info_get_size_only:
  assumes "failures_have_codes env"
    and "fst (apr_file_info_get env st finfo APR_FINFO_SIZE thefile) = APR_SUCCESS"
  shows "\<exists>q. fst (snd (apr_file_info_get env st finfo APR_FINFO_SIZE thefile)) =
           finfo \<lparr> fi_pool := fl_pool thefile, fi_fname := Some (fl_fname thefile),
                   fi_size := q, fi_valid := APR_FINFO_SIZE \<rparr>"
proof -
  define st0 where "st0 = (if fl_buffered thefile
                 then issue (Call_apr_file_flush (fl_filehand thefile)) st else st)"
  define frv where "frv = (if fl_buffered thefile then apr_file_flush env (calls st0)
                           else APR_SUCCESS)"
  define st1 where "st1 = issue (Call_GetFileSizeEx (fl_filehand thefile)) st0"
  define r where "r = GetFileSizeEx env (calls st1)"
  have eq: "apr_file_info_get env st finfo APR_FINFO_SIZE thefile =
      (if frv \<noteq> APR_SUCCESS then (frv, finfo, st0)
       else if \<not> gs_ok r then (apr_get_os_error (gs_lasterror r), finfo, st1)
       else (APR_SUCCESS,
             finfo \<lparr> fi_pool := fl_pool thefile, fi_fname := Some (fl_fname thefile),
                     fi_size := gs_QuadPart r, fi_valid := APR_FINFO_SIZE \<rparr>, st1))"
    unfolding apr_file_info_get_def Let_def r_def st1_def frv_def st0_def by simp
  have 1: "frv = APR_SUCCESS"
    using assms(2) unfolding eq by (cases "frv = APR_SUCCESS") simp_all
  have 2: "gs_ok r"
    using assms(2) 1 failure_codes(2) [OF assms(1), of "calls st1"]
    unfolding eq r_def by (cases "gs_ok (GetFileSizeEx env (calls st1))") simp_all
  show ?thesis unfolding eq using 1 2 by auto
qed

lemma info_get_full:
  assumes "wanted \<noteq> APR_FINFO_SIZE" and "failures_have_codes env"
    and "fst (apr_file_info_get env st finfo wanted thefile) = APR_SUCCESS
         \<or> fst (apr_file_info_get env st finfo wanted thefile) = APR_INCOMPLETE"
  shows "covers (fi_valid (fst (snd (apr_file_info_get env st finfo wanted thefile))))
           (APR_FINFO_MIN OR APR_FINFO_IDENT OR APR_FINFO_NLINK) \<and>
         unset_fields_clear (fst (snd (apr_file_info_get env st finfo wanted thefile))) \<and>
         type_clear (fst (snd (apr_file_info_get env st finfo wanted thefile))) \<and>
         fi_valid (fst (snd (apr_file_info_get env st finfo wanted thefile))) AND APR_FINFO_NAME = 0"
proof -
  define st0 where "st0 = (if fl_buffered thefile
                 then issue (Call_apr_file_flush (fl_filehand thefile)) st else st)"
  define st1 where "st1 = issue (Call_GetFileInformationByHandle (fl_filehand thefile)) st0"
  define FI where "FI = gi_info (GetFileInformationByHandle env (calls st1))"
  define lk where "lk = (if wanted AND APR_FINFO_LINK \<noteq> 0
                          then reparse_point_is_link env st1 (bh_dwFileAttributes FI)
                                 0 False (fl_fname thefile)
                          else (False, st1))"
  define f4 where "f4 = handle_fill FI (fst lk) wanted"
  define st3 where "st3 = (if fi_filetype f4 = APR_REG
                           then issue (Call_GetFileType (fl_filehand thefile)) (snd lk)
                           else snd lk)"
  define f5 where "f5 = (if fi_filetype f4 = APR_REG
                              then handle_refine_type f4 (GetFileType env (calls st3))
                              else f4)"
  define f6 where "f6 = handle_ident f5 thefile FI"
  define w1 where "w1 = wanted AND NOT (fi_valid f6)"
  have flush: "(if fl_buffered thefile then apr_file_flush env (calls st0) else APR_SUCCESS)
                 = APR_SUCCESS"
    using assms(3) failure_codes(6) [OF assms(2), of "calls st0"]
    by (auto simp: apr_file_info_get_def Let_def st0_def split: if_splits)
  have ok: "gi_ok (GetFileInformationByHandle env (calls st1))"
    using assms(1,3) flush failure_codes(1) [OF assms(2), of "calls st1"]
    by (auto simp: apr_file_info_get_def Let_def st0_def st1_def os_error_status
          split: if_splits)
  have eq: "apr_file_info_get env st finfo wanted thefile =
              (if w1 AND NOT APR_FINFO_NAME \<noteq> 0
               then more_finfo env st3 f6 (MORE_OF_HANDLE (fl_filehand thefile)) w1
               else (APR_SUCCESS, f6, st3))"
    using assms(1) flush ok
    unfolding apr_file_info_get_def Let_def w1_def f6_def f5_def st3_def f4_def lk_def
      FI_def st1_def st0_def
    by simp
  have p5: "covers (fi_valid f5) APR_FINFO_MIN \<and> unset_fields_clear f5 \<and>
            fi_valid f5 AND APR_FINFO_TYPE \<noteq> 0 \<and> fi_valid f5 AND APR_FINFO_NAME = 0"
    using handle_fill_props [of FI "fst lk" wanted]
          handle_refine_props [of f4 "GetFileType env (calls st3)"]
    by (simp add: f5_def f4_def)
  have p6: "covers (fi_valid f6) (APR_FINFO_MIN OR APR_FINFO_IDENT OR APR_FINFO_NLINK) \<and>
         unset_fields_clear f6 \<and> type_clear f6 \<and> fi_valid f6 AND APR_FINFO_NAME = 0"
    unfolding f6_def using p5 by (intro handle_ident_props) simp_all
  show ?thesis
    unfolding eq using p6
    by (simp add: more_finfo_covers more_finfo_ufc more_finfo_type_clear more_finfo_name_bit)
qed

lemma info_get_finds:
  assumes "test_safe_name env (fl_fname thefile) \<noteq> APR_SUCCESS"
  shows "finds (snd (snd (apr_file_info_get env st finfo wanted thefile))) = finds st"
  using assms more_finfo_props
  by (simp add: apr_file_info_get_def Let_def reparse_unsafe)

lemma scan_stays_rejected:
  "rv = APR_EPATHWILD \<or> rv = APR_EBADPATH \<Longrightarrow>
     safe_name_scan f s rv = APR_EPATHWILD \<or> safe_name_scan f s rv = APR_EBADPATH"
  by (induction s arbitrary: rv) auto

lemma scan_wildcard:
  "has_wildcard s \<Longrightarrow> \<not> f (CHR ''*'') \<Longrightarrow> \<not> f (CHR ''?'') \<Longrightarrow>
     safe_name_scan f s rv = APR_EPATHWILD \<or> safe_name_scan f s rv = APR_EBADPATH"
proof (induction s arbitrary: rv)
  case Nil
  then show ?case by (simp add: has_wildcard_def)
next
  case (Cons c s)
  show ?case
  proof (cases "c = CHR ''*'' \<or> c = CHR ''?''")
    case True
    then show ?thesis
      using Cons.prems scan_stays_rejected [of APR_EPATHWILD f s] by auto
  next
    case False
    then have "has_wildcard s" using Cons.prems(1) by (auto simp: has_wildcard_def)
    then show ?thesis using Cons.IH Cons.prems by auto
  qed
qed

lemma test_safe_name_wildcard:
  assumes "has_wildcard name" "\<not> IS_FNCHAR env (CHR ''*'')" "\<not> IS_FNCHAR env (CHR ''?'')"
  shows "test_safe_name env name = APR_EPATHWILD \<or> test_safe_name env name = APR_EBADPATH"
proof -
  have alpha: "\<not> apr_isalpha (CHR ''*'')" "\<not> apr_isalpha (CHR ''?'')"
    by (simp_all add: apr_isalpha_def)
  have "has_wildcard (case name of
                     c # d # rest \<Rightarrow> if apr_isalpha c \<and> d = CHR '':'' then rest else name
                   | _ \<Rightarrow> name)"
    using assms(1) alpha by (auto simp: has_wildcard_def split: list.splits)
  then show ?thesis
    using assms(2,3) by (simp add: test_safe_name_def scan_wildcard)
qed

lemma info_get_size_status:
  assumes "failures_have_codes env"
  shows "fst (apr_file_info_get env st finfo APR_FINFO_SIZE thefile) \<noteq> APR_INCOMPLETE"
proof -
  define st0 where "st0 = (if fl_buffered thefile
                 then issue (Call_apr_file_flush (fl_filehand thefile)) st else st)"
  define frv where "frv = (if fl_buffered thefile then apr_file_flush env (calls st0)
                           else APR_SUCCESS)"
  define st1 where "st1 = issue (Call_GetFileSizeEx (fl_filehand thefile)) st0"
  define r where "r = GetFileSizeEx env (calls st1)"
  have eq: "apr_file_info_get env st finfo APR_FINFO_SIZE thefile =
      (if frv \<noteq> APR_SUCCESS then (frv, finfo, st0)
       else if \<not> gs_ok r then (apr_get_os_error (gs_lasterror r), finfo, st1)
       else (APR_SUCCESS,
             finfo \<lparr> fi_pool := fl_pool thefile, fi_fname := Some (fl_fname thefile),
                     fi_size := gs_QuadPart r, fi_valid := APR_FINFO_SIZE \<rparr>, st1))"
    unfolding apr_file_info_get_def Let_def r_def st1_def frv_def st0_def by simp
  have "frv \<noteq> APR_INCOMPLETE"
    using failure_codes(6) [OF assms, of "calls st0"] by (simp add: frv_def)
  then show ?thesis unfolding eq by (simp add: os_error_status)
qed

lemma ufc_filehand [simp]:
  "unset_fields_clear (f \<lparr> fi_filehand := h \<rparr>) = unset_fields_clear f"
  "unset_fields_clear (f \<lparr> fi_pool := p \<rparr>) = unset_fields_clear f"
  by (simp_all add: unset_fields_clear_def)

lemma type_clear_filehand [simp]:
  "type_clear (f \<lparr> fi_filehand := h \<rparr>) = type_clear f"
  "type_clear (f \<lparr> fi_pool := p \<rparr>) = type_clear f"
  by (simp_all add: type_clear_def)

lemma info_and_close_finds:
  "test_safe_name env (fl_fname thefile) \<noteq> APR_SUCCESS \<Longrightarrow>
     finds (snd (snd (info_and_close env st finfo wanted thefile))) = finds st"
  by (simp add: info_and_close_def Let_def info_get_finds)

lemma info_and_close_full:
  assumes "wanted \<noteq> APR_FINFO_SIZE" and "failures_have_codes env"
    and "fst (info_and_close env st finfo wanted thefile) = APR_SUCCESS
         \<or> fst (info_and_close env st finfo wanted thefile) = APR_INCOMPLETE"
  shows "answered_by_handle (fst (snd (info_and_close env st finfo wanted thefile))) \<and>
         fi_valid (fst (snd (info_and_close env st finfo wanted thefile))) AND APR_FINFO_NAME = 0"
  using info_get_full [OF assms(1,2), of st finfo thefile] assms(3)
  by (simp add: info_and_close_def Let_def answered_by_handle_def)

lemma info_and_close_size:
  assumes "failures_have_codes env"
  shows "fst (info_and_close env st finfo APR_FINFO_SIZE thefile) \<noteq> APR_INCOMPLETE \<and>
         (fst (info_and_close env st finfo APR_FINFO_SIZE thefile) = APR_SUCCESS \<longrightarrow>
            fi_valid (fst (snd (info_and_close env st finfo APR_FINFO_SIZE thefile)))
              = APR_FINFO_SIZE)"
  using info_get_size_status [OF assms, of st finfo thefile]
        info_get_size_only [OF assms, of st finfo thefile]
  by (auto simp: info_and_close_def Let_def)

lemma handle_covers_size:
  "covers v (APR_FINFO_MIN OR APR_FINFO_IDENT OR APR_FINFO_NLINK) \<Longrightarrow> covers v APR_FINFO_SIZE"
  unfolding covers_def
  by (rule grows_covers [where v = "APR_FINFO_MIN OR APR_FINFO_IDENT OR APR_FINFO_NLINK"])
     (simp_all add: finfo_bits)

lemma handle_covers_min:
  "covers v (APR_FINFO_MIN OR APR_FINFO_IDENT OR APR_FINFO_NLINK) \<Longrightarrow>
     covers v (APR_FINFO_ATIME OR APR_FINFO_CTIME OR APR_FINFO_MTIME OR APR_FINFO_SIZE)"
  unfolding covers_def
  by (rule grows_covers [where v = "APR_FINFO_MIN OR APR_FINFO_IDENT OR APR_FINFO_NLINK"])
     (simp_all add: finfo_bits)

lemma iac_summary:
  assumes sane: "failures_have_codes env"
    and st: "fst (info_and_close env s finfo w tf) = APR_SUCCESS
             \<or> fst (info_and_close env s finfo w tf) = APR_INCOMPLETE"
  shows "(w \<noteq> APR_FINFO_SIZE \<or> fst (info_and_close env s finfo w tf) = APR_INCOMPLETE \<longrightarrow>
            answered_by_handle (fst (snd (info_and_close env s finfo w tf))) \<and>
            fi_valid (fst (snd (info_and_close env s finfo w tf))) AND APR_FINFO_NAME = 0) \<and>
         (fst (info_and_close env s finfo w tf) = APR_SUCCESS \<longrightarrow>
            covers (fi_valid (fst (snd (info_and_close env s finfo w tf)))) APR_FINFO_SIZE)"
proof (cases "w = APR_FINFO_SIZE")
  case True
  show ?thesis
    using info_and_close_size [OF sane, of s finfo tf] st
    by (auto simp: True covers_def)
next
  case False
  show ?thesis
    using info_and_close_full [OF False sane st] handle_covers_size
    by (auto simp: answered_by_handle_def)
qed

lemma riq_props:
  assumes sane: "failures_have_codes env"
    and st: "fst (resolve_ident_query env st finfo fname wanted) = APR_SUCCESS
             \<or> fst (resolve_ident_query env st finfo fname wanted) = APR_INCOMPLETE"
  shows "(\<not> size_only wanted
          \<or> fst (resolve_ident_query env st finfo fname wanted) = APR_INCOMPLETE \<longrightarrow>
            answered_by_handle (fst (snd (resolve_ident_query env st finfo fname wanted))) \<and>
            fi_valid (fst (snd (resolve_ident_query env st finfo fname wanted)))
              AND APR_FINFO_NAME = 0) \<and>
         (fst (resolve_ident_query env st finfo fname wanted) = APR_SUCCESS \<longrightarrow>
            covers (fi_valid (fst (snd (resolve_ident_query env st finfo fname wanted))))
              APR_FINFO_SIZE)"
proof -
  define linkflag where "linkflag = (if wanted AND APR_FINFO_LINK \<noteq> 0 then APR_OPENLINK else 0)"
  define ctlflag where "ctlflag = (if wanted AND (APR_FINFO_PROT OR APR_FINFO_OWNER) \<noteq> 0
                     then APR_READCONTROL else 0)"
  define st1 where "st1 = issue (Call_apr_file_open fname (APR_OPENINFO OR linkflag OR ctlflag)) st"
  define o1 where "o1 = apr_file_open env (calls st1)"
  define st1b where "st1b = issue (Call_apr_file_open fname (APR_OPENINFO OR linkflag)) st1"
  define o2 where "o2 = apr_file_open env (calls st1b)"
  define w2 where "w2 = wanted AND NOT (APR_FINFO_PROT OR APR_FINFO_OWNER)"
  have eq: "resolve_ident_query env st finfo fname wanted =
      (if op_status o1 = APR_SUCCESS
         then info_and_close env st1 finfo wanted (op_file o1)
         else if APR_STATUS_IS_EACCES (op_status o1)
                 \<and> wanted AND (APR_FINFO_PROT OR APR_FINFO_OWNER) \<noteq> 0
         then if op_status o2 = APR_SUCCESS
                 then info_and_close env st1b finfo w2 (op_file o2)
                 else (op_status o2, finfo, st1b)
         else (op_status o1, finfo, st1))"
    unfolding resolve_ident_query_def Let_def o2_def st1b_def o1_def st1_def ctlflag_def
      linkflag_def w2_def by simp
  have ni: "op_status o1 \<noteq> APR_INCOMPLETE" "op_status o2 \<noteq> APR_INCOMPLETE"
    using failure_codes(5) [OF sane] by (simp_all add: o1_def o2_def)
  have so: "wanted = APR_FINFO_SIZE \<Longrightarrow> size_only wanted" "w2 = APR_FINFO_SIZE \<Longrightarrow> size_only wanted"
    by (simp_all add: size_only_def w2_def)
  consider (a) "op_status o1 = APR_SUCCESS"
    | (b) "op_status o1 \<noteq> APR_SUCCESS" "APR_STATUS_IS_EACCES (op_status o1)
                 \<and> wanted AND (APR_FINFO_PROT OR APR_FINFO_OWNER) \<noteq> 0" "op_status o2 = APR_SUCCESS"
    | (c) "op_status o1 \<noteq> APR_SUCCESS" "APR_STATUS_IS_EACCES (op_status o1)
                 \<and> wanted AND (APR_FINFO_PROT OR APR_FINFO_OWNER) \<noteq> 0" "op_status o2 \<noteq> APR_SUCCESS"
    | (d) "op_status o1 \<noteq> APR_SUCCESS" "\<not> (APR_STATUS_IS_EACCES (op_status o1)
                 \<and> wanted AND (APR_FINFO_PROT OR APR_FINFO_OWNER) \<noteq> 0)"
    by blast
  then show ?thesis
  proof cases
    case a
    then have q: "resolve_ident_query env st finfo fname wanted =
                    info_and_close env st1 finfo wanted (op_file o1)"
      by (simp add: eq)
    show ?thesis
      using iac_summary [OF sane, of st1 finfo wanted "op_file o1"] st so(1)
      unfolding q by blast
  next
    case b
    then have q: "resolve_ident_query env st finfo fname wanted =
                    info_and_close env st1b finfo w2 (op_file o2)"
      by (simp add: eq)
    show ?thesis
      using iac_summary [OF sane, of st1b finfo w2 "op_file o2"] st so(2)
      unfolding q by blast
  next
    case c
    then have "fst (resolve_ident_query env st finfo fname wanted) = op_status o2"
      by (simp add: eq)
    then show ?thesis using st c ni by simp
  next
    case d
    then have "fst (resolve_ident_query env st finfo fname wanted) = op_status o1"
      by (auto simp: eq)
    then show ?thesis using st d ni by simp
  qed
qed

lemma riq_finds:
  assumes "opens_keep_name env" "test_safe_name env fname \<noteq> APR_SUCCESS"
  shows "finds (snd (snd (resolve_ident_query env st finfo fname wanted))) = finds st"
proof -
  define linkflag where "linkflag = (if wanted AND APR_FINFO_LINK \<noteq> 0 then APR_OPENLINK else 0)"
  define ctlflag where "ctlflag = (if wanted AND (APR_FINFO_PROT OR APR_FINFO_OWNER) \<noteq> 0
                     then APR_READCONTROL else 0)"
  define st1 where "st1 = issue (Call_apr_file_open fname (APR_OPENINFO OR linkflag OR ctlflag)) st"
  define o1 where "o1 = apr_file_open env (calls st1)"
  define st1b where "st1b = issue (Call_apr_file_open fname (APR_OPENINFO OR linkflag)) st1"
  define o2 where "o2 = apr_file_open env (calls st1b)"
  define w2 where "w2 = wanted AND NOT (APR_FINFO_PROT OR APR_FINFO_OWNER)"
  have eq: "resolve_ident_query env st finfo fname wanted =
      (if op_status o1 = APR_SUCCESS
         then info_and_close env st1 finfo wanted (op_file o1)
         else if APR_STATUS_IS_EACCES (op_status o1)
                 \<and> wanted AND (APR_FINFO_PROT OR APR_FINFO_OWNER) \<noteq> 0
         then if op_status o2 = APR_SUCCESS
                 then info_and_close env st1b finfo w2 (op_file o2)
                 else (op_status o2, finfo, st1b)
         else (op_status o1, finfo, st1))"
    unfolding resolve_ident_query_def Let_def o2_def st1b_def o1_def st1_def ctlflag_def
      linkflag_def w2_def by simp
  have k: "\<And>tr fl. fl_fname (op_file (apr_file_open env (tr @ [Call_apr_file_open fname fl])))
             = fname"
    using assms(1) by (simp add: opens_keep_name_def)
  have n1: "fl_fname (op_file o1) = fname"
    using k [of "calls st"] by (simp add: o1_def st1_def issue_def)
  have n2: "fl_fname (op_file o2) = fname"
    using k [of "calls st1"] by (simp add: o2_def st1b_def issue_def)
  have f1: "finds st1 = finds st" "finds st1b = finds st"
    by (simp_all add: st1_def st1b_def)
  show ?thesis
    unfolding eq using f1 assms(2) n1 n2 by (simp add: info_and_close_finds)
qed

lemma covers_or [simp]: "covers v m \<Longrightarrow> covers (v OR c) m"
  unfolding covers_def by (auto simp: bit_eq_iff bit_simps)

lemma ufc_link:
  "unset_fields_clear f \<Longrightarrow> unset_fields_clear (f \<lparr> fi_valid := fi_valid f OR APR_FINFO_LINK \<rparr>)"
  by (simp add: unset_fields_clear_def or_and_zero)

lemma type_clear_or:
  "type_clear f \<Longrightarrow> type_clear (f \<lparr> fi_valid := fi_valid f OR c \<rparr>)"
  by (simp add: type_clear_def or_and_zero)

lemma resolve_ident_props:
  assumes sane: "failures_have_codes env"
    and st: "fst (resolve_ident env st finfo fname wanted) = APR_SUCCESS
             \<or> fst (resolve_ident env st finfo fname wanted) = APR_INCOMPLETE"
  shows "(\<not> size_only wanted
          \<or> fst (resolve_ident env st finfo fname wanted) = APR_INCOMPLETE \<longrightarrow>
            answered_by_handle (fst (snd (resolve_ident env st finfo fname wanted))) \<and>
            fi_valid (fst (snd (resolve_ident env st finfo fname wanted)))
              AND APR_FINFO_NAME = 0) \<and>
         (fst (resolve_ident env st finfo fname wanted) = APR_SUCCESS \<longrightarrow>
            covers (fi_valid (fst (snd (resolve_ident env st finfo fname wanted))))
              APR_FINFO_SIZE)"
proof -
  define q where "q = resolve_ident_query env st finfo fname wanted"
  have eq: "resolve_ident env st finfo fname wanted =
     (if fst q \<noteq> APR_SUCCESS \<and> fst q \<noteq> APR_INCOMPLETE then q
         else if wanted AND APR_FINFO_LINK \<noteq> 0
         then (fst q, (fst (snd q)) \<lparr> fi_valid := fi_valid (fst (snd q)) OR APR_FINFO_LINK \<rparr>,
               snd (snd q))
         else q)"
    by (simp add: resolve_ident_def q_def Let_def)
  have fq: "fst (resolve_ident env st finfo fname wanted) = fst q"
    unfolding eq by simp
  have stq: "fst q = APR_SUCCESS \<or> fst q = APR_INCOMPLETE"
    using st fq by simp
  note p = riq_props [OF sane, of st finfo fname wanted, folded q_def, OF stq]
  show ?thesis
  proof (cases "wanted AND APR_FINFO_LINK \<noteq> 0")
    case False
    then have "resolve_ident env st finfo fname wanted = q"
      unfolding eq by simp
    then show ?thesis using p by simp
  next
    case True
    then have r: "resolve_ident env st finfo fname wanted =
       (fst q, (fst (snd q)) \<lparr> fi_valid := fi_valid (fst (snd q)) OR APR_FINFO_LINK \<rparr>,
               snd (snd q))"
      unfolding eq using stq by auto
    have ln: "APR_FINFO_LINK AND APR_FINFO_NAME = 0" by (simp add: finfo_bits)
    show ?thesis
      unfolding r using p
      by (auto simp: answered_by_handle_def ufc_link type_clear_or or_and_zero ln)
  qed
qed

lemma resolve_ident_finds:
  assumes "opens_keep_name env" "test_safe_name env fname \<noteq> APR_SUCCESS"
  shows "finds (snd (snd (resolve_ident env st finfo fname wanted))) = finds st"
  using riq_finds [OF assms, of st finfo wanted]
  by (simp add: resolve_ident_def Let_def)

lemma stat_by_name_err:
  assumes "failures_have_codes env" "stat_by_name env st fname w wanted = Inl (e, s)"
  shows "e \<noteq> APR_SUCCESS"
proof (cases "wanted AND APR_FINFO_NAME = 0")
  case True
  then show ?thesis
    using assms(2) failure_codes(3) [OF assms(1)]
    by (auto simp: stat_by_name_def Let_def split: if_splits)
next
  case False
  show ?thesis
  proof (cases "test_safe_name env fname \<noteq> APR_SUCCESS")
    case True
    then show ?thesis using assms(2) False by (auto simp: stat_by_name_def)
  next
    case safe: False
    show ?thesis
      using assms(2) False safe failure_codes(4) [OF assms(1)]
      by (auto simp: stat_by_name_def Let_def split: list.splits prod.splits if_splits)
  qed
qed

lemma stat_by_name_reject:
  "wanted AND APR_FINFO_NAME \<noteq> 0 \<Longrightarrow> test_safe_name env fname \<noteq> APR_SUCCESS \<Longrightarrow>
     stat_by_name env st fname w wanted = Inl (test_safe_name env fname, st)"
  by (simp add: stat_by_name_def)

lemma stat_by_name_unsafe_Inl:
  assumes "test_safe_name env fname \<noteq> APR_SUCCESS"
    and "stat_by_name env st fname w wanted = Inl (e, s)"
  shows "finds s = finds st"
  using assms by (auto simp: stat_by_name_def Let_def split: if_splits)

lemma stat_by_name_unsafe_Inr:
  assumes "test_safe_name env fname \<noteq> APR_SUCCESS"
    and "stat_by_name env st fname w wanted = Inr (FI, fd, fn, s)"
  shows "finds s = finds st \<and> \<not> fd"
  using assms by (auto simp: stat_by_name_def Let_def split: if_splits)

lemma andnot_zero:
  "b AND t = 0 \<Longrightarrow> ((v AND NOT t) AND b = 0) = (v AND b = (0::'a::len word))"
  by (auto simp: bit_eq_iff bit_simps)

lemma andnot_covers:
  "v AND m = m \<Longrightarrow> m AND t = 0 \<Longrightarrow> (v AND NOT t) AND m = (m::'a::len word)"
  by (auto simp: bit_eq_iff bit_simps)

lemma min_covers_times:
  "covers v APR_FINFO_MIN \<Longrightarrow>
     covers v (APR_FINFO_ATIME OR APR_FINFO_CTIME OR APR_FINFO_MTIME OR APR_FINFO_SIZE)"
  unfolding covers_def
  by (rule grows_covers [where v = APR_FINFO_MIN]) (simp_all add: finfo_bits)

lemma type_disjoint:
  "APR_FINFO_MTIME AND APR_FINFO_TYPE = 0" "APR_FINFO_CTIME AND APR_FINFO_TYPE = 0"
  "APR_FINFO_ATIME AND APR_FINFO_TYPE = 0" "APR_FINFO_SIZE AND APR_FINFO_TYPE = 0"
  "APR_FINFO_CSIZE AND APR_FINFO_TYPE = 0" "APR_FINFO_DEV AND APR_FINFO_TYPE = 0"
  "APR_FINFO_INODE AND APR_FINFO_TYPE = 0" "APR_FINFO_NLINK AND APR_FINFO_TYPE = 0"
  "APR_FINFO_USER AND APR_FINFO_TYPE = 0" "APR_FINFO_GROUP AND APR_FINFO_TYPE = 0"
  "APR_FINFO_UPROT AND APR_FINFO_TYPE = 0" "APR_FINFO_GPROT AND APR_FINFO_TYPE = 0"
  "APR_FINFO_WPROT AND APR_FINFO_TYPE = 0" "APR_FINFO_NAME AND APR_FINFO_TYPE = 0"
  "(APR_FINFO_ATIME OR APR_FINFO_CTIME OR APR_FINFO_MTIME OR APR_FINFO_SIZE)
     AND APR_FINFO_TYPE = 0"
  by (simp_all add: finfo_bits)

lemma probe_props:
  "finds (snd (stat_device_probe env st f w)) = finds st \<and>
   (unset_fields_clear f \<longrightarrow> unset_fields_clear (fst (stat_device_probe env st f w))) \<and>
   (covers (fi_valid f) APR_FINFO_MIN \<longrightarrow>
      covers (fi_valid (fst (stat_device_probe env st f w)))
        (APR_FINFO_ATIME OR APR_FINFO_CTIME OR APR_FINFO_MTIME OR APR_FINFO_SIZE)) \<and>
   (fi_valid f AND APR_FINFO_NAME = 0 \<longrightarrow>
      fi_valid (fst (stat_device_probe env st f w)) AND APR_FINFO_NAME = 0)"
proof -
  have a: "unset_fields_clear f \<Longrightarrow>
             unset_fields_clear (f \<lparr> fi_valid := fi_valid f AND NOT APR_FINFO_TYPE \<rparr>)"
    by (simp add: unset_fields_clear_def andnot_zero type_disjoint)
  have b: "\<And>t. unset_fields_clear f \<Longrightarrow> unset_fields_clear (f \<lparr> fi_filetype := t \<rparr>)"
    by (simp add: unset_fields_clear_def)
  have c: "covers (fi_valid f) APR_FINFO_MIN \<Longrightarrow>
      covers (fi_valid f AND NOT APR_FINFO_TYPE)
        (APR_FINFO_ATIME OR APR_FINFO_CTIME OR APR_FINFO_MTIME OR APR_FINFO_SIZE)"
    using min_covers_times [of "fi_valid f"]
    unfolding covers_def by (intro andnot_covers) (simp_all add: type_disjoint)
  show ?thesis
    using a b c min_covers_times [of "fi_valid f"]
    by (simp add: stat_device_probe_def Let_def andnot_zero type_disjoint
          split: option.splits)
qed

lemma stat_fill_props:
  "covers (fi_valid (fst (stat_fill env st FI fd fname wn w pool)))
     (APR_FINFO_ATIME OR APR_FINFO_CTIME OR APR_FINFO_MTIME OR APR_FINFO_SIZE) \<and>
   unset_fields_clear (fst (stat_fill env st FI fd fname wn w pool)) \<and>
   fi_valid (fst (stat_fill env st FI fd fname wn w pool)) AND APR_FINFO_NAME = 0 \<and>
   (test_safe_name env fname \<noteq> APR_SUCCESS \<or> fd \<longrightarrow>
      finds (snd (stat_fill env st FI fd fname wn w pool)) = finds st)"
proof -
  define fl where "fl = fillin_fileinfo env st FI False fd fname w"
  define pr where "pr = (if fst fl then stat_device_probe env (snd (snd fl)) (fst (snd fl)) wn
                else (fst (snd fl), snd (snd fl)))"
  have eq: "stat_fill env st FI fd fname wn w pool = ((fst pr) \<lparr> fi_pool := pool \<rparr>, snd pr)"
    by (simp add: stat_fill_def Let_def pr_def fl_def)
  note fp = fillin_props [of env st FI False fd fname w, folded fl_def]
  have ff: "test_safe_name env fname \<noteq> APR_SUCCESS \<or> fd \<Longrightarrow> snd (snd fl) = st"
    using fillin_unsafe [of env fname st FI False fd w]
          fillin_finddata [of env st FI False fname w]
    by (auto simp: fl_def)
  note pp = probe_props [of env "snd (snd fl)" "fst (snd fl)" wn]
  have p1: "covers (fi_valid (fst pr))
     (APR_FINFO_ATIME OR APR_FINFO_CTIME OR APR_FINFO_MTIME OR APR_FINFO_SIZE)"
    using fp pp min_covers_times by (simp add: pr_def)
  have p2: "unset_fields_clear (fst pr)" using fp pp by (simp add: pr_def)
  have p3: "fi_valid (fst pr) AND APR_FINFO_NAME = 0" using fp pp by (simp add: pr_def)
  have p4: "test_safe_name env fname \<noteq> APR_SUCCESS \<or> fd \<Longrightarrow> finds (snd pr) = finds st"
    using ff pp by (auto simp: pr_def)
  show ?thesis unfolding eq using p1 p2 p3 p4 by simp
qed

lemma stat_finish_props:
  "finds (snd (snd (stat_finish env st f fn wn w))) = finds st \<and>
   (covers (fi_valid f) m \<longrightarrow> covers (fi_valid (fst (snd (stat_finish env st f fn wn w)))) m) \<and>
   (unset_fields_clear f \<longrightarrow> unset_fields_clear (fst (snd (stat_finish env st f fn wn w))))"
proof -
  define f3 where "f3 = (case fn of
                      Some n \<Rightarrow> f \<lparr> fi_name := Some n,
                                         fi_valid := fi_valid f OR APR_FINFO_NAME \<rparr>
                    | None \<Rightarrow> f)"
  have eq: "stat_finish env st f fn wn w =
      (if w AND NOT (fi_valid f3) \<noteq> 0
         then more_finfo env st f3 (MORE_OF_WFSPEC wn) (w AND NOT (fi_valid f3))
         else (APR_SUCCESS, f3, st))"
    by (simp add: stat_finish_def Let_def f3_def)
  have c: "covers (fi_valid f) m \<Longrightarrow> covers (fi_valid f3) m"
    by (cases fn) (simp_all add: f3_def)
  have u: "unset_fields_clear f \<Longrightarrow> unset_fields_clear f3"
    by (cases fn) (simp_all add: f3_def unset_fields_clear_def or_and_zero finfo_bits)
  show ?thesis
    unfolding eq using c u more_finfo_props [of f3 env st]
    by (simp add: more_finfo_covers more_finfo_ufc)
qed

lemma apr_stat_cases:
  fixes env st finfo fname wanted pool
  defines "ri \<equiv> (if by_ident wanted then resolve_ident env st finfo fname wanted
                  else (APR_SUCCESS, finfo, st))"
    and "cv \<equiv> utf8_to_unicode_path env fname"
  defines "w1 \<equiv> (if by_ident wanted \<and> fst ri = APR_INCOMPLETE
                  then wanted AND NOT (fi_valid (fst (snd ri))) else wanted)"
  obtains
    (long) "length fname \<ge> APR_PATH_MAX env"
      "apr_stat env st finfo fname wanted pool = (APR_ENAMETOOLONG, finfo, st)"
  | (ident) "length fname < APR_PATH_MAX env" "by_ident wanted"
      "fst (resolve_ident env st finfo fname wanted) = APR_SUCCESS"
      "apr_stat env st finfo fname wanted pool = resolve_ident env st finfo fname wanted"
  | (conv) "length fname < APR_PATH_MAX env" "\<not> (by_ident wanted \<and> fst ri = APR_SUCCESS)"
      "fst cv \<noteq> APR_SUCCESS"
      "apr_stat env st finfo fname wanted pool = (fst cv, fst (snd ri), snd (snd ri))"
  | (reject) e st2 where "length fname < APR_PATH_MAX env"
      "\<not> (by_ident wanted \<and> fst ri = APR_SUCCESS)" "fst cv = APR_SUCCESS"
      "stat_by_name env (snd (snd ri)) fname (snd cv) w1 = Inl (e, st2)"
      "apr_stat env st finfo fname wanted pool = (e, fst (snd ri), st2)"
  | (found) FI fd fn st2 p where "length fname < APR_PATH_MAX env"
      "\<not> (by_ident wanted \<and> fst ri = APR_SUCCESS)" "fst cv = APR_SUCCESS"
      "stat_by_name env (snd (snd ri)) fname (snd cv) w1 = Inr (FI, fd, fn, st2)"
      "p = (if fst ri \<noteq> APR_INCOMPLETE
            then stat_fill env st2 FI fd fname (snd cv) w1 pool
            else (fst (snd ri), st2))"
      "apr_stat env st finfo fname wanted pool = stat_finish env (snd p) (fst p) fn (snd cv) w1"
proof (cases "length fname \<ge> APR_PATH_MAX env")
  case True
  then show ?thesis using long by (simp add: apr_stat_def)
next
  case short: False
  have eq: "apr_stat env st finfo fname wanted pool =
     (if by_ident wanted \<and> fst ri = APR_SUCCESS then ri
      else if fst cv \<noteq> APR_SUCCESS then (fst cv, fst (snd ri), snd (snd ri))
      else case stat_by_name env (snd (snd ri)) fname (snd cv) w1 of
             Inl (e, st2) \<Rightarrow> (e, fst (snd ri), st2)
           | Inr (FileInfo, finddata, filename, st2) \<Rightarrow>
               let p = (if fst ri \<noteq> APR_INCOMPLETE
                        then stat_fill env st2 FileInfo finddata fname (snd cv) w1 pool
                        else (fst (snd ri), st2))
               in stat_finish env (snd p) (fst p) filename (snd cv) w1)"
    using short unfolding apr_stat_def Let_def w1_def cv_def ri_def by simp
  show ?thesis
  proof (cases "by_ident wanted \<and> fst ri = APR_SUCCESS")
    case True
    then have b: "by_ident wanted" by simp
    then have ri: "ri = resolve_ident env st finfo fname wanted"
      by (simp add: ri_def)
    have r: "fst (resolve_ident env st finfo fname wanted) = APR_SUCCESS"
      using True ri by simp
    have "apr_stat env st finfo fname wanted pool = ri"
      unfolding eq using True by simp
    then show ?thesis using ident short b r ri by simp
  next
    case ni: False
    show ?thesis
    proof (cases "fst cv \<noteq> APR_SUCCESS")
      case True
      then show ?thesis using conv short ni eq by simp
    next
      case cok: False
      show ?thesis
      proof (cases "stat_by_name env (snd (snd ri)) fname (snd cv) w1")
        case (Inl a)
        obtain e st2 where a: "a = (e, st2)" by (cases a)
        show ?thesis
          using reject [of e st2] short ni cok Inl a eq by simp
      next
        case (Inr b)
        obtain FI fd fn st2 where b: "b = (FI, fd, fn, st2)" by (cases b)
        show ?thesis
          using found [of FI fd fn st2, OF _ _ _ _ refl] short ni cok Inr b eq
          by (simp add: Let_def)
      qed
    qed
  qed
qed


lemma andnot_keeps: "v AND n = 0 \<Longrightarrow> (w AND NOT v) AND n = w AND (n::'a::len word)"
  by (auto simp: bit_eq_iff bit_simps)

lemma times_covers_size:
  "covers v (APR_FINFO_ATIME OR APR_FINFO_CTIME OR APR_FINFO_MTIME OR APR_FINFO_SIZE) \<Longrightarrow>
     covers v APR_FINFO_SIZE"
  unfolding covers_def
  by (rule grows_covers
        [where v = "APR_FINFO_ATIME OR APR_FINFO_CTIME OR APR_FINFO_MTIME OR APR_FINFO_SIZE"])
     (simp_all add: finfo_bits)

lemma apr_stat_props:
  assumes sane: "failures_have_codes env"
    and ok: "fst (apr_stat env st finfo fname wanted pool) = APR_SUCCESS"
  shows "covers (fi_valid (fst (snd (apr_stat env st finfo fname wanted pool)))) APR_FINFO_SIZE \<and>
         (\<not> size_only wanted \<longrightarrow>
            covers (fi_valid (fst (snd (apr_stat env st finfo fname wanted pool))))
              (APR_FINFO_ATIME OR APR_FINFO_CTIME OR APR_FINFO_MTIME OR APR_FINFO_SIZE) \<and>
            unset_fields_clear (fst (snd (apr_stat env st finfo fname wanted pool))))"
proof (cases rule: apr_stat_cases [where env = env and st = st and finfo = finfo
    and fname = fname and wanted = wanted and pool = pool])
  case long
  then show ?thesis using ok by simp
next
  case ident
  show ?thesis
    using resolve_ident_props [OF sane, of st finfo fname wanted] ident(3)
    unfolding ident(4)
    by (auto simp: answered_by_handle_def dest: handle_covers_min)
next
  case conv
  then show ?thesis using ok by simp
next
  case (reject e st2)
  then show ?thesis using ok stat_by_name_err [OF sane reject(4)] by simp
next
  case (found FI fd fn st2 p)
  let ?ri = "if by_ident wanted then resolve_ident env st finfo fname wanted
             else (APR_SUCCESS, finfo, st)"
  have pp: "covers (fi_valid (fst p))
              (APR_FINFO_ATIME OR APR_FINFO_CTIME OR APR_FINFO_MTIME OR APR_FINFO_SIZE) \<and>
            unset_fields_clear (fst p)"
  proof (cases "fst ?ri \<noteq> APR_INCOMPLETE")
    case True
    then show ?thesis using found(5) stat_fill_props by simp
  next
    case False
    then have inc: "by_ident wanted"
        "fst (resolve_ident env st finfo fname wanted) = APR_INCOMPLETE"
        "fst p = fst (snd (resolve_ident env st finfo fname wanted))"
      using found(5) by (auto split: if_splits)
    show ?thesis
      using resolve_ident_props [OF sane, of st finfo fname wanted] inc
      by (auto simp: answered_by_handle_def dest: handle_covers_min)
  qed
  show ?thesis
    unfolding found(6)
    using pp stat_finish_props [of env "snd p" "fst p" fn]
    by (auto dest: times_covers_size)
qed

lemma apr_stat_finds:
  assumes keep: "opens_keep_name env" and unsafe: "test_safe_name env fname \<noteq> APR_SUCCESS"
  shows "finds (snd (snd (apr_stat env st finfo fname wanted pool))) = finds st"
proof (cases rule: apr_stat_cases [where env = env and st = st and finfo = finfo
    and fname = fname and wanted = wanted and pool = pool])
  case long
  then show ?thesis by simp
next
  case ident
  then show ?thesis using resolve_ident_finds [OF keep unsafe] by simp
next
  case conv
  then show ?thesis using resolve_ident_finds [OF keep unsafe] by simp
next
  case (reject e st2)
  show ?thesis
    unfolding reject(5)
    using resolve_ident_finds [OF keep unsafe, of st finfo wanted]
          stat_by_name_unsafe_Inl [OF unsafe reject(4)] by (auto split: if_splits)
next
  case (found FI fd fn st2 p)
  have s2: "finds st2 = finds st" and nfd: "\<not> fd"
    using resolve_ident_finds [OF keep unsafe, of st finfo wanted]
          stat_by_name_unsafe_Inr [OF unsafe found(4)]
    by (auto split: if_splits)
  have "finds (snd p) = finds st2"
    using found(5) stat_fill_props unsafe by (auto split: if_splits)
  then show ?thesis
    unfolding found(6) using s2 stat_finish_props [of env "snd p" "fst p" fn] by simp
qed

lemma apr_stat_name_rejected:
  assumes sane: "failures_have_codes env"
    and unsafe: "test_safe_name env fname \<noteq> APR_SUCCESS"
    and name: "wanted AND APR_FINFO_NAME \<noteq> 0"
    and short: "length fname < APR_PATH_MAX env"
    and cok: "fst (utf8_to_unicode_path env fname) = APR_SUCCESS"
  shows "(by_ident wanted \<and> fst (resolve_ident env st finfo fname wanted) = APR_SUCCESS \<and>
          apr_stat env st finfo fname wanted pool = resolve_ident env st finfo fname wanted)
         \<or> fst (apr_stat env st finfo fname wanted pool) = test_safe_name env fname"
proof -
  let ?ri = "if by_ident wanted then resolve_ident env st finfo fname wanted
             else (APR_SUCCESS, finfo, st)"
  let ?w1 = "if by_ident wanted \<and> fst ?ri = APR_INCOMPLETE
             then wanted AND NOT (fi_valid (fst (snd ?ri))) else wanted"
  have w1: "?w1 AND APR_FINFO_NAME \<noteq> 0"
  proof (cases "by_ident wanted \<and> fst ?ri = APR_INCOMPLETE")
    case False
    then show ?thesis using name by auto
  next
    case True
    then have "fi_valid (fst (snd (resolve_ident env st finfo fname wanted)))
                 AND APR_FINFO_NAME = 0"
      using resolve_ident_props [OF sane, of st finfo fname wanted] by auto
    then show ?thesis using True name by (simp add: andnot_keeps)
  qed
  note rj = stat_by_name_reject [OF w1 unsafe]
  show ?thesis
  proof (cases rule: apr_stat_cases [where env = env and st = st and finfo = finfo
    and fname = fname and wanted = wanted and pool = pool])
    case long
    then show ?thesis using short by simp
  next
    case ident
    then show ?thesis by simp
  next
    case conv
    then show ?thesis using cok by simp
  next
    case (reject e st2)
    then show ?thesis using rj by simp
  next
    case (found FI fd fn st2 p)
    then show ?thesis using rj by simp
  qed
qed

section \<open>Wildcard paths in \<^verbatim>\<open>apr_stat\<close>\<close>

lemma sim_keeps_name: "opens_keep_name fs_sim"
  by (simp add: opens_keep_name_def fs_sim_def sim_open_def)

lemma sim_has_codes: "failures_have_codes fs_sim"
  by (simp add: failures_have_codes_def fs_sim_def sim_open_def sim_listing_def split: list.splits fs_call.splits)

lemma apr_stat_rejects_at_once:
  assumes "test_safe_name env fname \<noteq> APR_SUCCESS"
    and "wanted AND APR_FINFO_NAME \<noteq> 0" and "\<not> by_ident wanted"
  shows "apr_stat env st finfo fname wanted pool =
           (if length fname \<ge> APR_PATH_MAX env then APR_ENAMETOOLONG
            else if fst (utf8_to_unicode_path env fname) \<noteq> APR_SUCCESS
                 then fst (utf8_to_unicode_path env fname)
                 else test_safe_name env fname,
            finfo, st)"
proof (cases rule: apr_stat_cases [where env = env and st = st and finfo = finfo
         and fname = fname and wanted = wanted and pool = pool])
  case long
  then show ?thesis using assms by simp
next
  case ident
  then show ?thesis using assms by simp
next
  case conv
  then show ?thesis using assms by simp
next
  case (reject e st2)
  then show ?thesis using assms by (simp add: stat_by_name_reject)
next
  case (found FI fd fn st2 p)
  then show ?thesis using assms by (simp add: stat_by_name_reject)
qed

text \<open>
  On the simulated platform the wildcard path \<^verbatim>\<open>a*\<close> is not rejected when the name is
  not asked for: with \<^verbatim>\<open>APR_FINFO_LINK\<close> the attribute query is issued for it and the
  call succeeds, and with no bits wanted the path is opened by name.
\<close>

theorem stat_wildcard_reaches_platform:
  "has_wildcard ''a*'' \<and>
   fst (apr_stat fs_sim st_init finfo_zero ''a*'' APR_FINFO_LINK 0) = APR_SUCCESS \<and>
   calls (snd (snd (apr_stat fs_sim st_init finfo_zero ''a*'' APR_FINFO_LINK 0)))
     = [Call_GetFileAttributesExW [97, 42]] \<and>
   fst (apr_stat fs_sim st_init finfo_zero ''a*'' 0 0) = APR_SUCCESS \<and>
   calls (snd (snd (apr_stat fs_sim st_init finfo_zero ''a*'' 0 0)))
     = [Call_apr_file_open ''a*'' 1048576, Call_GetFileInformationByHandle 7,
        Call_GetFileType 7, Call_apr_file_close 7]"
  by code_simp

text \<open>
  C3 (as the code has it). For a path with a wildcard character, on a platform whose
  character table marks \<^verbatim>\<open>*\<close> and \<^verbatim>\<open>?\<close> as not file name characters:

  \<^item> \<^verbatim>\<open>test_safe_name\<close> answers \<^verbatim>\<open>APR_EPATHWILD\<close> or \<^verbatim>\<open>APR_EBADPATH\<close>;

  \<^item> \<^verbatim>\<open>apr_stat\<close> issues no find call for the path, whatever is wanted;

  \<^item> when the name is wanted and the request is not one answered by handle,
    \<^verbatim>\<open>apr_stat\<close> fails with the structure and the platform untouched (no native
    call at all); the status is \<^verbatim>\<open>APR_ENAMETOOLONG\<close> when the path is not shorter
    than \<^verbatim>\<open>APR_PATH_MAX\<close>, else the status of the conversion to wide characters
    when that fails, else the status of \<^verbatim>\<open>test_safe_name\<close>;

  \<^item> when the name is wanted, the path is shorter than \<^verbatim>\<open>APR_PATH_MAX\<close> and converts
    to wide characters, either the attempt by handle has already succeeded or the
    status of \<^verbatim>\<open>test_safe_name\<close> is returned.

  The open by name and the attribute query are not guarded.
\<close>

theorem stat_wildcard_never_searched:
  assumes "has_wildcard fname"
    and "\<not> IS_FNCHAR env (CHR ''*'')" and "\<not> IS_FNCHAR env (CHR ''?'')"
  shows "(test_safe_name env fname = APR_EPATHWILD \<or> test_safe_name env fname = APR_EBADPATH) \<and>
         (opens_keep_name env \<longrightarrow>
            finds (snd (snd (apr_stat env st finfo fname wanted pool))) = finds st) \<and>
         (wanted AND APR_FINFO_NAME \<noteq> 0 \<and> \<not> by_ident wanted \<longrightarrow>
            fst (apr_stat env st finfo fname wanted pool) \<noteq> APR_SUCCESS \<and>
            apr_stat env st finfo fname wanted pool =
              (if length fname \<ge> APR_PATH_MAX env then APR_ENAMETOOLONG
               else if fst (utf8_to_unicode_path env fname) \<noteq> APR_SUCCESS
                    then fst (utf8_to_unicode_path env fname)
                    else test_safe_name env fname,
               finfo, st)) \<and>
         (failures_have_codes env \<and> wanted AND APR_FINFO_NAME \<noteq> 0 \<and>
          length fname < APR_PATH_MAX env \<and> fst (utf8_to_unicode_path env fname) = APR_SUCCESS
            \<longrightarrow> (by_ident wanted \<and>
                  fst (resolve_ident env st finfo fname wanted) = APR_SUCCESS \<and>
                  apr_stat env st finfo fname wanted pool
                    = resolve_ident env st finfo fname wanted)
                \<or> fst (apr_stat env st finfo fname wanted pool) = test_safe_name env fname)"
proof -
  have t: "test_safe_name env fname = APR_EPATHWILD \<or> test_safe_name env fname = APR_EBADPATH"
    using assms by (rule test_safe_name_wildcard)
  then have n: "test_safe_name env fname \<noteq> APR_SUCCESS" by auto
  have r: "wanted AND APR_FINFO_NAME \<noteq> 0 \<and> \<not> by_ident wanted \<longrightarrow>
            fst (apr_stat env st finfo fname wanted pool) \<noteq> APR_SUCCESS \<and>
            apr_stat env st finfo fname wanted pool =
              (if length fname \<ge> APR_PATH_MAX env then APR_ENAMETOOLONG
               else if fst (utf8_to_unicode_path env fname) \<noteq> APR_SUCCESS
                    then fst (utf8_to_unicode_path env fname)
                    else test_safe_name env fname,
               finfo, st)"
    using n apr_stat_rejects_at_once [of env fname wanted st finfo pool] by simp
  show ?thesis
    using t n r apr_stat_finds [of env fname st finfo wanted pool]
      apr_stat_name_rejected [of env fname wanted st finfo pool]
    by blast
qed

theorem stat_wildcard_never_searched_witness:
  "has_wildcard ''a*'' \<and> \<not> IS_FNCHAR fs_sim (CHR ''*'') \<and> \<not> IS_FNCHAR fs_sim (CHR ''?'') \<and>
   opens_keep_name fs_sim \<and> failures_have_codes fs_sim \<and>
   (APR_FINFO_LINK OR APR_FINFO_NAME) AND APR_FINFO_NAME \<noteq> 0 \<and>
   \<not> by_ident (APR_FINFO_LINK OR APR_FINFO_NAME) \<and>
   length ''a*'' < APR_PATH_MAX fs_sim \<and>
   fst (utf8_to_unicode_path fs_sim ''a*'') = APR_SUCCESS \<and>
   test_safe_name fs_sim ''a*'' = APR_EPATHWILD \<and>
   finds (snd (snd (apr_stat fs_sim st_init finfo_zero ''a*''
                      (APR_FINFO_LINK OR APR_FINFO_NAME) 0))) = finds st_init \<and>
   apr_stat fs_sim st_init finfo_zero ''a*'' (APR_FINFO_LINK OR APR_FINFO_NAME) 0
     = (APR_EPATHWILD, finfo_zero, st_init) \<and>
   finds (snd (snd (apr_stat fs_sim st_init finfo_zero ''a.txt''
                      (APR_FINFO_LINK OR APR_FINFO_NAME) 0)))
     = [Call_FindFirstFileExW [97, 46, 116, 120, 116]]"
proof -
  have h: "has_wildcard ''a*''" "\<not> IS_FNCHAR fs_sim (CHR ''*'')" "\<not> IS_FNCHAR fs_sim (CHR ''?'')"
    by (simp_all add: has_wildcard_def fs_sim_def)
  have b: "(APR_FINFO_LINK OR APR_FINFO_NAME) AND APR_FINFO_NAME \<noteq> 0"
      "\<not> by_ident (APR_FINFO_LINK OR APR_FINFO_NAME)"
    by (simp_all add: by_ident_def finfo_bits)
  have c: "length ''a*'' < APR_PATH_MAX fs_sim" "fst (utf8_to_unicode_path fs_sim ''a*'') = APR_SUCCESS"
    by (simp_all add: fs_sim_def)
  have t: "test_safe_name fs_sim ''a*'' = APR_EPATHWILD" by code_simp
  have o: "finds (snd (snd (apr_stat fs_sim st_init finfo_zero ''a.txt''
                      (APR_FINFO_LINK OR APR_FINFO_NAME) 0)))
     = [Call_FindFirstFileExW [97, 46, 116, 120, 116]]" by code_simp
  show ?thesis
    using stat_wildcard_never_searched [OF h, of st_init finfo_zero "APR_FINFO_LINK OR APR_FINFO_NAME" 0]
      h b c t o sim_keeps_name sim_has_codes
    by simp
qed

section \<open>Properties of directory enumeration\<close>

lemma skip_loop_none:
  "dropWhile (passed_over env rl) (ent # h) = [] \<Longrightarrow>
     \<not> fst (dir_skip_loop (APR_PATH_MAX env) rl ent h st)"
  by (induction h arbitrary: ent st) (auto simp: passed_over_def split: if_splits)

lemma skip_loop_some:
  "dropWhile (passed_over env rl) (ent # h) = e # rest \<Longrightarrow>
     \<exists>st'. dir_skip_loop (APR_PATH_MAX env) rl ent h st = (True, e, rest, st')"
  by (induction h arbitrary: ent st) (auto simp: passed_over_def split: if_splits)

lemma advance_pending:
  "dirhand d = Some h \<Longrightarrow>
     (pending_entries d = [] \<longrightarrow> \<not> fst (dir_advance d h st)) \<and>
     (pending_entries d \<noteq> [] \<longrightarrow>
        fst (dir_advance d h st) \<and>
        fst (snd (dir_advance d h st)) # fst (snd (snd (dir_advance d h st))) = pending_entries d)"
  by (auto simp: dir_advance_def pending_entries_def split: list.splits)

lemma os_error_18: "apr_get_os_error ERROR_NO_MORE_FILES = APR_OS_ERROR 18"
  by (simp add: apr_get_os_error_def APR_FROM_OS_ERROR_def ERROR_NO_MORE_FILES_def)

lemma dir_read_end:
  assumes "dirhand d = Some h"
    and "dropWhile (passed_over env (rootlen d)) (pending_entries d) = []"
  shows "\<exists>d' st'. apr_dir_read env st fo w d = Some (apr_get_os_error ERROR_NO_MORE_FILES, fo, d', st')"
proof (cases "pending_entries d = []")
  case True
  then have "\<not> fst (dir_advance d h st)" using advance_pending [OF assms(1)] by simp
  then show ?thesis using assms(1) by (simp add: apr_dir_read_def Let_def)
next
  case False
  define a where "a = dir_advance d h st"
  have a: "fst a" "fst (snd a) # fst (snd (snd a)) = pending_entries d"
    using advance_pending [OF assms(1), of st] False by (simp_all add: a_def)
  have "\<not> fst (dir_skip_loop (APR_PATH_MAX env) (rootlen d) (fst (snd a)) (fst (snd (snd a)))
                 (snd (snd (snd a))))"
    using skip_loop_none [of env "rootlen d" "fst (snd a)" "fst (snd (snd a))"] a assms(2)
    by simp
  then show ?thesis using assms(1) a by (simp add: apr_dir_read_def Let_def a_def)
qed

lemma dir_read_next:
  assumes "dirhand d = Some h"
    and "dropWhile (passed_over env (rootlen d)) (pending_entries d) = e # rest"
  shows "\<exists>st'. apr_dir_read env st fo w d
           = dir_report env st' fo w (d \<lparr> dirhand := Some rest, entry := e, bof := False \<rparr>)"
proof -
  have ne: "pending_entries d \<noteq> []" using assms(2) by auto
  define a where "a = dir_advance d h st"
  have a: "fst a" "fst (snd a) # fst (snd (snd a)) = pending_entries d"
    using advance_pending [OF assms(1), of st] ne by (simp_all add: a_def)
  obtain st' where k: "dir_skip_loop (APR_PATH_MAX env) (rootlen d) (fst (snd a))
         (fst (snd (snd a))) (snd (snd (snd a))) = (True, e, rest, st')"
    using skip_loop_some [of env "rootlen d" "fst (snd a)" "fst (snd (snd a))" e rest] a assms(2)
    by auto
  have r: "d \<lparr> bof := False, dirhand := Some rest, entry := e \<rparr>
             = d \<lparr> dirhand := Some rest, entry := e, bof := False \<rparr>"
    by (cases d) simp
  have "apr_dir_read env st fo w d
           = dir_report env st' fo w (d \<lparr> dirhand := Some rest, entry := e, bof := False \<rparr>)"
    using assms(1) a k by (simp add: apr_dir_read_def Let_def a_def [symmetric] r)
  then show ?thesis ..
qed

lemma covers_min_link_name:
  "covers v APR_FINFO_MIN \<Longrightarrow> covers v APR_FINFO_LINK \<Longrightarrow>
     covers (v OR APR_FINFO_NAME) (APR_FINFO_MIN OR APR_FINFO_LINK OR APR_FINFO_NAME)"
  unfolding covers_def by (auto simp: bit_eq_iff bit_simps)

lemma step_covers: "more_step f f' \<Longrightarrow> covers (fi_valid f) m \<Longrightarrow> covers (fi_valid f') m"
  unfolding more_step_def covers_def by (metis and.assoc)

lemma step_type_clear: "more_step f f' \<Longrightarrow> type_clear f \<Longrightarrow> covers (fi_valid f) APR_FINFO_TYPE \<Longrightarrow> type_clear f'"
  unfolding more_step_def covers_def type_clear_def by (metis and.assoc APR_FINFO_TYPE_def zero_neq_numeral)


lemma named_props:
  assumes "covers (fi_valid g) APR_FINFO_MIN" and "covers (fi_valid g) APR_FINFO_LINK"
    and "unset_fields_clear g" and "type_clear g"
  shows "covers (fi_valid (g \<lparr> fi_pool := p, fi_valid := fi_valid g OR APR_FINFO_NAME,
                              fi_name := Some n \<rparr>))
           (APR_FINFO_MIN OR APR_FINFO_LINK OR APR_FINFO_NAME)"
    and "unset_fields_clear (g \<lparr> fi_pool := p, fi_valid := fi_valid g OR APR_FINFO_NAME,
                              fi_name := Some n \<rparr>)"
    and "type_clear (g \<lparr> fi_pool := p, fi_valid := fi_valid g OR APR_FINFO_NAME,
                              fi_name := Some n \<rparr>)"
proof -
  show "covers (fi_valid (g \<lparr> fi_pool := p, fi_valid := fi_valid g OR APR_FINFO_NAME,
                              fi_name := Some n \<rparr>))
           (APR_FINFO_MIN OR APR_FINFO_LINK OR APR_FINFO_NAME)"
    using assms(1,2) by (simp add: covers_min_link_name)
  show "unset_fields_clear (g \<lparr> fi_pool := p, fi_valid := fi_valid g OR APR_FINFO_NAME,
                              fi_name := Some n \<rparr>)"
    using assms(3) by (simp add: unset_fields_clear_def or_and_zero) (simp add: finfo_bits)
  show "type_clear (g \<lparr> fi_pool := p, fi_valid := fi_valid g OR APR_FINFO_NAME,
                              fi_name := Some n \<rparr>)"
    using assms(4) by (simp add: type_clear_def or_and_zero)
qed

lemma dir_report_cases:
  fixes env st old w d
  defines "cn \<equiv> unicode_to_utf8_path env (cFileName (entry d))"
    and "cd \<equiv> utf8_to_unicode_path env (dirname d)"
  obtains (noname) "fst cn \<noteq> APR_SUCCESS"
      "dir_report env st (Some old) w d = Some (fst cn, Some old, d, st)"
  | (nodir) f2 s2 where "fst cn = APR_SUCCESS" "fst cd \<noteq> APR_SUCCESS"
      "dir_report env st (Some old) w d = Some (fst cd, Some f2, d \<lparr> d_name := snd cn \<rparr>, s2)"
  | (filled) rv f' s' where "fst cn = APR_SUCCESS"
      "dir_report env st (Some old) w d = Some (rv, Some f', d \<lparr> d_name := snd cn \<rparr>, s')"
      "rv = APR_SUCCESS \<or> rv = APR_INCOMPLETE"
      "fi_name f' = reported_name env (entry d)"
      "covers (fi_valid f') (APR_FINFO_MIN OR APR_FINFO_LINK OR APR_FINFO_NAME)"
      "unset_fields_clear f'" "type_clear f'"
      "fst cd = APR_SUCCESS \<or> rv = APR_SUCCESS"
proof -
  define fl where "fl = fillin_fileinfo env st (entry d) False True (snd cn) w"
  define f2 where "f2 = (fst (snd fl)) \<lparr> fi_pool := d_pool d,
                              fi_valid := fi_valid (fst (snd fl)) OR APR_FINFO_NAME,
                              fi_name := Some (snd cn) \<rparr>"
  define w1 where "w1 = w AND NOT (fi_valid f2)"
  define m where "m = more_finfo env (snd (snd fl)) f2
                        (MORE_OF_WFSPEC (snd cd @ cFileName (entry d))) w1"
  have eq: "dir_report env st (Some old) w d =
     (if fst cn \<noteq> APR_SUCCESS then Some (fst cn, Some old, d, st)
      else if w1 \<noteq> 0
           then (if fst cd \<noteq> APR_SUCCESS
                 then Some (fst cd, Some f2, d \<lparr> d_name := snd cn \<rparr>, snd (snd fl))
                 else Some (fst m, Some (fst (snd m)), d \<lparr> d_name := snd cn \<rparr>, snd (snd m)))
           else Some (APR_SUCCESS, Some f2, d \<lparr> d_name := snd cn \<rparr>, snd (snd fl)))"
    unfolding dir_report_def Let_def cn_def cd_def fl_def f2_def w1_def m_def by simp
  have g: "covers (fi_valid (fst (snd fl))) APR_FINFO_MIN"
      "covers (fi_valid (fst (snd fl))) APR_FINFO_LINK"
      "unset_fields_clear (fst (snd fl))" "type_clear (fst (snd fl))"
    using fillin_props [of env st "entry d" False True "snd cn" w] by (simp_all add: fl_def)
  have p2: "covers (fi_valid f2) (APR_FINFO_MIN OR APR_FINFO_LINK OR APR_FINFO_NAME)"
      "unset_fields_clear f2" "type_clear f2"
    unfolding f2_def using g by (rule named_props)+
  have n2: "fi_name f2 = reported_name env (entry d)"
    by (simp add: f2_def reported_name_def cn_def)
  have pm: "covers (fi_valid (fst (snd m))) (APR_FINFO_MIN OR APR_FINFO_LINK OR APR_FINFO_NAME)"
      "unset_fields_clear (fst (snd m))" "type_clear (fst (snd m))"
    unfolding m_def using p2
    by (simp_all add: more_finfo_covers more_finfo_ufc more_finfo_type_clear)
  have nm: "fi_name (fst (snd m)) = reported_name env (entry d)"
    using more_finfo_props [of f2 env "snd (snd fl)" "MORE_OF_WFSPEC (snd cd @ cFileName (entry d))" w1] n2
    by (simp add: more_step_def m_def)
  have sm: "fst m = APR_SUCCESS \<or> fst m = APR_INCOMPLETE"
    unfolding m_def by (rule more_finfo_status) simp
  show ?thesis
  proof (cases "fst cn \<noteq> APR_SUCCESS")
    case True
    then show ?thesis using eq noname by (simp add: cn_def)
  next
    case c: False
    show ?thesis
    proof (cases "w1 \<noteq> 0")
      case False
      then show ?thesis using c eq filled [of APR_SUCCESS f2 "snd (snd fl)"] p2 n2
        by (simp add: cn_def)
    next
      case more: True
      show ?thesis
      proof (cases "fst cd \<noteq> APR_SUCCESS")
        case True
        then show ?thesis using c more eq nodir [of f2 "snd (snd fl)"] by (simp add: cn_def cd_def)
      next
        case False
        then show ?thesis using c more eq filled [of "fst m" "fst (snd m)" "snd (snd m)"] pm nm sm
          by (simp add: cn_def cd_def)
      qed
    qed
  qed
qed

lemma filter_dropWhile_Nil: "dropWhile P xs = [] \<Longrightarrow> filter (\<lambda>x. \<not> P x) xs = []"
  by (induction xs) (auto split: if_splits)

lemma filter_dropWhile_Cons:
  "dropWhile P xs = e # rest \<Longrightarrow> filter (\<lambda>x. \<not> P x) xs = e # filter (\<lambda>x. \<not> P x) rest"
  by (induction xs) (auto split: if_splits)

lemma dropWhile_Cons_length: "dropWhile P xs = e # rest \<Longrightarrow> length rest < length xs"
  by (induction xs) (auto split: if_splits)


lemma dir_read_all_filter:
  assumes "fst (utf8_to_unicode_path env (dirname d)) = APR_SUCCESS"
    and "dirhand d = Some h"
    and "\<forall>e \<in> set (pending_entries d). fst (unicode_to_utf8_path env (cFileName e)) = APR_SUCCESS"
    and "length (pending_entries d) < n"
  shows "\<exists>fs. dir_read_all env n st w d = Some fs \<and>
           map fi_name fs = map (reported_name env)
              (filter (\<lambda>e. \<not> passed_over env (rootlen d) e) (pending_entries d))"
  using assms
proof (induction n arbitrary: d h st)
  case 0
  then show ?case by simp
next
  case (Suc n)
  let ?P = "passed_over env (rootlen d)"
  show ?case
  proof (cases "dropWhile ?P (pending_entries d)")
    case Nil
    obtain d' st' where r: "apr_dir_read env st (Some finfo_zero) w d
        = Some (apr_get_os_error ERROR_NO_MORE_FILES, Some finfo_zero, d', st')"
      using dir_read_end [OF Suc.prems(2) Nil] by blast
    show ?thesis using r filter_dropWhile_Nil [OF Nil] by (simp add: os_error_18)
  next
    case (Cons e rest)
    define d1 where "d1 = d \<lparr> dirhand := Some rest, entry := e, bof := False \<rparr>"
    obtain s1 where r: "apr_dir_read env st (Some finfo_zero) w d
        = dir_report env s1 (Some finfo_zero) w d1"
      using dir_read_next [OF Suc.prems(2) Cons] unfolding d1_def by blast
    have sub: "set (e # rest) \<subseteq> set (pending_entries d)"
      using Cons set_dropWhileD by (metis subsetI)
    have ce: "fst (unicode_to_utf8_path env (cFileName (entry d1))) = APR_SUCCESS"
      using sub Suc.prems(3) by (simp add: d1_def)
    have cd: "fst (utf8_to_unicode_path env (dirname d1)) = APR_SUCCESS"
      using Suc.prems(1) by (simp add: d1_def)
    define d2 where "d2 = d1 \<lparr> d_name := snd (unicode_to_utf8_path env (cFileName (entry d1))) \<rparr>"
    have "\<exists>rv f' s'. dir_report env s1 (Some finfo_zero) w d1 = Some (rv, Some f', d2, s') \<and>
            (rv = APR_SUCCESS \<or> rv = APR_INCOMPLETE) \<and> fi_name f' = reported_name env e"
      using ce cd
      by (cases rule: dir_report_cases [where env = env and st = s1 and old = finfo_zero
            and w = w and d = d1]) (auto simp: d1_def d2_def)
    then obtain rv f' s' where rep: "dir_report env s1 (Some finfo_zero) w d1
          = Some (rv, Some f', d2, s')"
        and rv: "rv = APR_SUCCESS \<or> rv = APR_INCOMPLETE"
        and nm: "fi_name f' = reported_name env e"
      by blast
    have pe: "pending_entries d2 = rest" by (simp add: d2_def d1_def pending_entries_def)
    have rl: "rootlen d2 = rootlen d" by (simp add: d2_def d1_def)
    have len: "length (pending_entries d2) < n"
      using dropWhile_Cons_length [OF Cons] Suc.prems(4) pe by simp
    have ih: "\<exists>fs. dir_read_all env n s' w d2 = Some fs \<and>
           map fi_name fs = map (reported_name env)
              (filter (\<lambda>e. \<not> passed_over env (rootlen d2) e) (pending_entries d2))"
    proof (rule Suc.IH [of d2 rest])
      show "fst (utf8_to_unicode_path env (dirname d2)) = APR_SUCCESS"
        using cd by (simp add: d2_def)
      show "dirhand d2 = Some rest" by (simp add: d2_def d1_def)
      show "\<forall>e\<in>set (pending_entries d2). fst (unicode_to_utf8_path env (cFileName e)) = APR_SUCCESS"
        using sub Suc.prems(3) pe by auto
      show "length (pending_entries d2) < n" by (rule len)
    qed
    then obtain fs where fs: "dir_read_all env n s' w d2 = Some fs"
        "map fi_name fs = map (reported_name env) (filter (\<lambda>e. \<not> ?P e) rest)"
      using pe rl by auto
    have "dir_read_all env (Suc n) st w d = Some (f' # fs)"
      using r rep rv fs(1) by auto
    then show ?thesis
      using fs(2) nm filter_dropWhile_Cons [OF Cons] by simp
  qed
qed

lemma dir_open_listing:
  assumes "utf8_to_unicode_path env (opened_root dname) = (APR_SUCCESS, wd)"
    and "ff_entries (FindFirstFileExW env (calls st @ [Call_FindFirstFileExW (wd @ [42])])) = e # rest"
  shows "\<exists>st1. apr_dir_open env st dname pool =
           Some (APR_SUCCESS,
                 Some \<lparr> d_pool = pool, dirhand = Some rest, rootlen = length (opened_root dname),
                        dirname = opened_root dname, d_name = [], entry = e, bof = True \<rparr>, st1)"
  using assms
  by (simp add: apr_dir_open_def apr_dir_read_def Let_def opened_root_def issue_def)

lemma dir_open_empty:
  assumes "failures_have_codes env"
    and "utf8_to_unicode_path env (opened_root dname) = (APR_SUCCESS, wd)"
    and "ff_entries (FindFirstFileExW env (calls st @ [Call_FindFirstFileExW (wd @ [42])])) = []"
  shows "\<exists>rv st1. apr_dir_open env st dname pool = Some (rv, None, st1)"
  using assms(2,3)
    failure_codes(4) [OF assms(1), of "calls st @ [Call_FindFirstFileExW (wd @ [42])]"]
  by (simp add: apr_dir_open_def apr_dir_read_def Let_def opened_root_def issue_def)

lemma length_filter_compl:
  "length (filter (\<lambda>x. \<not> P x) xs) = length xs - length (filter P xs)"
  using sum_length_filter_compl [of P xs] by simp

lemma dir_read_success:
  assumes "dirhand d = Some h"
    and "apr_dir_read env st (Some old) w d = Some (APR_SUCCESS, fo, d', st')"
  shows "\<exists>f' rest. dropWhile (passed_over env (rootlen d)) (pending_entries d) = entry d' # rest \<and>
           fo = Some f' \<and> fi_name f' = reported_name env (entry d') \<and>
           rootlen d' = rootlen d \<and>
           covers (fi_valid f') (APR_FINFO_MIN OR APR_FINFO_LINK OR APR_FINFO_NAME) \<and>
           unset_fields_clear f' \<and> type_clear f'"
proof (cases "dropWhile (passed_over env (rootlen d)) (pending_entries d)")
  case Nil
  show ?thesis
    using dir_read_end [OF assms(1) Nil, of st "Some old" w] assms(2)
    by (auto simp: os_error_18)
next
  case (Cons e rest)
  define d1 where "d1 = d \<lparr> dirhand := Some rest, entry := e, bof := False \<rparr>"
  obtain s1 where r: "apr_dir_read env st (Some old) w d = dir_report env s1 (Some old) w d1"
    using dir_read_next [OF assms(1) Cons] unfolding d1_def by blast
  have rep: "dir_report env s1 (Some old) w d1 = Some (APR_SUCCESS, fo, d', st')"
    using r assms(2) by simp
  show ?thesis
    using rep Cons
    by (cases rule: dir_report_cases [where env = env and st = s1 and old = old
            and w = w and d = d1]) (auto simp: d1_def)
qed

text \<open>
  C6. A directory is opened under a non-empty name and read to its end, on a platform
  where the directory name converts to wide characters, the search delivers the
  entries \<open>es\<close>, and every entry name converts back. Then the names reported are, in
  order, those of the entries whose length added to the length of the root prefix
  stays below \<^verbatim>\<open>APR_PATH_MAX\<close>; their number is the number of entries less the number
  of entries that reach the limit. And a single \<^verbatim>\<open>apr_dir_read\<close> that succeeds on an
  open directory with a non-empty root prefix reports the entry it stopped at, which
  is one of the pending entries and stays below the limit.
\<close>

theorem dir_read_skips_long_names:
  assumes "failures_have_codes env" and "dname \<noteq> []"
    and "utf8_to_unicode_path env (opened_root dname) = (APR_SUCCESS, wd)"
    and "ff_entries (FindFirstFileExW env (calls st @ [Call_FindFirstFileExW (wd @ [42])])) = es"
    and "\<forall>e \<in> set es. fst (unicode_to_utf8_path env (cFileName e)) = APR_SUCCESS"
    and "length es < n"
  shows "(\<exists>fs. dir_enumerate env st dname pool wanted n = Some fs \<and>
            map fi_name fs = map (reported_name env)
               (filter (\<lambda>e. length (opened_root dname) + length (cFileName e) < APR_PATH_MAX env) es) \<and>
            length fs = length es
               - length (filter (\<lambda>e. length (opened_root dname) + length (cFileName e)
                                        \<ge> APR_PATH_MAX env) es)) \<and>
         (dirhand d \<noteq> None \<and> rootlen d \<noteq> 0 \<and>
          apr_dir_read env s (Some old) wanted d = Some (APR_SUCCESS, fo, d', s')
            \<longrightarrow> (\<exists>f'. fo = Some f' \<and> fi_name f' = reported_name env (entry d')) \<and>
                entry d' \<in> set (pending_entries d) \<and>
                rootlen d' + length (cFileName (entry d')) < APR_PATH_MAX env)"
proof -
  have nz: "length (opened_root dname) \<noteq> 0" using assms(2) by (simp add: opened_root_def)
  have po: "(\<lambda>e. \<not> passed_over env (length (opened_root dname)) e)
              = (\<lambda>e. length (opened_root dname) + length (cFileName e) < APR_PATH_MAX env)"
    using nz by (auto simp: passed_over_def)
  have A: "\<exists>fs. dir_enumerate env st dname pool wanted n = Some fs \<and>
            map fi_name fs = map (reported_name env)
               (filter (\<lambda>e. length (opened_root dname) + length (cFileName e) < APR_PATH_MAX env) es)"
  proof (cases es)
    case Nil
    then show ?thesis
      using dir_open_empty [OF assms(1) assms(3), of st pool] assms(4)
      by (auto simp: dir_enumerate_def)
  next
    case (Cons e rest)
    define d0 where "d0 = \<lparr> d_pool = pool, dirhand = Some rest,
        rootlen = length (opened_root dname), dirname = opened_root dname, d_name = [],
        entry = e, bof = True \<rparr>"
    obtain st1 where op: "apr_dir_open env st dname pool = Some (APR_SUCCESS, Some d0, st1)"
      using dir_open_listing [OF assms(3), of st e rest pool] assms(4) Cons
      unfolding d0_def by auto
    have pe: "pending_entries d0 = es" by (simp add: d0_def pending_entries_def Cons)
    have "\<exists>fs. dir_read_all env n st1 wanted d0 = Some fs \<and>
           map fi_name fs = map (reported_name env)
              (filter (\<lambda>e. \<not> passed_over env (rootlen d0) e) (pending_entries d0))"
    proof (rule dir_read_all_filter [of env d0 rest])
      show "fst (utf8_to_unicode_path env (dirname d0)) = APR_SUCCESS"
        using assms(3) by (simp add: d0_def)
      show "dirhand d0 = Some rest" by (simp add: d0_def)
      show "\<forall>e\<in>set (pending_entries d0). fst (unicode_to_utf8_path env (cFileName e)) = APR_SUCCESS"
        using assms(5) pe by simp
      show "length (pending_entries d0) < n" using assms(6) pe by simp
    qed
    moreover have "rootlen d0 = length (opened_root dname)" by (simp add: d0_def)
    ultimately show ?thesis using op pe po by (simp add: dir_enumerate_def)
  qed
  have cnt: "length (filter (\<lambda>e. length (opened_root dname) + length (cFileName e) < APR_PATH_MAX env) es)
           = length es - length (filter (\<lambda>e. length (opened_root dname) + length (cFileName e)
                                        \<ge> APR_PATH_MAX env) es)"
    using length_filter_compl [of "\<lambda>e. length (opened_root dname) + length (cFileName e)
                                        \<ge> APR_PATH_MAX env" es]
    by (simp add: not_le)
  have B: "dirhand d \<noteq> None \<and> rootlen d \<noteq> 0 \<and>
          apr_dir_read env s (Some old) wanted d = Some (APR_SUCCESS, fo, d', s')
            \<longrightarrow> (\<exists>f'. fo = Some f' \<and> fi_name f' = reported_name env (entry d')) \<and>
                entry d' \<in> set (pending_entries d) \<and>
                rootlen d' + length (cFileName (entry d')) < APR_PATH_MAX env"
  proof (intro impI, elim conjE)
    assume o: "dirhand d \<noteq> None" and z: "rootlen d \<noteq> 0"
      and r: "apr_dir_read env s (Some old) wanted d = Some (APR_SUCCESS, fo, d', s')"
    obtain h where h: "dirhand d = Some h" using o by auto
    obtain f' rest where
      dw: "dropWhile (passed_over env (rootlen d)) (pending_entries d) = entry d' # rest"
      and f: "fo = Some f'" "fi_name f' = reported_name env (entry d')"
      and rl: "rootlen d' = rootlen d"
      using dir_read_success [OF h r] by blast
    have m: "entry d' \<in> set (pending_entries d)"
      using dw set_dropWhileD [of "entry d'" "passed_over env (rootlen d)" "pending_entries d"]
      by simp
    have "\<not> passed_over env (rootlen d) (entry d')"
      using dw hd_dropWhile [of "passed_over env (rootlen d)" "pending_entries d"] by auto
    then have "rootlen d + length (cFileName (entry d')) < APR_PATH_MAX env"
      using z by (simp add: passed_over_def)
    then show "(\<exists>f'. fo = Some f' \<and> fi_name f' = reported_name env (entry d')) \<and>
                entry d' \<in> set (pending_entries d) \<and>
                rootlen d' + length (cFileName (entry d')) < APR_PATH_MAX env"
      using f m rl by simp
  qed
  from A obtain fs where fs: "dir_enumerate env st dname pool wanted n = Some fs"
     "map fi_name fs = map (reported_name env)
               (filter (\<lambda>e. length (opened_root dname) + length (cFileName e) < APR_PATH_MAX env) es)"
    by blast
  have "length fs = length (filter (\<lambda>e. length (opened_root dname) + length (cFileName e) < APR_PATH_MAX env) es)"
    using fs(2) by (metis length_map)
  then have "length fs = length es
               - length (filter (\<lambda>e. length (opened_root dname) + length (cFileName e)
                                        \<ge> APR_PATH_MAX env) es)"
    using cnt by simp
  then show ?thesis using fs B by blast
qed

theorem dir_read_skips_long_names_witness:
  "failures_have_codes fs_sim \<and> ''d'' \<noteq> [] \<and>
   utf8_to_unicode_path fs_sim (opened_root ''d'') = (APR_SUCCESS, sim_wide ''d/'') \<and>
   ff_entries (FindFirstFileExW fs_sim
                 (calls st_init @ [Call_FindFirstFileExW (sim_wide ''d/'' @ [42])])) = sim_listing \<and>
   list_all (\<lambda>e. fst (unicode_to_utf8_path fs_sim (cFileName e)) = APR_SUCCESS) sim_listing \<and>
   length sim_listing < 6 \<and> length sim_listing = 5 \<and>
   (\<exists>fs. dir_enumerate fs_sim st_init ''d'' 0 0 6 = Some fs \<and>
         map fi_name fs = [Some ''.'', Some ''..'', Some ''a.txt'', Some ''b.txt''] \<and>
         length fs = 4) \<and>
   dirhand sim_dir \<noteq> None \<and> rootlen sim_dir \<noteq> 0 \<and>
   apr_dir_read fs_sim st_init (Some finfo_zero) 0 sim_dir =
     Some (APR_SUCCESS,
           fst (snd (the (apr_dir_read fs_sim st_init (Some finfo_zero) 0 sim_dir))),
           fst (snd (snd (the (apr_dir_read fs_sim st_init (Some finfo_zero) 0 sim_dir)))),
           snd (snd (snd (the (apr_dir_read fs_sim st_init (Some finfo_zero) 0 sim_dir))))) \<and>
   (\<exists>f'. fst (snd (the (apr_dir_read fs_sim st_init (Some finfo_zero) 0 sim_dir))) = Some f' \<and>
         fi_name f' = Some ''b.txt'') \<and>
   entry (fst (snd (snd (the (apr_dir_read fs_sim st_init (Some finfo_zero) 0 sim_dir)))))
     = sim_entry ''b.txt'' 0"
proof -
  have h1: "failures_have_codes fs_sim" by (rule sim_has_codes)
  have h2: "''d'' \<noteq> []" by simp
  have h3: "utf8_to_unicode_path fs_sim (opened_root ''d'') = (APR_SUCCESS, sim_wide ''d/'')"
    by (simp add: fs_sim_def opened_root_def)
  have h4: "ff_entries (FindFirstFileExW fs_sim
                 (calls st_init @ [Call_FindFirstFileExW (sim_wide ''d/'' @ [42])])) = sim_listing"
    by (simp add: fs_sim_def)
  have h5: "\<forall>e \<in> set sim_listing. fst (unicode_to_utf8_path fs_sim (cFileName e)) = APR_SUCCESS"
    by (simp add: fs_sim_def)
  have h6: "length sim_listing < 6" "length sim_listing = 5" by (simp_all add: sim_listing_def)
  have k1: "dirhand sim_dir \<noteq> None" "rootlen sim_dir \<noteq> 0" by (simp_all add: sim_dir_def)
  have k2: "apr_dir_read fs_sim st_init (Some finfo_zero) 0 sim_dir =
     Some (APR_SUCCESS,
           fst (snd (the (apr_dir_read fs_sim st_init (Some finfo_zero) 0 sim_dir))),
           fst (snd (snd (the (apr_dir_read fs_sim st_init (Some finfo_zero) 0 sim_dir)))),
           snd (snd (snd (the (apr_dir_read fs_sim st_init (Some finfo_zero) 0 sim_dir)))))"
    by code_simp
  have e1: "map (reported_name fs_sim)
               (filter (\<lambda>e. length (opened_root ''d'') + length (cFileName e) < APR_PATH_MAX fs_sim)
                  sim_listing) = [Some ''.'', Some ''..'', Some ''a.txt'', Some ''b.txt'']"
    by code_simp
  have e2: "length sim_listing
               - length (filter (\<lambda>e. length (opened_root ''d'') + length (cFileName e)
                                        \<ge> APR_PATH_MAX fs_sim) sim_listing) = 4"
    by code_simp
  have e3: "entry (fst (snd (snd (the (apr_dir_read fs_sim st_init (Some finfo_zero) 0 sim_dir)))))
     = sim_entry ''b.txt'' 0" by code_simp
  have e4: "reported_name fs_sim (sim_entry ''b.txt'' 0) = Some ''b.txt''" by code_simp
  note t = dir_read_skips_long_names [OF h1 h2 h3 h4 h5 h6(1), of 0 0 sim_dir st_init finfo_zero
      "fst (snd (the (apr_dir_read fs_sim st_init (Some finfo_zero) 0 sim_dir)))"
      "fst (snd (snd (the (apr_dir_read fs_sim st_init (Some finfo_zero) 0 sim_dir))))"
      "snd (snd (snd (the (apr_dir_read fs_sim st_init (Some finfo_zero) 0 sim_dir))))"]
  have a: "\<exists>fs. dir_enumerate fs_sim st_init ''d'' 0 0 6 = Some fs \<and>
         map fi_name fs = [Some ''.'', Some ''..'', Some ''a.txt'', Some ''b.txt''] \<and>
         length fs = 4"
    using t unfolding e1 e2 by blast
  have b: "\<exists>f'. fst (snd (the (apr_dir_read fs_sim st_init (Some finfo_zero) 0 sim_dir))) = Some f' \<and>
         fi_name f' = Some ''b.txt''"
    using t k1 k2 unfolding e3 e4 by blast
  have h5': "list_all (\<lambda>e. fst (unicode_to_utf8_path fs_sim (cFileName e)) = APR_SUCCESS)
               sim_listing"
    using h5 by (simp add: list_all_iff)
  show ?thesis
    using h1 h2 h3 h4 h5' h6 k1 k2 e3 a b by blast
qed

section \<open>The valid mask of the metadata queries\<close>

text \<open>
  On the simulated platform a request for exactly the size, by handle or by name,
  succeeds with a valid mask of \<^verbatim>\<open>APR_FINFO_SIZE\<close> alone, which does not cover the
  minimal set, and leaves in the structure what the caller had there (an inode number
  99 without the inode bit). And a full answer by handle for a read-only file carries
  \<^verbatim>\<open>APR_FREADONLY\<close> in the protection word while no protection bit is valid.
\<close>

theorem size_request_answers_size_alone:
  "fst (apr_file_info_get fs_sim st_init (finfo_zero \<lparr> fi_inode := 99 \<rparr>) APR_FINFO_SIZE sim_file)
     = APR_SUCCESS \<and>
   fi_valid (fst (snd (apr_file_info_get fs_sim st_init (finfo_zero \<lparr> fi_inode := 99 \<rparr>)
                         APR_FINFO_SIZE sim_file))) = APR_FINFO_SIZE \<and>
   \<not> covers (fi_valid (fst (snd (apr_file_info_get fs_sim st_init (finfo_zero \<lparr> fi_inode := 99 \<rparr>)
                         APR_FINFO_SIZE sim_file)))) APR_FINFO_MIN \<and>
   fi_inode (fst (snd (apr_file_info_get fs_sim st_init (finfo_zero \<lparr> fi_inode := 99 \<rparr>)
                         APR_FINFO_SIZE sim_file))) = 99 \<and>
   fst (apr_stat fs_sim st_init (finfo_zero \<lparr> fi_inode := 99 \<rparr>) ''a.txt'' APR_FINFO_SIZE 0)
     = APR_SUCCESS \<and>
   fi_valid (fst (snd (apr_stat fs_sim st_init (finfo_zero \<lparr> fi_inode := 99 \<rparr>) ''a.txt''
                         APR_FINFO_SIZE 0))) = APR_FINFO_SIZE \<and>
   fi_inode (fst (snd (apr_stat fs_sim st_init (finfo_zero \<lparr> fi_inode := 99 \<rparr>) ''a.txt''
                         APR_FINFO_SIZE 0))) = 99 \<and>
   fst (apr_file_info_get fs_sim st_init finfo_zero APR_FINFO_MIN sim_file) = APR_SUCCESS \<and>
   fi_valid (fst (snd (apr_file_info_get fs_sim st_init finfo_zero APR_FINFO_MIN sim_file)))
     AND APR_FINFO_PROT = 0 \<and>
   fi_protection (fst (snd (apr_file_info_get fs_sim st_init finfo_zero APR_FINFO_MIN sim_file)))
     = APR_FREADONLY"
  by code_simp

text \<open>
  C2 (as the code has it). On a platform whose failing queries leave an error code:

  \<^item> \<^verbatim>\<open>apr_file_info_get\<close>, when it succeeds on a request for exactly
    \<^verbatim>\<open>APR_FINFO_SIZE\<close>, writes the pool, the file name and the size, sets the valid
    mask to \<^verbatim>\<open>APR_FINFO_SIZE\<close> and leaves every other field as the caller had it;
    when it succeeds on any other request, the valid mask covers the minimal set, the
    identity and the link count, every field whose bit is clear is zero, and the type
    is \<^verbatim>\<open>APR_NOFILE\<close> if the type bit is clear;

  \<^item> \<^verbatim>\<open>apr_dir_read\<close>, when it succeeds with a finfo on an open directory, gives a
    valid mask that covers the minimal set, the link bit and the name, with every
    field whose bit is clear zero and the type \<^verbatim>\<open>APR_NOFILE\<close> if the type bit is
    clear;

  \<^item> \<^verbatim>\<open>apr_stat\<close>, when it succeeds, gives a valid mask that covers the size, and
    unless the request comes down to exactly the size, the mask covers size and the
    three times and every field whose bit is clear is zero.

  The protection word is read by scope: the private flag \<^verbatim>\<open>APR_FREADONLY\<close> is set
  without a bit of its own.
\<close>

theorem metadata_valid_mask:
  assumes "failures_have_codes env"
  shows "(fst (apr_file_info_get env st finfo wanted thefile) = APR_SUCCESS \<longrightarrow>
            (wanted = APR_FINFO_SIZE \<longrightarrow>
               (\<exists>q. fst (snd (apr_file_info_get env st finfo wanted thefile)) =
                      finfo \<lparr> fi_pool := fl_pool thefile, fi_fname := Some (fl_fname thefile),
                              fi_size := q, fi_valid := APR_FINFO_SIZE \<rparr>)) \<and>
            (wanted \<noteq> APR_FINFO_SIZE \<longrightarrow>
               answered_by_handle (fst (snd (apr_file_info_get env st finfo wanted thefile))))) \<and>
         (dirhand thedir \<noteq> None \<and>
          apr_dir_read env st (Some old) wanted thedir = Some (APR_SUCCESS, fo, d', st')
            \<longrightarrow> (\<exists>f'. fo = Some f' \<and>
                      covers (fi_valid f') (APR_FINFO_MIN OR APR_FINFO_LINK OR APR_FINFO_NAME) \<and>
                      unset_fields_clear f' \<and> type_clear f')) \<and>
         (fst (apr_stat env st finfo fname wanted pool) = APR_SUCCESS \<longrightarrow>
            covers (fi_valid (fst (snd (apr_stat env st finfo fname wanted pool)))) APR_FINFO_SIZE \<and>
            (\<not> size_only wanted \<longrightarrow>
               covers (fi_valid (fst (snd (apr_stat env st finfo fname wanted pool))))
                 (APR_FINFO_ATIME OR APR_FINFO_CTIME OR APR_FINFO_MTIME OR APR_FINFO_SIZE) \<and>
               unset_fields_clear (fst (snd (apr_stat env st finfo fname wanted pool)))))"
proof -
  have A: "fst (apr_file_info_get env st finfo wanted thefile) = APR_SUCCESS \<longrightarrow>
            (wanted = APR_FINFO_SIZE \<longrightarrow>
               (\<exists>q. fst (snd (apr_file_info_get env st finfo wanted thefile)) =
                      finfo \<lparr> fi_pool := fl_pool thefile, fi_fname := Some (fl_fname thefile),
                              fi_size := q, fi_valid := APR_FINFO_SIZE \<rparr>)) \<and>
            (wanted \<noteq> APR_FINFO_SIZE \<longrightarrow>
               answered_by_handle (fst (snd (apr_file_info_get env st finfo wanted thefile))))"
    using info_get_size_only [OF assms, of st finfo thefile]
      info_get_full [OF _ assms, of wanted st finfo thefile]
    by (auto simp: answered_by_handle_def)
  have B: "dirhand thedir \<noteq> None \<and>
          apr_dir_read env st (Some old) wanted thedir = Some (APR_SUCCESS, fo, d', st')
            \<longrightarrow> (\<exists>f'. fo = Some f' \<and>
                      covers (fi_valid f') (APR_FINFO_MIN OR APR_FINFO_LINK OR APR_FINFO_NAME) \<and>
                      unset_fields_clear f' \<and> type_clear f')"
  proof (intro impI, elim conjE)
    assume o: "dirhand thedir \<noteq> None"
      and r: "apr_dir_read env st (Some old) wanted thedir = Some (APR_SUCCESS, fo, d', st')"
    obtain h where h: "dirhand thedir = Some h" using o by auto
    show "\<exists>f'. fo = Some f' \<and>
                      covers (fi_valid f') (APR_FINFO_MIN OR APR_FINFO_LINK OR APR_FINFO_NAME) \<and>
                      unset_fields_clear f' \<and> type_clear f'"
      using dir_read_success [OF h r] by blast
  qed
  have C: "fst (apr_stat env st finfo fname wanted pool) = APR_SUCCESS \<longrightarrow>
            covers (fi_valid (fst (snd (apr_stat env st finfo fname wanted pool)))) APR_FINFO_SIZE \<and>
            (\<not> size_only wanted \<longrightarrow>
               covers (fi_valid (fst (snd (apr_stat env st finfo fname wanted pool))))
                 (APR_FINFO_ATIME OR APR_FINFO_CTIME OR APR_FINFO_MTIME OR APR_FINFO_SIZE) \<and>
               unset_fields_clear (fst (snd (apr_stat env st finfo fname wanted pool))))"
    using apr_stat_props [OF assms, of st finfo fname wanted pool] by blast
  show ?thesis using A B C by blast
qed

theorem metadata_valid_mask_witness:
  "failures_have_codes fs_sim \<and>
   fst (apr_file_info_get fs_sim st_init (finfo_zero \<lparr> fi_inode := 99 \<rparr>) APR_FINFO_SIZE sim_file)
     = APR_SUCCESS \<and>
   (\<exists>q. fst (snd (apr_file_info_get fs_sim st_init (finfo_zero \<lparr> fi_inode := 99 \<rparr>)
                      APR_FINFO_SIZE sim_file)) =
          finfo_zero \<lparr> fi_inode := 99, fi_pool := fl_pool sim_file,
                       fi_fname := Some (fl_fname sim_file), fi_size := q,
                       fi_valid := APR_FINFO_SIZE \<rparr>) \<and>
   APR_FINFO_MIN \<noteq> APR_FINFO_SIZE \<and>
   fst (apr_file_info_get fs_sim st_init finfo_zero APR_FINFO_MIN sim_file) = APR_SUCCESS \<and>
   answered_by_handle (fst (snd (apr_file_info_get fs_sim st_init finfo_zero APR_FINFO_MIN sim_file))) \<and>
   dirhand sim_dir \<noteq> None \<and>
   apr_dir_read fs_sim st_init (Some finfo_zero) 0 sim_dir =
     Some (APR_SUCCESS,
           fst (snd (the (apr_dir_read fs_sim st_init (Some finfo_zero) 0 sim_dir))),
           fst (snd (snd (the (apr_dir_read fs_sim st_init (Some finfo_zero) 0 sim_dir)))),
           snd (snd (snd (the (apr_dir_read fs_sim st_init (Some finfo_zero) 0 sim_dir))))) \<and>
   (\<exists>f'. fst (snd (the (apr_dir_read fs_sim st_init (Some finfo_zero) 0 sim_dir))) = Some f' \<and>
         covers (fi_valid f') (APR_FINFO_MIN OR APR_FINFO_LINK OR APR_FINFO_NAME) \<and>
         unset_fields_clear f' \<and> type_clear f') \<and>
   \<not> size_only (APR_FINFO_MIN OR APR_FINFO_LINK) \<and>
   fst (apr_stat fs_sim st_init finfo_zero ''a.txt'' (APR_FINFO_MIN OR APR_FINFO_LINK) 0)
     = APR_SUCCESS \<and>
   covers (fi_valid (fst (snd (apr_stat fs_sim st_init finfo_zero ''a.txt''
                                 (APR_FINFO_MIN OR APR_FINFO_LINK) 0))))
     (APR_FINFO_ATIME OR APR_FINFO_CTIME OR APR_FINFO_MTIME OR APR_FINFO_SIZE) \<and>
   unset_fields_clear (fst (snd (apr_stat fs_sim st_init finfo_zero ''a.txt''
                                   (APR_FINFO_MIN OR APR_FINFO_LINK) 0)))"
proof -
  have s: "failures_have_codes fs_sim" by (rule sim_has_codes)
  have p1: "fst (apr_file_info_get fs_sim st_init (finfo_zero \<lparr> fi_inode := 99 \<rparr>)
                   APR_FINFO_SIZE sim_file) = APR_SUCCESS" by code_simp
  have p2: "APR_FINFO_MIN \<noteq> APR_FINFO_SIZE" by (simp add: finfo_bits)
  have p3: "fst (apr_file_info_get fs_sim st_init finfo_zero APR_FINFO_MIN sim_file) = APR_SUCCESS"
    by code_simp
  have p4: "dirhand sim_dir \<noteq> None" by (simp add: sim_dir_def)
  have p5: "apr_dir_read fs_sim st_init (Some finfo_zero) 0 sim_dir =
     Some (APR_SUCCESS,
           fst (snd (the (apr_dir_read fs_sim st_init (Some finfo_zero) 0 sim_dir))),
           fst (snd (snd (the (apr_dir_read fs_sim st_init (Some finfo_zero) 0 sim_dir)))),
           snd (snd (snd (the (apr_dir_read fs_sim st_init (Some finfo_zero) 0 sim_dir)))))"
    by code_simp
  have p6: "\<not> size_only (APR_FINFO_MIN OR APR_FINFO_LINK)"
    by (simp add: size_only_def finfo_bits)
  have p7: "fst (apr_stat fs_sim st_init finfo_zero ''a.txt'' (APR_FINFO_MIN OR APR_FINFO_LINK) 0)
     = APR_SUCCESS" by code_simp
  have c1: "\<exists>q. fst (snd (apr_file_info_get fs_sim st_init (finfo_zero \<lparr> fi_inode := 99 \<rparr>)
                      APR_FINFO_SIZE sim_file)) =
          finfo_zero \<lparr> fi_inode := 99, fi_pool := fl_pool sim_file,
                       fi_fname := Some (fl_fname sim_file), fi_size := q,
                       fi_valid := APR_FINFO_SIZE \<rparr>"
    using metadata_valid_mask [OF s, of st_init "finfo_zero \<lparr> fi_inode := 99 \<rparr>" APR_FINFO_SIZE
        sim_file] p1 by blast
  have c2: "answered_by_handle
              (fst (snd (apr_file_info_get fs_sim st_init finfo_zero APR_FINFO_MIN sim_file)))"
    using metadata_valid_mask [OF s, of st_init finfo_zero APR_FINFO_MIN sim_file] p2 p3 by blast
  have c3: "\<exists>f'. fst (snd (the (apr_dir_read fs_sim st_init (Some finfo_zero) 0 sim_dir))) = Some f' \<and>
         covers (fi_valid f') (APR_FINFO_MIN OR APR_FINFO_LINK OR APR_FINFO_NAME) \<and>
         unset_fields_clear f' \<and> type_clear f'"
    using metadata_valid_mask [OF s, of st_init finfo_zero 0 sim_file sim_dir finfo_zero
        "fst (snd (the (apr_dir_read fs_sim st_init (Some finfo_zero) 0 sim_dir)))"
        "fst (snd (snd (the (apr_dir_read fs_sim st_init (Some finfo_zero) 0 sim_dir))))"
        "snd (snd (snd (the (apr_dir_read fs_sim st_init (Some finfo_zero) 0 sim_dir))))"]
      p4 p5 by blast
  have c4: "covers (fi_valid (fst (snd (apr_stat fs_sim st_init finfo_zero ''a.txt''
                                 (APR_FINFO_MIN OR APR_FINFO_LINK) 0))))
     (APR_FINFO_ATIME OR APR_FINFO_CTIME OR APR_FINFO_MTIME OR APR_FINFO_SIZE) \<and>
   unset_fields_clear (fst (snd (apr_stat fs_sim st_init finfo_zero ''a.txt''
                                   (APR_FINFO_MIN OR APR_FINFO_LINK) 0)))"
    using metadata_valid_mask [OF s, of st_init finfo_zero "APR_FINFO_MIN OR APR_FINFO_LINK"
        sim_file sim_dir finfo_zero None sim_dir st_init "''a.txt''" 0] p6 p7 by blast
  show ?thesis using s p1 p2 p3 p4 p5 p6 p7 c1 c2 c3 c4 by blast
qed

section \<open>Properties of file transmission\<close>


























end
